theory Spec2Isabelle
  imports Complex_Main
begin

section \<open>Values, errors and the request and response objects\<close>

text \<open>
  A shallow embedding of \<^verbatim>\<open>src/main.py\<close>, the session engine of the CAT module.
  Python and numpy floats are modelled as real numbers; the non-finite values a float
  can take (infinity as the standard error of an empty test, the result of a numpy
  division by zero) are constructors of their own. Rounding is not modelled.
\<close>

datatype pyfloat = Fin real | PInf | NInf | NaN

fun fadd :: "pyfloat \<Rightarrow> pyfloat \<Rightarrow> pyfloat" where
  "fadd (Fin x) (Fin y) = Fin (x + y)"
| "fadd NaN _ = NaN"
| "fadd _ NaN = NaN"
| "fadd PInf NInf = NaN"
| "fadd NInf PInf = NaN"
| "fadd PInf _ = PInf"
| "fadd _ PInf = PInf"
| "fadd NInf _ = NInf"
| "fadd _ NInf = NInf"

fun fmul :: "pyfloat \<Rightarrow> pyfloat \<Rightarrow> pyfloat" where
  "fmul (Fin x) (Fin y) = Fin (x * y)"
| "fmul NaN _ = NaN"
| "fmul _ NaN = NaN"
| "fmul PInf (Fin y) = (if 0 < y then PInf else if y < 0 then NInf else NaN)"
| "fmul NInf (Fin y) = (if 0 < y then NInf else if y < 0 then PInf else NaN)"
| "fmul (Fin x) PInf = (if 0 < x then PInf else if x < 0 then NInf else NaN)"
| "fmul (Fin x) NInf = (if 0 < x then NInf else if x < 0 then PInf else NaN)"
| "fmul PInf PInf = PInf"
| "fmul NInf NInf = PInf"
| "fmul PInf NInf = NInf"
| "fmul NInf PInf = NInf"

text \<open>
  Division of numpy scalars: a zero divisor gives an infinity or NaN (and a warning),
  never an exception.
\<close>

fun np_divide :: "pyfloat \<Rightarrow> pyfloat \<Rightarrow> pyfloat" where
  "np_divide (Fin x) (Fin y) =
     (if y \<noteq> 0 then Fin (x / y) else if 0 < x then PInf else if x < 0 then NInf else NaN)"
| "np_divide NaN _ = NaN"
| "np_divide _ NaN = NaN"
| "np_divide (Fin x) _ = Fin 0"
| "np_divide PInf (Fin y) = (if 0 \<le> y then PInf else NInf)"
| "np_divide NInf (Fin y) = (if 0 \<le> y then NInf else PInf)"
| "np_divide _ _ = NaN"

fun fle :: "pyfloat \<Rightarrow> pyfloat \<Rightarrow> bool" where
  "fle (Fin x) (Fin y) = (x \<le> y)"
| "fle NaN _ = False"
| "fle _ NaN = False"
| "fle NInf _ = True"
| "fle _ PInf = True"
| "fle _ _ = False"

datatype py_error =
    TypeError
  | ValueError
  | IndexError
  | AttributeError
  | UnboundLocalError
  | ZeroDivisionError
  | ResponseError
  | HTTPException nat

record QuestionAPI =
  q_id :: int
  discrimination :: real
  difficulty :: real
  pseudoGuessing :: real
  upperAsymptote :: real

text \<open>
  \<^verbatim>\<open>QuizAPI.quizId\<close> is optional in a request and overwritten by \<^verbatim>\<open>create_quiz\<close> before
  it is read, so the field holds an integer here. The other optional fields of a
  request are filled with their defaults when the request leaves them out; a request
  that sets one of them to \<^verbatim>\<open>null\<close> is not modelled.
\<close>

record QuizAPI =
  quizId :: int
  maxNumberOfQuestions :: int
  minMeasurementAccuracy :: real
  inputProficiencyLevel :: real
  questionSelector :: string
  competencyEstimator :: string
  questions :: "QuestionAPI list"

record AnswerAPI =
  a_quizId :: int
  isCorrect :: "real option"

record NextQuestionAPI =
  n_quizId :: int
  questionId :: "int option"
  measurementAccuracy :: pyfloat
  currentCompetency :: pyfloat
  quizFinished :: bool

record ResultAPI =
  r_quizId :: int
  r_quizFinished :: bool
  r_currentCompetency :: pyfloat
  r_measurementAccuracy :: pyfloat
  r_maxNumberOfQuestions :: int
  administeredQuestions :: "QuestionAPI list"
  responses :: "pyfloat list"

text \<open>
  An operation that can raise returns \<open>Inl\<close> of the error. \<open>ebind\<close> sequences two
  such computations; \<open>sbind\<close> does the same where the store has already been written:
  when the first computation raises, the store as it is at that point stays behind.
\<close>

definition ebind :: "py_error + 'a \<Rightarrow> ('a \<Rightarrow> py_error + 'b) \<Rightarrow> py_error + 'b" where
  "ebind m f = (case m of Inl e \<Rightarrow> Inl e | Inr x \<Rightarrow> f x)"

definition sbind :: "'s \<Rightarrow> py_error + 'a \<Rightarrow> ('a \<Rightarrow> 's \<times> (py_error + 'b)) \<Rightarrow> 's \<times> (py_error + 'b)" where
  "sbind s m f = (case m of Inl e \<Rightarrow> (s, Inl e) | Inr x \<Rightarrow> f x)"

primrec mapM :: "('a \<Rightarrow> py_error + 'b) \<Rightarrow> 'a list \<Rightarrow> py_error + 'b list" where
  "mapM f [] = Inr []"
| "mapM f (x # xs) = ebind (f x) (\<lambda>y. ebind (mapM f xs) (\<lambda>ys. Inr (y # ys)))"

text \<open>Python's list and array indexing: a negative index counts from the end.\<close>

definition py_index :: "'a list \<Rightarrow> int \<Rightarrow> py_error + 'a" where
  "py_index xs i =
     (if i < - int (length xs) \<or> int (length xs) \<le> i then Inl IndexError
      else Inr (xs ! nat (if i < 0 then int (length xs) + i else i)))"

section \<open>The Redis store\<close>

text \<open>
  A key is either a global name (\<^verbatim>\<open>"quizIds"\<close>) or \<^verbatim>\<open>str(quizId) + "_" + name\<close>.
  The decimal text of an integer holds no underscore, so the second form is given by
  the pair of the id and the name. A stored value is the bytes of what the client
  encoded: an integer, a float, a string, or the JSON text of a question.
\<close>

datatype key = Global string | Prefixed int string

datatype rval = RInt int | RFloat pyfloat | RStr string | RJson QuestionAPI

datatype rentry = RString rval | RList "rval list"

type_synonym redis = "key \<Rightarrow> rentry option"

definition get_rPrefix :: "int \<Rightarrow> string \<Rightarrow> key" where
  "get_rPrefix qId name = Prefixed qId name"

definition r_get :: "redis \<Rightarrow> key \<Rightarrow> py_error + rval option" where
  "r_get r k =
     (case r k of
        None \<Rightarrow> Inr None
      | Some (RString v) \<Rightarrow> Inr (Some v)
      | Some (RList xs) \<Rightarrow> Inl ResponseError)"

definition r_set :: "redis \<Rightarrow> key \<Rightarrow> rval \<Rightarrow> redis" where
  "r_set r k v = r(k \<mapsto> RString v)"

definition r_mset :: "redis \<Rightarrow> (key \<times> rval) list \<Rightarrow> redis" where
  "r_mset r kvs = fold (\<lambda>(k, v) r'. r_set r' k v) kvs r"

definition r_rpush :: "redis \<Rightarrow> key \<Rightarrow> rval \<Rightarrow> py_error + redis" where
  "r_rpush r k v =
     (case r k of
        None \<Rightarrow> Inr (r(k \<mapsto> RList [v]))
      | Some (RList xs) \<Rightarrow> Inr (r(k \<mapsto> RList (xs @ [v])))
      | Some (RString w) \<Rightarrow> Inl ResponseError)"

text \<open>\<^verbatim>\<open>r.lrange(k, 0, r.llen(k))\<close>: the whole list, empty for a key that does not exist.\<close>

definition r_lrange :: "redis \<Rightarrow> key \<Rightarrow> py_error + rval list" where
  "r_lrange r k =
     (case r k of
        None \<Rightarrow> Inr []
      | Some (RList xs) \<Rightarrow> Inr xs
      | Some (RString w) \<Rightarrow> Inl ResponseError)"

definition r_delete :: "redis \<Rightarrow> key list \<Rightarrow> redis" where
  "r_delete r ks = (\<lambda>k. if k \<in> set ks then None else r k)"

text \<open>\<^verbatim>\<open>r.lrem(k, 0, v)\<close> removes every occurrence; Redis drops a list that becomes empty.\<close>

definition r_lrem :: "redis \<Rightarrow> key \<Rightarrow> rval \<Rightarrow> py_error + redis" where
  "r_lrem r k v =
     (case r k of
        None \<Rightarrow> Inr r
      | Some (RList xs) \<Rightarrow>
          (let ys = filter (\<lambda>x. x \<noteq> v) xs
           in Inr (if ys = [] then r(k := None) else r(k \<mapsto> RList ys)))
      | Some (RString w) \<Rightarrow> Inl ResponseError)"

subsection \<open>Reading stored bytes back\<close>

fun py_int :: "rval option \<Rightarrow> py_error + int" where
  "py_int None = Inl TypeError"
| "py_int (Some (RInt i)) = Inr i"
| "py_int (Some v) = Inl ValueError"

fun py_float :: "rval option \<Rightarrow> py_error + pyfloat" where
  "py_float None = Inl TypeError"
| "py_float (Some (RFloat x)) = Inr x"
| "py_float (Some (RInt i)) = Inr (Fin (of_int i))"
| "py_float (Some v) = Inl ValueError"

text \<open>\<^verbatim>\<open>r.get(k).decode()\<close>: \<open>None\<close> has no such method.\<close>

fun decode :: "rval option \<Rightarrow> py_error + rval" where
  "decode None = Inl AttributeError"
| "decode (Some v) = Inr v"

definition lower :: "string \<Rightarrow> string" where
  "lower s =
     map (\<lambda>c. case map_of (zip ''ABCDEFGHIJKLMNOPQRSTUVWXYZ'' ''abcdefghijklmnopqrstuvwxyz'') c of
                 None \<Rightarrow> c | Some d \<Rightarrow> d) s"

text \<open>\<^verbatim>\<open>distutils.util.strtobool\<close> on decoded text.\<close>

fun strtobool :: "rval \<Rightarrow> py_error + bool" where
  "strtobool (RStr s) =
     (if lower s \<in> set [''y'', ''yes'', ''t'', ''true'', ''on'', ''1''] then Inr True
      else if lower s \<in> set [''n'', ''no'', ''f'', ''false'', ''off'', ''0''] then Inr False
      else Inl ValueError)"
| "strtobool (RInt i) = (if i = 1 then Inr True else if i = 0 then Inr False else Inl ValueError)"
| "strtobool v = Inl ValueError"

definition py_str_bool :: "bool \<Rightarrow> string" where
  "py_str_bool b = (if b then ''True'' else ''False'')"

text \<open>\<^verbatim>\<open>json.loads\<close> of a list entry, followed by \<^verbatim>\<open>.get\<close> on the parsed value.\<close>

fun json_loads :: "rval \<Rightarrow> py_error + QuestionAPI" where
  "json_loads (RJson q) = Inr q"
| "json_loads (RStr s) = Inl ValueError"
| "json_loads v = Inl AttributeError"

section \<open>The catsim library\<close>

text \<open>
  The estimation, selection and stopping classes come from the \<^verbatim>\<open>catsim\<close> package, which
  is not part of \<^verbatim>\<open>src/\<close>. Each definition of this section is modelled from the
  specification; the differential-evolution optimiser and the random initializer are
  stochastic and stay parameters of the model, as does the one constant of the missing
  \<^verbatim>\<open>config\<close> module that the engine stores.
\<close>

type_synonym item = "real \<times> real \<times> real \<times> real"

record catsim_env =
  differential_evolution ::
    "pyfloat \<times> pyfloat \<Rightarrow> item list \<Rightarrow> int list \<Rightarrow> bool list \<Rightarrow> pyfloat \<Rightarrow> real"
  random_initialize :: real
  default_standardErrorOfEstimation :: pyfloat

text \<open>
  Modelled from the spec: \<^verbatim>\<open>catsim.irt.icc\<close> is missing; section 4.1,
  \<^verbatim>\<open>P(theta) = c + (d - c) / (1 + exp(-a (theta - b)))\<close>.
\<close>

definition icc :: "real \<Rightarrow> item \<Rightarrow> real" where
  "icc theta it = (case it of (a, b, c, d) \<Rightarrow> c + (d - c) / (1 + exp (- a * (theta - b))))"

text \<open>
  Modelled from the spec: \<^verbatim>\<open>catsim.irt.inf\<close> is missing; section 4.1,
  \<^verbatim>\<open>I(theta) = a^2 (P - c)^2 (d - P)^2 / ((d - c)^2 P (1 - P))\<close>, clamped to 0 if
  \<^verbatim>\<open>P\<close> is 0 or 1.
\<close>

definition irt_inf :: "real \<Rightarrow> item \<Rightarrow> real" where
  "irt_inf theta it =
     (case it of (a, b, c, d) \<Rightarrow>
        (let p = icc theta it
         in if p = 0 \<or> p = 1 then 0
            else a\<^sup>2 * (p - c)\<^sup>2 * (d - p)\<^sup>2 / ((d - c)\<^sup>2 * p * (1 - p))))"

definition test_info :: "real \<Rightarrow> item list \<Rightarrow> real" where
  "test_info theta its = sum_list (map (irt_inf theta) its)"

text \<open>
  Modelled from the spec: \<^verbatim>\<open>catsim.irt.see\<close> is missing; section 4.1,
  \<^verbatim>\<open>SE(theta) = 1 / sqrt(sum of I_i(theta))\<close>, defined as plus infinity when the set is
  empty or the total information is 0. A negative total, which only items outside the
  ranges of the data model can produce, has no square root and is given plus infinity
  as well.
\<close>

definition see :: "real \<Rightarrow> item list \<Rightarrow> pyfloat" where
  "see theta its =
     (if its = [] \<or> test_info theta its \<le> 0 then PInf
      else Fin (1 / sqrt (test_info theta its)))"

text \<open>
  Modelled from the spec: \<^verbatim>\<open>catsim.stopping\<close> is missing; section 4.4,
  MinErrorStopper(threshold) stops when \<^verbatim>\<open>SE(theta) <= threshold\<close> over the administered
  items, MaxItemStopper(threshold) stops when \<^verbatim>\<open>len(administeredIndices) >= threshold\<close>.
\<close>

definition MinErrorStopper_stop :: "pyfloat \<Rightarrow> item list \<Rightarrow> real \<Rightarrow> bool" where
  "MinErrorStopper_stop min_error administered theta = fle (see theta administered) min_error"

definition MaxItemStopper_stop :: "int \<Rightarrow> item list \<Rightarrow> bool" where
  "MaxItemStopper_stop max_itens administered = (max_itens \<le> int (length administered))"

text \<open>
  Modelled from the spec: \<^verbatim>\<open>catsim.selection.MaxInfoSelector\<close> is missing; section 4.3,
  it scans all bank indices not yet administered, computes the information of each at
  the current estimate and returns the index of maximum information, ties broken by
  the lowest index. The information formula is stated for a real estimate; a
  non-finite one is given information 0 for every item. When no index is left there
  is nothing to return (\<open>None\<close>).
\<close>

definition info_at :: "pyfloat \<Rightarrow> item \<Rightarrow> real" where
  "info_at est_theta it = (case est_theta of Fin theta \<Rightarrow> irt_inf theta it | _ \<Rightarrow> 0)"

definition MaxInfoSelector_select :: "item list \<Rightarrow> int list \<Rightarrow> pyfloat \<Rightarrow> int option" where
  "MaxInfoSelector_select items administered_items est_theta =
     (case filter (\<lambda>i. i \<notin> set administered_items) (map int [0..<length items]) of
        [] \<Rightarrow> None
      | i # rest \<Rightarrow>
          Some (fold (\<lambda>j best.
                  if info_at est_theta (items ! nat best) < info_at est_theta (items ! nat j)
                  then j else best) rest i))"

text \<open>
  Modelled from the spec: \<^verbatim>\<open>catsim.selection.LinearSelector\<close> is missing; section 4.3,
  it returns the items strictly in the order of the index list it was built with and
  ignores the estimate: the first entry of the list that is not administered yet, which
  is the index following the last administered one as long as the items were delivered
  in that order. When no entry is left there is nothing to return (\<open>None\<close>).
\<close>

definition LinearSelector_select :: "int list \<Rightarrow> int list \<Rightarrow> int option" where
  "LinearSelector_select indexes administered_items =
     (case filter (\<lambda>x. x \<notin> set administered_items) indexes of
        [] \<Rightarrow> None
      | x # rest \<Rightarrow> Some x)"

datatype selector = MaxInfoSelector | LinearSelector "int list"

fun select :: "selector \<Rightarrow> item list \<Rightarrow> int list \<Rightarrow> pyfloat \<Rightarrow> int option" where
  "select MaxInfoSelector items administered_items est_theta =
     MaxInfoSelector_select items administered_items est_theta"
| "select (LinearSelector indexes) items administered_items est_theta =
     LinearSelector_select indexes administered_items"

datatype estimator = DifferentialEvolutionEstimator "pyfloat \<times> pyfloat"

fun estimate ::
  "catsim_env \<Rightarrow> estimator \<Rightarrow> item list \<Rightarrow> int list \<Rightarrow> bool list \<Rightarrow> pyfloat \<Rightarrow> real" where
  "estimate env (DifferentialEvolutionEstimator bounds) items administered_items
     response_vector est_theta =
     differential_evolution env bounds items administered_items response_vector est_theta"

text \<open>\<^verbatim>\<open>numpy.amin\<close> and \<^verbatim>\<open>numpy.amax\<close> of a column: an empty column raises ValueError.\<close>

fun np_amin :: "real list \<Rightarrow> py_error + real" where
  "np_amin [] = Inl ValueError"
| "np_amin (x # xs) = Inr (fold min xs x)"

fun np_amax :: "real list \<Rightarrow> py_error + real" where
  "np_amax [] = Inl ValueError"
| "np_amax (x # xs) = Inr (fold max xs x)"

section \<open>Helper methods\<close>

definition item_of :: "QuestionAPI \<Rightarrow> item" where
  "item_of p = (discrimination p, difficulty p, pseudoGuessing p, upperAsymptote p)"

definition get_items :: "redis \<Rightarrow> int \<Rightarrow> py_error + item list" where
  "get_items r qId =
     ebind (r_lrange r (get_rPrefix qId ''questions'')) (\<lambda>questionsJSON.
       mapM (\<lambda>questionJSON. ebind (json_loads questionJSON) (\<lambda>questionParsed.
               Inr (item_of questionParsed))) questionsJSON)"

definition get_item_by_index :: "redis \<Rightarrow> int \<Rightarrow> int \<Rightarrow> py_error + item" where
  "get_item_by_index r qId itemIndex =
     ebind (get_items r qId) (\<lambda>items. py_index items itemIndex)"

definition get_questionIds :: "redis \<Rightarrow> int \<Rightarrow> py_error + int list" where
  "get_questionIds r qId =
     ebind (r_lrange r (get_rPrefix qId ''questions'')) (\<lambda>questionsJSON.
       mapM (\<lambda>questionJSON. ebind (json_loads questionJSON) (\<lambda>questionParsed.
               Inr (q_id questionParsed))) questionsJSON)"

definition get_questionId_by_index :: "redis \<Rightarrow> int \<Rightarrow> int \<Rightarrow> py_error + int" where
  "get_questionId_by_index r qId itemIndex =
     ebind (get_questionIds r qId) (\<lambda>questionIds. py_index questionIds itemIndex)"

definition get_administeredItems :: "redis \<Rightarrow> int \<Rightarrow> py_error + int list" where
  "get_administeredItems r qId =
     ebind (r_lrange r (get_rPrefix qId ''administeredItems'')) (\<lambda>administeredItemsJSON.
       mapM (\<lambda>administeredItemJSON. py_int (Some administeredItemJSON)) administeredItemsJSON)"

definition get_responses :: "redis \<Rightarrow> int \<Rightarrow> py_error + bool list" where
  "get_responses r qId =
     ebind (r_lrange r (get_rPrefix qId ''responses'')) (\<lambda>responsesJSON.
       mapM (\<lambda>responseJSON. ebind (py_float (Some responseJSON)) (\<lambda>x.
               if x = Fin 1 then Inr True else Inr False)) responsesJSON)"

definition get_responses_as_float :: "redis \<Rightarrow> int \<Rightarrow> py_error + pyfloat list" where
  "get_responses_as_float r qId =
     ebind (r_lrange r (get_rPrefix qId ''responses'')) (\<lambda>responsesJSON.
       mapM (\<lambda>responseJSON. py_float (Some responseJSON)) responsesJSON)"

function get_indices_loop :: "nat \<Rightarrow> int \<Rightarrow> int list \<Rightarrow> int list" where
  "get_indices_loop n i indices =
     (if i \<le> int n then get_indices_loop n (i + 1) (indices @ [i]) else indices)"
  by pat_completeness auto
termination
  by (relation "measure (\<lambda>(n, i, indices). nat (int n + 1 - i))") auto

declare get_indices_loop.simps [simp del]

definition get_indices :: "redis \<Rightarrow> int \<Rightarrow> py_error + int list" where
  "get_indices r qId =
     ebind (get_items r qId) (\<lambda>items. Inr (get_indices_loop (length items) 0 []))"

definition get_estimator :: "redis \<Rightarrow> int \<Rightarrow> py_error + estimator" where
  "get_estimator r qId =
     ebind (r_get r (get_rPrefix qId ''competencyEstimator'')) (\<lambda>v.
     ebind (decode v) (\<lambda>name.
       if name = RStr ''differentialEvolutionEstimator'' then
         ebind (r_get r (get_rPrefix qId ''minDiff'')) (\<lambda>lo.
         ebind (py_float lo) (\<lambda>minDiff.
         ebind (r_get r (get_rPrefix qId ''maxDiff'')) (\<lambda>hi.
         ebind (py_float hi) (\<lambda>maxDiff.
           Inr (DifferentialEvolutionEstimator (minDiff, maxDiff))))))
       else Inl UnboundLocalError))"

definition get_selector :: "redis \<Rightarrow> int \<Rightarrow> py_error + selector" where
  "get_selector r qId =
     ebind (r_get r (get_rPrefix qId ''questionSelector'')) (\<lambda>v.
     ebind (decode v) (\<lambda>name.
       if name = RStr ''maxInfoSelector'' then Inr MaxInfoSelector
       else if name = RStr ''linearSelector'' then
         ebind (get_indices r qId) (\<lambda>indices. Inr (LinearSelector indices))
       else Inl UnboundLocalError))"

fun quizIdExists_loop :: "rval list \<Rightarrow> int \<Rightarrow> py_error + bool" where
  "quizIdExists_loop [] qId = Inr False"
| "quizIdExists_loop (quizIdJSON # rest) qId =
     ebind (py_int (Some quizIdJSON)) (\<lambda>i.
       if i = qId then Inr True else quizIdExists_loop rest qId)"

definition quizIdExists :: "redis \<Rightarrow> int \<Rightarrow> py_error + bool" where
  "quizIdExists r qId =
     ebind (r_lrange r (Global ''quizIds'')) (\<lambda>quizIdsJSON. quizIdExists_loop quizIdsJSON qId)"

text \<open>\<^verbatim>\<open>items[administered_items]\<close>: numpy indexing of the bank by an index array.\<close>

definition take_items :: "item list \<Rightarrow> int list \<Rightarrow> py_error + item list" where
  "take_items items administered_items = mapM (py_index items) administered_items"

section \<open>Initialisation of a quiz\<close>

definition init_initializer :: "catsim_env \<Rightarrow> redis \<Rightarrow> QuizAPI \<Rightarrow> redis" where
  "init_initializer env r quizAPI =
     (let currentProficiencyLevel =
            (if inputProficiencyLevel quizAPI = 999 / 10 then random_initialize env
             else inputProficiencyLevel quizAPI)
      in r_set r (get_rPrefix (quizId quizAPI) ''estTheta'') (RFloat (Fin currentProficiencyLevel)))"

definition init_estimator :: "redis \<Rightarrow> QuizAPI \<Rightarrow> redis \<times> (py_error + unit)" where
  "init_estimator r quizAPI =
     (if competencyEstimator quizAPI = ''differentialEvolutionEstimator'' then
        sbind r (get_items r (quizId quizAPI)) (\<lambda>items.
        sbind r (np_amin (map (\<lambda>it. fst (snd it)) items)) (\<lambda>minDiff.
        sbind r (get_items r (quizId quizAPI)) (\<lambda>items'.
        sbind r (np_amax (map (\<lambda>it. fst (snd it)) items')) (\<lambda>maxDiff.
          (r_mset r [(get_rPrefix (quizId quizAPI) ''minDiff'', RFloat (Fin minDiff)),
                     (get_rPrefix (quizId quizAPI) ''maxDiff'', RFloat (Fin maxDiff))],
           Inr ())))))
      else (r, Inr ()))"

definition init_selector :: "redis \<Rightarrow> QuizAPI \<Rightarrow> redis \<times> QuizAPI" where
  "init_selector r quizAPI =
     (if questionSelector quizAPI = ''linearSelector'' then
        (let quizAPI1 = quizAPI\<lparr>maxNumberOfQuestions := int (length (questions quizAPI))\<rparr>;
             r1 = r_set r (get_rPrefix (quizId quizAPI1) ''maxNumberOfQuestions'')
                    (RInt (int (length (questions quizAPI1))));
             quizAPI2 = quizAPI1\<lparr>minMeasurementAccuracy := 0\<rparr>;
             r2 = r_set r1 (get_rPrefix (quizId quizAPI2) ''minMeasurementAccuracy'')
                    (RFloat (Fin 0));
             quizAPI3 = quizAPI2\<lparr>competencyEstimator := ''linearEstimator''\<rparr>
         in (r2, quizAPI3))
      else (r, quizAPI))"

fun store_questions :: "redis \<Rightarrow> key \<Rightarrow> QuestionAPI list \<Rightarrow> redis \<times> (py_error + unit)" where
  "store_questions r k [] = (r, Inr ())"
| "store_questions r k (question # rest) =
     sbind r (r_rpush r k (RJson question)) (\<lambda>r'. store_questions r' k rest)"

text \<open>
  \<^verbatim>\<open>create_quiz\<close>; \<open>new_id\<close> is the value of \<^verbatim>\<open>id(quizAPI)\<close>, which the interpreter
  chooses.
\<close>

definition create_quiz ::
  "catsim_env \<Rightarrow> redis \<Rightarrow> QuizAPI \<Rightarrow> int \<Rightarrow> redis \<times> (py_error + QuizAPI)" where
  "create_quiz env r quizAPI0 new_id =
     (let quizAPI = quizAPI0\<lparr>quizId := new_id\<rparr>;
          r1 = r_mset r
            [(get_rPrefix (quizId quizAPI) ''maxNumberOfQuestions'',
                RInt (maxNumberOfQuestions quizAPI)),
             (get_rPrefix (quizId quizAPI) ''minMeasurementAccuracy'',
                RFloat (Fin (minMeasurementAccuracy quizAPI))),
             (get_rPrefix (quizId quizAPI) ''inputProficiencyLevel'',
                RFloat (Fin (inputProficiencyLevel quizAPI))),
             (get_rPrefix (quizId quizAPI) ''questionSelector'',
                RStr (questionSelector quizAPI)),
             (get_rPrefix (quizId quizAPI) ''competencyEstimator'',
                RStr (competencyEstimator quizAPI)),
             (get_rPrefix (quizId quizAPI) ''standardErrorOfEstimation'',
                RFloat (default_standardErrorOfEstimation env)),
             (get_rPrefix (quizId quizAPI) ''quizFinished'', RStr (py_str_bool False))]
      in case store_questions r1 (get_rPrefix (quizId quizAPI) ''questions'') (questions quizAPI) of
           (r2, Inl e) \<Rightarrow> (r2, Inl e)
         | (r2, Inr u) \<Rightarrow>
             (let r3 = init_initializer env r2 quizAPI
              in case init_estimator r3 quizAPI of
                   (r4, Inl e) \<Rightarrow> (r4, Inl e)
                 | (r4, Inr u') \<Rightarrow>
                     (case init_selector r4 quizAPI of
                        (r5, quizAPI') \<Rightarrow>
                          sbind r5 (r_rpush r5 (Global ''quizIds'') (RInt (quizId quizAPI')))
                            (\<lambda>r6. (r6, Inr quizAPI')))))"

section \<open>The next question\<close>

text \<open>
  \<^verbatim>\<open>get_next_question\<close> is given in three parts: the branch that delivers the first
  question, the branch that records a response, and the function itself, which loads
  the bank, the administered items, the stoppers and the selector and then takes one
  of the branches. A response that is missing or outside \<open>[0, 1]\<close> takes neither, and
  the final \<^verbatim>\<open>return (nextQuestion)\<close> reads a variable that was never assigned.
\<close>

definition int_of_index :: "int option \<Rightarrow> py_error + int" where
  "int_of_index itemIndex = (case itemIndex of None \<Rightarrow> Inl TypeError | Some i \<Rightarrow> Inr i)"

definition first_question ::
  "redis \<Rightarrow> AnswerAPI \<Rightarrow> int list \<Rightarrow> selector \<Rightarrow> redis \<times> (py_error + NextQuestionAPI)" where
  "first_question r answer administered_items selector =
     (let p = get_rPrefix (a_quizId answer) in
      sbind r (get_items r (a_quizId answer)) (\<lambda>items'.
      sbind r (r_get r (p ''estTheta'')) (\<lambda>v3.
      sbind r (py_float v3) (\<lambda>est_theta.
      sbind r (int_of_index (select selector items' administered_items est_theta)) (\<lambda>itemIndex.
        (let r1 = r_set r (p ''itemIndex'') (RInt itemIndex) in
         sbind r1 (get_questionId_by_index r1 (a_quizId answer) itemIndex) (\<lambda>qid.
         sbind r1 (r_get r1 (p ''standardErrorOfEstimation'')) (\<lambda>v4.
         sbind r1 (py_float v4) (\<lambda>standardErrorOfEstimation.
         sbind r1 (r_get r1 (p ''estTheta'')) (\<lambda>v5.
         sbind r1 (py_float v5) (\<lambda>estTheta.
         sbind r1 (r_get r1 (p ''quizFinished'')) (\<lambda>v6.
         sbind r1 (decode v6) (\<lambda>d6.
         sbind r1 (strtobool d6) (\<lambda>finished.
         sbind r1 (r_rpush r1 (p ''administeredItems'') (RInt itemIndex)) (\<lambda>r2.
           (r2, Inr \<lparr>n_quizId = a_quizId answer, questionId = Some qid,
                     measurementAccuracy = standardErrorOfEstimation,
                     currentCompetency = estTheta,
                     quizFinished = finished\<rparr>))))))))))))))))"

definition next_after_response ::
  "redis \<Rightarrow> AnswerAPI \<Rightarrow> int list \<Rightarrow> selector \<Rightarrow> real \<Rightarrow> pyfloat \<Rightarrow> bool
     \<Rightarrow> redis \<times> (py_error + NextQuestionAPI)" where
  "next_after_response r4 answer administered_items selector estTheta
     standardErrorOfEstimation finished =
     (let p = get_rPrefix (a_quizId answer) in
      if \<not> finished then
        sbind r4 (get_items r4 (a_quizId answer)) (\<lambda>items'.
        sbind r4 (int_of_index (select selector items' administered_items (Fin estTheta)))
          (\<lambda>itemIndex.
          (let r5 = r_set r4 (p ''itemIndex'') (RInt itemIndex) in
           sbind r5 (get_questionId_by_index r5 (a_quizId answer) itemIndex) (\<lambda>qid.
           sbind r5 (r_rpush r5 (p ''administeredItems'') (RInt itemIndex)) (\<lambda>r6.
             (r6, Inr \<lparr>n_quizId = a_quizId answer, questionId = Some qid,
                       measurementAccuracy = standardErrorOfEstimation,
                       currentCompetency = Fin estTheta,
                       quizFinished = finished\<rparr>))))))
      else
        (r4, Inr \<lparr>n_quizId = a_quizId answer, questionId = None,
                  measurementAccuracy = standardErrorOfEstimation,
                  currentCompetency = Fin estTheta,
                  quizFinished = finished\<rparr>))"

definition record_response ::
  "catsim_env \<Rightarrow> redis \<Rightarrow> AnswerAPI \<Rightarrow> item list \<Rightarrow> int list \<Rightarrow> pyfloat \<Rightarrow> int \<Rightarrow> selector
     \<Rightarrow> real \<Rightarrow> redis \<times> (py_error + NextQuestionAPI)" where
  "record_response env r answer items administered_items min_error max_itens selector x =
     (let p = get_rPrefix (a_quizId answer) in
      sbind r (r_rpush r (p ''responses'') (RFloat (Fin x))) (\<lambda>r1.
      sbind r1 (get_estimator r1 (a_quizId answer)) (\<lambda>estimator.
      sbind r1 (get_responses r1 (a_quizId answer)) (\<lambda>response_vector.
      sbind r1 (r_get r1 (p ''estTheta'')) (\<lambda>v3.
      sbind r1 (py_float v3) (\<lambda>est_theta.
        (let estTheta = estimate env estimator items administered_items response_vector
                          est_theta;
             r2 = r_set r1 (p ''estTheta'') (RFloat (Fin estTheta)) in
         sbind r2 (take_items items administered_items) (\<lambda>administered.
           (let standardErrorOfEstimation = see estTheta administered;
                r3 = r_set r2 (p ''standardErrorOfEstimation'')
                       (RFloat standardErrorOfEstimation);
                finished = (MinErrorStopper_stop min_error administered estTheta
                            \<or> MaxItemStopper_stop max_itens administered);
                r4 = r_set r3 (p ''quizFinished'') (RStr (py_str_bool finished))
            in next_after_response r4 answer administered_items selector estTheta
                 standardErrorOfEstimation finished)))))))))"

definition get_next_question ::
  "catsim_env \<Rightarrow> redis \<Rightarrow> AnswerAPI \<Rightarrow> redis \<times> (py_error + NextQuestionAPI)" where
  "get_next_question env r answer =
     (let p = get_rPrefix (a_quizId answer) in
      sbind r (get_items r (a_quizId answer)) (\<lambda>items.
      sbind r (get_administeredItems r (a_quizId answer)) (\<lambda>administered_items.
      sbind r (r_get r (p ''minMeasurementAccuracy'')) (\<lambda>v1.
      sbind r (py_float v1) (\<lambda>min_error.
      sbind r (r_get r (p ''maxNumberOfQuestions'')) (\<lambda>v2.
      sbind r (py_int v2) (\<lambda>max_itens.
      sbind r (get_selector r (a_quizId answer)) (\<lambda>selector.
        if length administered_items = 0 then
          first_question r answer administered_items selector
        else (case isCorrect answer of
                Some x \<Rightarrow>
                  if 0 \<le> x \<and> x \<le> 1 then
                    record_response env r answer items administered_items min_error
                      max_itens selector x
                  else (r, Inl UnboundLocalError)
              | None \<Rightarrow> (r, Inl UnboundLocalError))))))))))"

section \<open>The result and the deletion of a quiz\<close>

text \<open>
  The loop of \<^verbatim>\<open>get_result\<close> over the administered items, with its four variables
  \<^verbatim>\<open>administeredQuestions\<close>, \<^verbatim>\<open>achievablePoints\<close>, \<^verbatim>\<open>achievedPoints\<close> and \<^verbatim>\<open>i\<close>.
\<close>

fun result_loop ::
  "redis \<Rightarrow> int \<Rightarrow> pyfloat list \<Rightarrow> int list \<Rightarrow> QuestionAPI list \<times> real \<times> pyfloat \<times> int
     \<Rightarrow> py_error + QuestionAPI list \<times> real \<times> pyfloat \<times> int" where
  "result_loop r qId resps [] acc = Inr acc"
| "result_loop r qId resps (itemIndex # rest) (administered, achievablePoints, achievedPoints, i) =
     ebind (get_item_by_index r qId itemIndex) (\<lambda>it.
     ebind (get_questionId_by_index r qId itemIndex) (\<lambda>qid.
     ebind (py_index resps i) (\<lambda>response.
       (case it of (a, b, c, d) \<Rightarrow>
          result_loop r qId resps rest
            (administered @ [\<lparr>q_id = qid, discrimination = a, difficulty = b,
                              pseudoGuessing = c, upperAsymptote = d\<rparr>],
             achievablePoints + b,
             fadd achievedPoints (fmul (Fin b) response),
             i + 1)))))"

text \<open>The same loop in the branch of an adaptive quiz, which only collects the questions.\<close>

fun questions_loop ::
  "redis \<Rightarrow> int \<Rightarrow> int list \<Rightarrow> QuestionAPI list \<Rightarrow> py_error + QuestionAPI list" where
  "questions_loop r qId [] administered = Inr administered"
| "questions_loop r qId (itemIndex # rest) administered =
     ebind (get_item_by_index r qId itemIndex) (\<lambda>it.
     ebind (get_questionId_by_index r qId itemIndex) (\<lambda>qid.
       (case it of (a, b, c, d) \<Rightarrow>
          questions_loop r qId rest
            (administered @ [\<lparr>q_id = qid, discrimination = a, difficulty = b,
                              pseudoGuessing = c, upperAsymptote = d\<rparr>]))))"

text \<open>
  \<^verbatim>\<open>achievedPoints / achievablePoints\<close>: both are Python floats \<open>0.0\<close> before the first
  pass of the loop, whose division raises; after it they are numpy scalars.
\<close>

definition points_ratio :: "int list \<Rightarrow> pyfloat \<Rightarrow> real \<Rightarrow> py_error + pyfloat" where
  "points_ratio administered_items achievedPoints achievablePoints =
     (if administered_items = [] then Inl ZeroDivisionError
      else Inr (np_divide achievedPoints (Fin achievablePoints)))"

definition build_result ::
  "redis \<Rightarrow> int \<Rightarrow> QuestionAPI list \<Rightarrow> py_error + ResultAPI" where
  "build_result r qId administered =
     (let p = get_rPrefix qId in
      ebind (r_get r (p ''quizFinished'')) (\<lambda>v1.
      ebind (decode v1) (\<lambda>d1.
      ebind (strtobool d1) (\<lambda>finished.
      ebind (r_get r (p ''estTheta'')) (\<lambda>v2.
      ebind (py_float v2) (\<lambda>estTheta.
      ebind (r_get r (p ''standardErrorOfEstimation'')) (\<lambda>v3.
      ebind (py_float v3) (\<lambda>standardErrorOfEstimation.
      ebind (get_responses_as_float r qId) (\<lambda>resps.
      ebind (r_get r (p ''maxNumberOfQuestions'')) (\<lambda>v4.
      ebind (py_int v4) (\<lambda>max_itens.
        Inr \<lparr>r_quizId = qId, r_quizFinished = finished, r_currentCompetency = estTheta,
             r_measurementAccuracy = standardErrorOfEstimation,
             r_maxNumberOfQuestions = max_itens,
             administeredQuestions = administered,
             responses = resps\<rparr>)))))))))))"

definition get_result :: "redis \<Rightarrow> int \<Rightarrow> redis \<times> (py_error + ResultAPI)" where
  "get_result r qId =
     (let p = get_rPrefix qId in
      sbind r (r_get r (p ''questionSelector'')) (\<lambda>v.
      sbind r (decode v) (\<lambda>name.
        if name = RStr ''linearSelector'' then
          sbind r (get_responses_as_float r qId) (\<lambda>resps.
            (let r1 = r_set r (p ''standardErrorOfEstimation'') (RFloat (Fin 0)) in
             sbind r1 (get_administeredItems r1 qId) (\<lambda>administered_items.
             sbind r1 (result_loop r1 qId resps administered_items ([], 0, Fin 0, 0))
               (\<lambda>(administered, achievablePoints, achievedPoints, i).
             sbind r1 (points_ratio administered_items achievedPoints achievablePoints)
               (\<lambda>ratio.
               (let r2 = r_set r1 (p ''estTheta'') (RFloat ratio)
                in (r2, build_result r2 qId administered)))))))
        else
          sbind r (get_administeredItems r qId) (\<lambda>administered_items.
          sbind r (questions_loop r qId administered_items []) (\<lambda>administered.
            (r, build_result r qId administered))))))"

definition delete_quiz :: "redis \<Rightarrow> int \<Rightarrow> redis \<times> (py_error + unit)" where
  "delete_quiz r qId =
     (let r1 = r_delete r
            [get_rPrefix qId ''maxNumberOfQuestions'',
             get_rPrefix qId ''minMeasurementAccuracy'',
             get_rPrefix qId ''inputProficiencyLevel'',
             get_rPrefix qId ''questionSelector'',
             get_rPrefix qId ''competencyEstimator'',
             get_rPrefix qId ''standardErrorOfEstimation'',
             get_rPrefix qId ''quizFinished'',
             get_rPrefix qId ''minDiff'',
             get_rPrefix qId ''maxDiff'',
             get_rPrefix qId ''questions'',
             get_rPrefix qId ''estTheta'']
      in sbind r1 (r_lrem r1 (Global ''quizIds'') (RInt qId)) (\<lambda>r2. (r2, Inr ())))"

section \<open>The REST calls\<close>

text \<open>An \<^verbatim>\<open>HTTPException\<close> carries its status code.\<close>

definition api_create_quiz ::
  "catsim_env \<Rightarrow> redis \<Rightarrow> QuizAPI \<Rightarrow> int \<Rightarrow> redis \<times> (py_error + QuizAPI)" where
  "api_create_quiz env r quizAPI new_id = create_quiz env r quizAPI new_id"

definition api_get_next_question ::
  "catsim_env \<Rightarrow> redis \<Rightarrow> AnswerAPI \<Rightarrow> redis \<times> (py_error + NextQuestionAPI)" where
  "api_get_next_question env r answer =
     sbind r (quizIdExists r (a_quizId answer)) (\<lambda>found.
       if \<not> found then (r, Inl (HTTPException 404))
       else
         sbind r (r_get r (get_rPrefix (a_quizId answer) ''quizFinished'')) (\<lambda>v.
         sbind r (decode v) (\<lambda>d.
         sbind r (strtobool d) (\<lambda>finished.
           if finished then (r, Inl (HTTPException 406))
           else get_next_question env r answer))))"

definition api_get_result :: "redis \<Rightarrow> int \<Rightarrow> redis \<times> (py_error + ResultAPI)" where
  "api_get_result r qId =
     sbind r (quizIdExists r qId) (\<lambda>found.
       if \<not> found then (r, Inl (HTTPException 404))
       else
         sbind r (r_get r (get_rPrefix qId ''questionSelector'')) (\<lambda>v.
         sbind r (decode v) (\<lambda>name.
           if name = RStr ''linearSelector'' then
             sbind r (r_get r (get_rPrefix qId ''quizFinished'')) (\<lambda>v'.
             sbind r (decode v') (\<lambda>d.
             sbind r (strtobool d) (\<lambda>finished.
               if \<not> finished then (r, Inl (HTTPException 406))
               else get_result r qId)))
           else get_result r qId)))"

definition api_delete_quiz :: "redis \<Rightarrow> int \<Rightarrow> redis \<times> (py_error + unit)" where
  "api_delete_quiz r qId =
     sbind r (quizIdExists r qId) (\<lambda>found.
       if \<not> found then (r, Inl (HTTPException 404))
       else delete_quiz r qId)"

section \<open>Typed sessions\<close>

text \<open>
  The keys of one session hold bytes; every operation decodes what it reads. The
  proofs work on the decoded form: a record with one field per key of the session.
  \<open>enc\<close> gives the stored entries of such a record (Redis keeps no empty list, so
  an empty list is an absent key), \<open>sess\<close> the entries a store holds for a session,
  and \<open>holds r q v\<close> says that the session \<open>q\<close> of the store \<open>r\<close> is exactly
  \<open>v\<close>.
\<close>

definition rlist :: "rval list \<Rightarrow> rentry option" where
  "rlist xs = (if xs = [] then None else Some (RList xs))"

record view =
  v_maxNumberOfQuestions :: int
  v_minMeasurementAccuracy :: real
  v_inputProficiencyLevel :: real
  v_questionSelector :: string
  v_competencyEstimator :: string
  v_standardErrorOfEstimation :: pyfloat
  v_quizFinished :: bool
  v_minDiff :: "real option"
  v_maxDiff :: "real option"
  v_questions :: "QuestionAPI list"
  v_estTheta :: pyfloat
  v_itemIndex :: "int option"
  v_administeredItems :: "int list"
  v_responses :: "real list"

definition enc :: "view \<Rightarrow> string \<Rightarrow> rentry option" where
  "enc v name =
     (if name = ''maxNumberOfQuestions'' then Some (RString (RInt (v_maxNumberOfQuestions v)))
      else if name = ''minMeasurementAccuracy'' then
        Some (RString (RFloat (Fin (v_minMeasurementAccuracy v))))
      else if name = ''inputProficiencyLevel'' then
        Some (RString (RFloat (Fin (v_inputProficiencyLevel v))))
      else if name = ''questionSelector'' then Some (RString (RStr (v_questionSelector v)))
      else if name = ''competencyEstimator'' then Some (RString (RStr (v_competencyEstimator v)))
      else if name = ''standardErrorOfEstimation'' then
        Some (RString (RFloat (v_standardErrorOfEstimation v)))
      else if name = ''quizFinished'' then Some (RString (RStr (py_str_bool (v_quizFinished v))))
      else if name = ''minDiff'' then map_option (\<lambda>x. RString (RFloat (Fin x))) (v_minDiff v)
      else if name = ''maxDiff'' then map_option (\<lambda>x. RString (RFloat (Fin x))) (v_maxDiff v)
      else if name = ''questions'' then rlist (map RJson (v_questions v))
      else if name = ''estTheta'' then Some (RString (RFloat (v_estTheta v)))
      else if name = ''itemIndex'' then map_option (\<lambda>i. RString (RInt i)) (v_itemIndex v)
      else if name = ''administeredItems'' then rlist (map RInt (v_administeredItems v))
      else if name = ''responses'' then rlist (map (\<lambda>x. RFloat (Fin x)) (v_responses v))
      else None)"

definition sess :: "redis \<Rightarrow> int \<Rightarrow> string \<Rightarrow> rentry option" where
  "sess r qId name = r (Prefixed qId name)"

definition holds :: "redis \<Rightarrow> int \<Rightarrow> view \<Rightarrow> bool" where
  "holds r qId v \<longleftrightarrow> sess r qId = enc v"

text \<open>
  What \<^verbatim>\<open>r.get\<close>, \<^verbatim>\<open>r.lrange\<close> and \<^verbatim>\<open>r.rpush\<close> do, told of one entry.
\<close>

definition scalar :: "rentry option \<Rightarrow> py_error + rval option" where
  "scalar e = (case e of None \<Rightarrow> Inr None | Some (RString v) \<Rightarrow> Inr (Some v)
               | Some (RList xs) \<Rightarrow> Inl ResponseError)"

definition entries :: "rentry option \<Rightarrow> py_error + rval list" where
  "entries e = (case e of None \<Rightarrow> Inr [] | Some (RList xs) \<Rightarrow> Inr xs
                | Some (RString w) \<Rightarrow> Inl ResponseError)"

definition pushed :: "rentry option \<Rightarrow> rval \<Rightarrow> py_error + rentry" where
  "pushed e x = (case e of None \<Rightarrow> Inr (RList [x]) | Some (RList xs) \<Rightarrow> Inr (RList (xs @ [x]))
                 | Some (RString w) \<Rightarrow> Inl ResponseError)"

text \<open>
  The session id is in the list \<^verbatim>\<open>quizIds\<close>.
\<close>

definition registered :: "redis \<Rightarrow> int \<Rightarrow> bool" where
  "registered r qId \<longleftrightarrow>
     (\<exists>ids. r (Global ''quizIds'') = Some (RList (map RInt ids)) \<and> qId \<in> set ids)"

section \<open>The engine on typed sessions\<close>

text \<open>
  The next-question and result operations, written on the typed session. Each is
  shown further down to compute what the operation on the store computes
  (\<open>sim\<close>): the same answer or error, and a store whose session is the typed result.
\<close>

definition a_get_selector :: "view \<Rightarrow> py_error + selector" where
  "a_get_selector v =
     (if v_questionSelector v = ''maxInfoSelector'' then Inr MaxInfoSelector
      else if v_questionSelector v = ''linearSelector'' then
        Inr (LinearSelector (get_indices_loop (length (v_questions v)) 0 []))
      else Inl UnboundLocalError)"

definition a_get_estimator :: "view \<Rightarrow> py_error + estimator" where
  "a_get_estimator v =
     (if v_competencyEstimator v = ''differentialEvolutionEstimator'' then
        (case (v_minDiff v, v_maxDiff v) of
           (Some lo, Some hi) \<Rightarrow> Inr (DifferentialEvolutionEstimator (Fin lo, Fin hi))
         | _ \<Rightarrow> Inl TypeError)
      else Inl UnboundLocalError)"

definition a_deliver ::
  "int \<Rightarrow> view \<Rightarrow> int option \<Rightarrow> pyfloat \<Rightarrow> pyfloat \<Rightarrow> bool \<Rightarrow> view \<times> (py_error + NextQuestionAPI)" where
  "a_deliver q v chosen se theta fin =
     (case chosen of
        None \<Rightarrow> (v, Inl TypeError)
      | Some i \<Rightarrow>
          (case py_index (map q_id (v_questions v)) i of
             Inl e \<Rightarrow> (v\<lparr>v_itemIndex := Some i\<rparr>, Inl e)
           | Inr qid \<Rightarrow>
               (v\<lparr>v_itemIndex := Some i, v_administeredItems := v_administeredItems v @ [i]\<rparr>,
                Inr \<lparr>n_quizId = q, questionId = Some qid, measurementAccuracy = se,
                     currentCompetency = theta, quizFinished = fin\<rparr>)))"

definition a_record_response ::
  "catsim_env \<Rightarrow> int \<Rightarrow> view \<Rightarrow> selector \<Rightarrow> real \<Rightarrow> view \<times> (py_error + NextQuestionAPI)" where
  "a_record_response env q v selector x =
     (let v1 = v\<lparr>v_responses := v_responses v @ [x]\<rparr> in
      case a_get_estimator v of
        Inl e \<Rightarrow> (v1, Inl e)
      | Inr estimator \<Rightarrow>
          (let estTheta = estimate env estimator (map item_of (v_questions v))
                 (v_administeredItems v) (map (\<lambda>x. x = 1) (v_responses v @ [x])) (v_estTheta v);
               v2 = v1\<lparr>v_estTheta := Fin estTheta\<rparr> in
           case take_items (map item_of (v_questions v)) (v_administeredItems v) of
             Inl e \<Rightarrow> (v2, Inl e)
           | Inr administered \<Rightarrow>
               (let se = see estTheta administered;
                    fin = (MinErrorStopper_stop (Fin (v_minMeasurementAccuracy v)) administered estTheta
                           \<or> MaxItemStopper_stop (v_maxNumberOfQuestions v) administered);
                    v4 = v2\<lparr>v_standardErrorOfEstimation := se, v_quizFinished := fin\<rparr> in
                if fin then
                  (v4, Inr \<lparr>n_quizId = q, questionId = None, measurementAccuracy = se,
                            currentCompetency = Fin estTheta, quizFinished = fin\<rparr>)
                else a_deliver q v4
                       (select selector (map item_of (v_questions v)) (v_administeredItems v)
                          (Fin estTheta))
                       se (Fin estTheta) fin)))"

definition a_get_next_question ::
  "catsim_env \<Rightarrow> int \<Rightarrow> view \<Rightarrow> real option \<Rightarrow> view \<times> (py_error + NextQuestionAPI)" where
  "a_get_next_question env q v x =
     (case a_get_selector v of
        Inl e \<Rightarrow> (v, Inl e)
      | Inr selector \<Rightarrow>
          if v_administeredItems v = [] then
            a_deliver q v
              (select selector (map item_of (v_questions v)) (v_administeredItems v) (v_estTheta v))
              (v_standardErrorOfEstimation v) (v_estTheta v) (v_quizFinished v)
          else (case x of
                  Some y \<Rightarrow> if 0 \<le> y \<and> y \<le> 1 then a_record_response env q v selector y
                            else (v, Inl UnboundLocalError)
                | None \<Rightarrow> (v, Inl UnboundLocalError)))"

definition a_api_get_next_question ::
  "catsim_env \<Rightarrow> int \<Rightarrow> view \<Rightarrow> real option \<Rightarrow> view \<times> (py_error + NextQuestionAPI)" where
  "a_api_get_next_question env q v x =
     (if v_quizFinished v then (v, Inl (HTTPException 406))
      else a_get_next_question env q v x)"

fun a_result_loop ::
  "QuestionAPI list \<Rightarrow> pyfloat list \<Rightarrow> int list \<Rightarrow> QuestionAPI list \<times> real \<times> pyfloat \<times> int
     \<Rightarrow> py_error + QuestionAPI list \<times> real \<times> pyfloat \<times> int" where
  "a_result_loop qs resps [] acc = Inr acc"
| "a_result_loop qs resps (itemIndex # rest) (administered, achievablePoints, achievedPoints, i) =
     ebind (py_index (map item_of qs) itemIndex) (\<lambda>it.
     ebind (py_index (map q_id qs) itemIndex) (\<lambda>qid.
     ebind (py_index resps i) (\<lambda>response.
       (case it of (a, b, c, d) \<Rightarrow>
          a_result_loop qs resps rest
            (administered @ [\<lparr>q_id = qid, discrimination = a, difficulty = b,
                              pseudoGuessing = c, upperAsymptote = d\<rparr>],
             achievablePoints + b,
             fadd achievedPoints (fmul (Fin b) response),
             i + 1)))))"

fun a_questions_loop ::
  "QuestionAPI list \<Rightarrow> int list \<Rightarrow> QuestionAPI list \<Rightarrow> py_error + QuestionAPI list" where
  "a_questions_loop qs [] administered = Inr administered"
| "a_questions_loop qs (itemIndex # rest) administered =
     ebind (py_index (map item_of qs) itemIndex) (\<lambda>it.
     ebind (py_index (map q_id qs) itemIndex) (\<lambda>qid.
       (case it of (a, b, c, d) \<Rightarrow>
          a_questions_loop qs rest
            (administered @ [\<lparr>q_id = qid, discrimination = a, difficulty = b,
                              pseudoGuessing = c, upperAsymptote = d\<rparr>]))))"

definition a_build_result :: "int \<Rightarrow> view \<Rightarrow> QuestionAPI list \<Rightarrow> ResultAPI" where
  "a_build_result q v administered =
     \<lparr>r_quizId = q, r_quizFinished = v_quizFinished v, r_currentCompetency = v_estTheta v,
      r_measurementAccuracy = v_standardErrorOfEstimation v,
      r_maxNumberOfQuestions = v_maxNumberOfQuestions v,
      administeredQuestions = administered,
      responses = map Fin (v_responses v)\<rparr>"

definition a_get_result :: "int \<Rightarrow> view \<Rightarrow> view \<times> (py_error + ResultAPI)" where
  "a_get_result q v =
     (if v_questionSelector v = ''linearSelector'' then
        (let v1 = v\<lparr>v_standardErrorOfEstimation := Fin 0\<rparr> in
         case a_result_loop (v_questions v) (map Fin (v_responses v)) (v_administeredItems v)
                ([], 0, Fin 0, 0) of
           Inl e \<Rightarrow> (v1, Inl e)
         | Inr (administered, achievablePoints, achievedPoints, i) \<Rightarrow>
             (case points_ratio (v_administeredItems v) achievedPoints achievablePoints of
                Inl e \<Rightarrow> (v1, Inl e)
              | Inr ratio \<Rightarrow>
                  (v1\<lparr>v_estTheta := ratio\<rparr>,
                   Inr (a_build_result q (v1\<lparr>v_estTheta := ratio\<rparr>) administered))))
      else
        (case a_questions_loop (v_questions v) (v_administeredItems v) [] of
           Inl e \<Rightarrow> (v, Inl e)
         | Inr administered \<Rightarrow> (v, Inr (a_build_result q v administered))))"

definition a_api_get_result :: "int \<Rightarrow> view \<Rightarrow> view \<times> (py_error + ResultAPI)" where
  "a_api_get_result q v =
     (if v_questionSelector v = ''linearSelector'' \<and> \<not> v_quizFinished v
      then (v, Inl (HTTPException 406))
      else a_get_result q v)"

definition sim :: "redis \<Rightarrow> int \<Rightarrow> redis \<times> 'a \<Rightarrow> view \<times> 'a \<Rightarrow> bool" where
  "sim r q out aout \<longleftrightarrow>
     holds (fst out) q (fst aout) \<and> snd out = snd aout
     \<and> fst out (Global ''quizIds'') = r (Global ''quizIds'')"

text \<open>
  The session \<^verbatim>\<open>create_quiz\<close> leaves behind when it succeeds, and the store it has
  written when \<^verbatim>\<open>init_estimator\<close> is called.
\<close>

definition init_view :: "catsim_env \<Rightarrow> QuizAPI \<Rightarrow> view" where
  "init_view env quizAPI =
     \<lparr>v_maxNumberOfQuestions =
        (if questionSelector quizAPI = ''linearSelector'' then int (length (questions quizAPI))
         else maxNumberOfQuestions quizAPI),
      v_minMeasurementAccuracy =
        (if questionSelector quizAPI = ''linearSelector'' then 0
         else minMeasurementAccuracy quizAPI),
      v_inputProficiencyLevel = inputProficiencyLevel quizAPI,
      v_questionSelector = questionSelector quizAPI,
      v_competencyEstimator = competencyEstimator quizAPI,
      v_standardErrorOfEstimation = default_standardErrorOfEstimation env,
      v_quizFinished = False,
      v_minDiff =
        (if competencyEstimator quizAPI = ''differentialEvolutionEstimator''
         then (case map difficulty (questions quizAPI) of [] \<Rightarrow> None | x # xs \<Rightarrow> Some (fold min xs x))
         else None),
      v_maxDiff =
        (if competencyEstimator quizAPI = ''differentialEvolutionEstimator''
         then (case map difficulty (questions quizAPI) of [] \<Rightarrow> None | x # xs \<Rightarrow> Some (fold max xs x))
         else None),
      v_questions = questions quizAPI,
      v_estTheta =
        Fin (if inputProficiencyLevel quizAPI = 999 / 10 then random_initialize env
             else inputProficiencyLevel quizAPI),
      v_itemIndex = None,
      v_administeredItems = [],
      v_responses = []\<rparr>"

definition created_keys :: "catsim_env \<Rightarrow> redis \<Rightarrow> QuizAPI \<Rightarrow> redis" where
  "created_keys env r quizAPI =
     r_mset r
       [(get_rPrefix (quizId quizAPI) ''maxNumberOfQuestions'',
           RInt (maxNumberOfQuestions quizAPI)),
        (get_rPrefix (quizId quizAPI) ''minMeasurementAccuracy'',
           RFloat (Fin (minMeasurementAccuracy quizAPI))),
        (get_rPrefix (quizId quizAPI) ''inputProficiencyLevel'',
           RFloat (Fin (inputProficiencyLevel quizAPI))),
        (get_rPrefix (quizId quizAPI) ''questionSelector'',
           RStr (questionSelector quizAPI)),
        (get_rPrefix (quizId quizAPI) ''competencyEstimator'',
           RStr (competencyEstimator quizAPI)),
        (get_rPrefix (quizId quizAPI) ''standardErrorOfEstimation'',
           RFloat (default_standardErrorOfEstimation env)),
        (get_rPrefix (quizId quizAPI) ''quizFinished'', RStr (py_str_bool False))]"

definition prepared :: "catsim_env \<Rightarrow> redis \<Rightarrow> QuizAPI \<Rightarrow> redis" where
  "prepared env r quizAPI =
     init_initializer env
       ((created_keys env r quizAPI)
          (get_rPrefix (quizId quizAPI) ''questions'' := rlist (map RJson (questions quizAPI))))
       quizAPI"

section \<open>Sessions over time\<close>

text \<open>
  A store is \<open>initial\<close> for an id when it holds no key of that session and its
  registry is absent or a non-empty list of ids. A store is \<open>reachable\<close> when it
  comes from a successful creation on an initial store by any number of next-question
  and result calls with that id, whatever they return; it is \<open>served\<close> when every
  next-question call on the way returned an answer.
\<close>

definition initial :: "redis \<Rightarrow> int \<Rightarrow> bool" where
  "initial r qId \<longleftrightarrow>
     (\<forall>name. r (get_rPrefix qId name) = None)
     \<and> (r (Global ''quizIds'') = None
        \<or> (\<exists>ids. ids \<noteq> [] \<and> r (Global ''quizIds'') = Some (RList (map RInt ids))))"

inductive reachable :: "catsim_env \<Rightarrow> QuizAPI \<Rightarrow> int \<Rightarrow> redis \<Rightarrow> bool"
  for env :: catsim_env and quizAPI :: QuizAPI and qId :: int where
  created:
    "initial r0 qId \<Longrightarrow> api_create_quiz env r0 quizAPI qId = (r, Inr quizAPI')
     \<Longrightarrow> reachable env quizAPI qId r"
| asked:
    "reachable env quizAPI qId r
     \<Longrightarrow> api_get_next_question env r \<lparr>a_quizId = qId, isCorrect = x\<rparr> = (r', res)
     \<Longrightarrow> reachable env quizAPI qId r'"
| read:
    "reachable env quizAPI qId r \<Longrightarrow> api_get_result r qId = (r', res')
     \<Longrightarrow> reachable env quizAPI qId r'"

inductive served :: "catsim_env \<Rightarrow> QuizAPI \<Rightarrow> int \<Rightarrow> redis \<Rightarrow> bool"
  for env :: catsim_env and quizAPI :: QuizAPI and qId :: int where
  opened:
    "initial r0 qId \<Longrightarrow> api_create_quiz env r0 quizAPI qId = (r, Inr quizAPI')
     \<Longrightarrow> served env quizAPI qId r"
| answered:
    "served env quizAPI qId r
     \<Longrightarrow> api_get_next_question env r \<lparr>a_quizId = qId, isCorrect = x\<rparr> = (r', Inr nq)
     \<Longrightarrow> served env quizAPI qId r'"
| reported:
    "served env quizAPI qId r \<Longrightarrow> api_get_result r qId = (r', res')
     \<Longrightarrow> served env quizAPI qId r'"

text \<open>
  What stays fixed in a session, the steps the next-question operation can take on a
  typed session, and the invariants of the administered items: they are distinct
  valid indices of the bank, in a linear session the indices \<open>0, 1, 2, ...\<close> in
  this order.
\<close>

definition static :: "catsim_env \<Rightarrow> QuizAPI \<Rightarrow> view \<Rightarrow> bool" where
  "static env quizAPI v \<longleftrightarrow>
     v_questions v = questions quizAPI
     \<and> v_questionSelector v = questionSelector quizAPI
     \<and> v_competencyEstimator v = competencyEstimator quizAPI
     \<and> v_maxNumberOfQuestions v = v_maxNumberOfQuestions (init_view env quizAPI)
     \<and> v_minMeasurementAccuracy v = v_minMeasurementAccuracy (init_view env quizAPI)
     \<and> v_minDiff v = v_minDiff (init_view env quizAPI)
     \<and> v_maxDiff v = v_maxDiff (init_view env quizAPI)"

inductive a_step :: "catsim_env \<Rightarrow> view \<Rightarrow> view \<Rightarrow> bool" for env :: catsim_env and v :: view where
  same: "a_step env v v"
| picked:
    "\<not> v_quizFinished v \<Longrightarrow> v_administeredItems v = [] \<Longrightarrow> a_get_selector v = Inr sel
     \<Longrightarrow> select sel (map item_of (v_questions v)) [] (v_estTheta v) = Some i
     \<Longrightarrow> py_index (map q_id (v_questions v)) i = Inl e
     \<Longrightarrow> a_step env v (v\<lparr>v_itemIndex := Some i\<rparr>)"
| first:
    "\<not> v_quizFinished v \<Longrightarrow> v_administeredItems v = [] \<Longrightarrow> a_get_selector v = Inr sel
     \<Longrightarrow> select sel (map item_of (v_questions v)) [] (v_estTheta v) = Some i
     \<Longrightarrow> py_index (map q_id (v_questions v)) i = Inr qid
     \<Longrightarrow> a_step env v (v\<lparr>v_itemIndex := Some i, v_administeredItems := [i]\<rparr>)"
| est_failed:
    "\<not> v_quizFinished v \<Longrightarrow> v_administeredItems v \<noteq> [] \<Longrightarrow> 0 \<le> y \<Longrightarrow> y \<le> 1
     \<Longrightarrow> a_get_estimator v = Inl e
     \<Longrightarrow> a_step env v (v\<lparr>v_responses := v_responses v @ [y]\<rparr>)"
| items_failed:
    "\<not> v_quizFinished v \<Longrightarrow> v_administeredItems v \<noteq> [] \<Longrightarrow> 0 \<le> y \<Longrightarrow> y \<le> 1
     \<Longrightarrow> a_get_estimator v = Inr est
     \<Longrightarrow> take_items (map item_of (v_questions v)) (v_administeredItems v) = Inl e
     \<Longrightarrow> a_step env v (v\<lparr>v_responses := v_responses v @ [y], v_estTheta := Fin t\<rparr>)"
| finished:
    "\<not> v_quizFinished v \<Longrightarrow> v_administeredItems v \<noteq> [] \<Longrightarrow> 0 \<le> y \<Longrightarrow> y \<le> 1
     \<Longrightarrow> a_get_estimator v = Inr est
     \<Longrightarrow> take_items (map item_of (v_questions v)) (v_administeredItems v) = Inr S
     \<Longrightarrow> MinErrorStopper_stop (Fin (v_minMeasurementAccuracy v)) S t
          \<or> MaxItemStopper_stop (v_maxNumberOfQuestions v) S
     \<Longrightarrow> a_step env v (v\<lparr>v_responses := v_responses v @ [y], v_estTheta := Fin t,
                           v_standardErrorOfEstimation := see t S, v_quizFinished := True\<rparr>)"
| exhausted:
    "\<not> v_quizFinished v \<Longrightarrow> v_administeredItems v \<noteq> [] \<Longrightarrow> 0 \<le> y \<Longrightarrow> y \<le> 1
     \<Longrightarrow> a_get_estimator v = Inr est
     \<Longrightarrow> take_items (map item_of (v_questions v)) (v_administeredItems v) = Inr S
     \<Longrightarrow> \<not> MinErrorStopper_stop (Fin (v_minMeasurementAccuracy v)) S t
     \<Longrightarrow> \<not> MaxItemStopper_stop (v_maxNumberOfQuestions v) S
     \<Longrightarrow> a_get_selector v = Inr sel
     \<Longrightarrow> select sel (map item_of (v_questions v)) (v_administeredItems v) (Fin t) = None
     \<Longrightarrow> a_step env v (v\<lparr>v_responses := v_responses v @ [y], v_estTheta := Fin t,
                           v_standardErrorOfEstimation := see t S, v_quizFinished := False\<rparr>)"
| lookup_failed:
    "\<not> v_quizFinished v \<Longrightarrow> v_administeredItems v \<noteq> [] \<Longrightarrow> 0 \<le> y \<Longrightarrow> y \<le> 1
     \<Longrightarrow> a_get_estimator v = Inr est
     \<Longrightarrow> take_items (map item_of (v_questions v)) (v_administeredItems v) = Inr S
     \<Longrightarrow> \<not> MinErrorStopper_stop (Fin (v_minMeasurementAccuracy v)) S t
     \<Longrightarrow> \<not> MaxItemStopper_stop (v_maxNumberOfQuestions v) S
     \<Longrightarrow> a_get_selector v = Inr sel
     \<Longrightarrow> select sel (map item_of (v_questions v)) (v_administeredItems v) (Fin t) = Some i
     \<Longrightarrow> py_index (map q_id (v_questions v)) i = Inl e
     \<Longrightarrow> a_step env v (v\<lparr>v_responses := v_responses v @ [y], v_estTheta := Fin t,
                           v_standardErrorOfEstimation := see t S, v_quizFinished := False,
                           v_itemIndex := Some i\<rparr>)"
| delivered:
    "\<not> v_quizFinished v \<Longrightarrow> v_administeredItems v \<noteq> [] \<Longrightarrow> 0 \<le> y \<Longrightarrow> y \<le> 1
     \<Longrightarrow> a_get_estimator v = Inr est
     \<Longrightarrow> take_items (map item_of (v_questions v)) (v_administeredItems v) = Inr S
     \<Longrightarrow> \<not> MinErrorStopper_stop (Fin (v_minMeasurementAccuracy v)) S t
     \<Longrightarrow> \<not> MaxItemStopper_stop (v_maxNumberOfQuestions v) S
     \<Longrightarrow> a_get_selector v = Inr sel
     \<Longrightarrow> select sel (map item_of (v_questions v)) (v_administeredItems v) (Fin t) = Some i
     \<Longrightarrow> py_index (map q_id (v_questions v)) i = Inr qid
     \<Longrightarrow> a_step env v (v\<lparr>v_responses := v_responses v @ [y], v_estTheta := Fin t,
                           v_standardErrorOfEstimation := see t S, v_quizFinished := False,
                           v_itemIndex := Some i,
                           v_administeredItems := v_administeredItems v @ [i]\<rparr>)"

definition creatable :: "QuizAPI \<Rightarrow> bool" where
  "creatable quizAPI \<longleftrightarrow>
     \<not> (competencyEstimator quizAPI = ''differentialEvolutionEstimator'' \<and> questions quizAPI = [])"

definition adm_inv :: "catsim_env \<Rightarrow> QuizAPI \<Rightarrow> view \<Rightarrow> bool" where
  "adm_inv env quizAPI v \<longleftrightarrow>
     static env quizAPI v \<and> creatable quizAPI
     \<and> distinct (v_administeredItems v)
     \<and> (\<forall>i\<in>set (v_administeredItems v). 0 \<le> i \<and> i < int (length (questions quizAPI)))
     \<and> (questionSelector quizAPI = ''linearSelector'' \<longrightarrow>
          v_administeredItems v = map int [0..<length (v_administeredItems v)])"

definition lin_inv :: "catsim_env \<Rightarrow> QuizAPI \<Rightarrow> view \<Rightarrow> bool" where
  "lin_inv env quizAPI v \<longleftrightarrow>
     adm_inv env quizAPI v
     \<and> (v_quizFinished v \<longrightarrow>
           length (v_administeredItems v) = length (questions quizAPI)
           \<and> length (v_responses v) = length (questions quizAPI)
           \<and> v_administeredItems v \<noteq> [])
     \<and> (\<not> v_quizFinished v \<longrightarrow> competencyEstimator quizAPI = ''differentialEvolutionEstimator'' \<longrightarrow>
           (v_administeredItems v = [] \<and> v_responses v = [])
           \<or> length (v_responses v) + 1 = length (v_administeredItems v))
     \<and> (questions quizAPI \<noteq> [] \<longrightarrow>
           (case v_itemIndex v of None \<Rightarrow> True
            | Some i \<Rightarrow> 0 \<le> i \<and> i < int (length (questions quizAPI))))"

definition cnt_inv :: "catsim_env \<Rightarrow> QuizAPI \<Rightarrow> view \<Rightarrow> bool" where
  "cnt_inv env quizAPI v \<longleftrightarrow>
     adm_inv env quizAPI v
     \<and> ((v_administeredItems v = [] \<and> v_responses v = [] \<and> \<not> v_quizFinished v)
        \<or> (\<not> v_quizFinished v
            \<and> length (v_administeredItems v) = length (v_responses v) + 1
            \<and> (1 \<le> v_maxNumberOfQuestions v
                 \<longrightarrow> int (length (v_administeredItems v)) \<le> v_maxNumberOfQuestions v))
        \<or> (v_quizFinished v \<and> length (v_administeredItems v) = length (v_responses v)
            \<and> v_administeredItems v \<noteq> []))"

text \<open>
  The two sums of the linear score.
\<close>

definition weighted_points :: "QuestionAPI list \<Rightarrow> int list \<Rightarrow> real list \<Rightarrow> real" where
  "weighted_points qs A R =
     sum_list (map (\<lambda>(i, x). difficulty (qs ! nat i) * x) (zip A R))"

definition achievable_points :: "QuestionAPI list \<Rightarrow> int list \<Rightarrow> real" where
  "achievable_points qs A = sum_list (map (\<lambda>i. difficulty (qs ! nat i)) A)"

section \<open>Example sessions\<close>

text \<open>
  The estimator of the examples returns the number of responses marked correct in the
  vector it is given. The linear session has two questions and runs to its end; the
  adaptive session has two equal questions and an error threshold of 3; the third
  request has no question at all.
\<close>

definition example_env :: catsim_env where
  "example_env =
     \<lparr>differential_evolution =
        (\<lambda>bounds items administered_items response_vector est_theta.
           real (length (filter (\<lambda>b. b) response_vector))),
      random_initialize = 0,
      default_standardErrorOfEstimation = PInf\<rparr>"

definition question_450 :: QuestionAPI where
  "question_450 = \<lparr>q_id = 450, discrimination = 1, difficulty = 2, pseudoGuessing = 0,
                    upperAsymptote = 1\<rparr>"

definition question_12 :: QuestionAPI where
  "question_12 = \<lparr>q_id = 12, discrimination = 1, difficulty = 1, pseudoGuessing = 0,
                   upperAsymptote = 1\<rparr>"

definition linear_quiz :: QuizAPI where
  "linear_quiz =
     \<lparr>quizId = 0, maxNumberOfQuestions = 20, minMeasurementAccuracy = 4 / 5,
      inputProficiencyLevel = 0, questionSelector = ''linearSelector'',
      competencyEstimator = ''differentialEvolutionEstimator'',
      questions = [question_450, question_12]\<rparr>"

definition linear_r1 :: redis where
  "linear_r1 = fst (api_create_quiz example_env (\<lambda>k. None) linear_quiz 7)"

definition linear_r2 :: redis where
  "linear_r2 = fst (api_get_next_question example_env linear_r1 \<lparr>a_quizId = 7, isCorrect = None\<rparr>)"

definition linear_r3 :: redis where
  "linear_r3 = fst (api_get_next_question example_env linear_r2 \<lparr>a_quizId = 7, isCorrect = Some 1\<rparr>)"

definition linear_r4 :: redis where
  "linear_r4 = fst (api_get_next_question example_env linear_r3 \<lparr>a_quizId = 7, isCorrect = Some 0\<rparr>)"

definition linear_v1 :: view where
  "linear_v1 =
     \<lparr>v_maxNumberOfQuestions = 2, v_minMeasurementAccuracy = 0, v_inputProficiencyLevel = 0,
      v_questionSelector = ''linearSelector'',
      v_competencyEstimator = ''differentialEvolutionEstimator'',
      v_standardErrorOfEstimation = PInf, v_quizFinished = False,
      v_minDiff = Some 1, v_maxDiff = Some 2,
      v_questions = [question_450, question_12],
      v_estTheta = Fin 0, v_itemIndex = None, v_administeredItems = [], v_responses = []\<rparr>"

definition linear_v2 :: view where
  "linear_v2 = linear_v1\<lparr>v_itemIndex := Some 0, v_administeredItems := [0]\<rparr>"

definition linear_v3 :: view where
  "linear_v3 = linear_v2\<lparr>v_responses := [1], v_estTheta := Fin 1,
      v_standardErrorOfEstimation := see 1 [item_of question_450], v_quizFinished := False,
      v_itemIndex := Some 1, v_administeredItems := [0, 1]\<rparr>"

definition linear_v4 :: view where
  "linear_v4 = linear_v3\<lparr>v_responses := [1, 0], v_estTheta := Fin 1,
      v_standardErrorOfEstimation := see 1 [item_of question_450, item_of question_12],
      v_quizFinished := True\<rparr>"

definition linear_deleted :: redis where
  "linear_deleted = fst (api_delete_quiz linear_r3 7)"

definition question_31 :: QuestionAPI where
  "question_31 = \<lparr>q_id = 31, discrimination = 1, difficulty = 0, pseudoGuessing = 0,
                   upperAsymptote = 1\<rparr>"

definition question_32 :: QuestionAPI where
  "question_32 = \<lparr>q_id = 32, discrimination = 1, difficulty = 0, pseudoGuessing = 0,
                   upperAsymptote = 1\<rparr>"

definition adaptive_quiz :: QuizAPI where
  "adaptive_quiz =
     \<lparr>quizId = 0, maxNumberOfQuestions = 2, minMeasurementAccuracy = 3,
      inputProficiencyLevel = 0, questionSelector = ''maxInfoSelector'',
      competencyEstimator = ''differentialEvolutionEstimator'',
      questions = [question_31, question_32]\<rparr>"

definition adaptive_r1 :: redis where
  "adaptive_r1 = fst (api_create_quiz example_env (\<lambda>k. None) adaptive_quiz 9)"

definition adaptive_r2 :: redis where
  "adaptive_r2 = fst (api_get_next_question example_env adaptive_r1 \<lparr>a_quizId = 9, isCorrect = None\<rparr>)"

definition adaptive_r3 :: redis where
  "adaptive_r3 = fst (api_get_next_question example_env adaptive_r2 \<lparr>a_quizId = 9, isCorrect = Some 0\<rparr>)"

definition adaptive_v1 :: view where
  "adaptive_v1 =
     \<lparr>v_maxNumberOfQuestions = 2, v_minMeasurementAccuracy = 3, v_inputProficiencyLevel = 0,
      v_questionSelector = ''maxInfoSelector'',
      v_competencyEstimator = ''differentialEvolutionEstimator'',
      v_standardErrorOfEstimation = PInf, v_quizFinished = False,
      v_minDiff = Some 0, v_maxDiff = Some 0,
      v_questions = [question_31, question_32],
      v_estTheta = Fin 0, v_itemIndex = None, v_administeredItems = [], v_responses = []\<rparr>"

definition adaptive_v2 :: view where
  "adaptive_v2 = adaptive_v1\<lparr>v_itemIndex := Some 0, v_administeredItems := [0]\<rparr>"

definition adaptive_v3 :: view where
  "adaptive_v3 = adaptive_v2\<lparr>v_responses := [0], v_estTheta := Fin 0,
      v_standardErrorOfEstimation := Fin 2, v_quizFinished := True\<rparr>"

definition empty_quiz :: QuizAPI where
  "empty_quiz =
     \<lparr>quizId = 0, maxNumberOfQuestions = 2, minMeasurementAccuracy = 3,
      inputProficiencyLevel = 0, questionSelector = ''maxInfoSelector'',
      competencyEstimator = ''differentialEvolutionEstimator'',
      questions = []\<rparr>"

definition empty_r :: redis where
  "empty_r = fst (api_create_quiz example_env (\<lambda>k. None) empty_quiz 5)"

section \<open>Reading and writing a typed session\<close>

lemma ebind_simps [simp]: "ebind (Inl e) f = Inl e" "ebind (Inr x) f = f x"
  by (simp_all add: ebind_def)

lemma sbind_simps [simp]: "sbind s (Inl e) f = (s, Inl e)" "sbind s (Inr x) f = f x"
  by (simp_all add: sbind_def)

lemma rlist_Nil [simp]: "rlist [] = None"
  by (simp add: rlist_def)

lemma rlist_snoc [simp]: "rlist (xs @ [x]) = Some (RList (xs @ [x]))"
  by (simp add: rlist_def)

lemma enc_reads [simp]:
  "enc v ''maxNumberOfQuestions'' = Some (RString (RInt (v_maxNumberOfQuestions v)))"
  "enc v ''minMeasurementAccuracy'' = Some (RString (RFloat (Fin (v_minMeasurementAccuracy v))))"
  "enc v ''inputProficiencyLevel'' = Some (RString (RFloat (Fin (v_inputProficiencyLevel v))))"
  "enc v ''questionSelector'' = Some (RString (RStr (v_questionSelector v)))"
  "enc v ''competencyEstimator'' = Some (RString (RStr (v_competencyEstimator v)))"
  "enc v ''standardErrorOfEstimation'' = Some (RString (RFloat (v_standardErrorOfEstimation v)))"
  "enc v ''quizFinished'' = Some (RString (RStr (py_str_bool (v_quizFinished v))))"
  "enc v ''minDiff'' = map_option (\<lambda>x. RString (RFloat (Fin x))) (v_minDiff v)"
  "enc v ''maxDiff'' = map_option (\<lambda>x. RString (RFloat (Fin x))) (v_maxDiff v)"
  "enc v ''questions'' = rlist (map RJson (v_questions v))"
  "enc v ''estTheta'' = Some (RString (RFloat (v_estTheta v)))"
  "enc v ''itemIndex'' = map_option (\<lambda>i. RString (RInt i)) (v_itemIndex v)"
  "enc v ''administeredItems'' = rlist (map RInt (v_administeredItems v))"
  "enc v ''responses'' = rlist (map (\<lambda>x. RFloat (Fin x)) (v_responses v))"
  by (simp_all add: enc_def)

lemma enc_upd_estTheta [simp]:
  "(enc v)(''estTheta'' \<mapsto> RString (RFloat t)) = enc (v\<lparr>v_estTheta := t\<rparr>)"
  by (rule ext) (simp add: enc_def)

lemma enc_upd_see [simp]:
  "(enc v)(''standardErrorOfEstimation'' \<mapsto> RString (RFloat t)) = enc (v\<lparr>v_standardErrorOfEstimation := t\<rparr>)"
  by (rule ext) (simp add: enc_def)

lemma enc_upd_finished [simp]:
  "(enc v)(''quizFinished'' \<mapsto> RString (RStr (py_str_bool b))) = enc (v\<lparr>v_quizFinished := b\<rparr>)"
  by (rule ext) (simp add: enc_def)

lemma enc_upd_itemIndex [simp]:
  "(enc v)(''itemIndex'' \<mapsto> RString (RInt i)) = enc (v\<lparr>v_itemIndex := Some i\<rparr>)"
  by (rule ext) (simp add: enc_def)

lemma enc_upd_administered [simp]:
  "(enc v)(''administeredItems'' \<mapsto> RList (map RInt xs @ [RInt i]))
     = enc (v\<lparr>v_administeredItems := xs @ [i]\<rparr>)"
  by (rule ext) (simp add: enc_def rlist_def)

lemma enc_upd_responses [simp]:
  "(enc v)(''responses'' \<mapsto> RList (map (\<lambda>x. RFloat (Fin x)) xs @ [RFloat (Fin x)]))
     = enc (v\<lparr>v_responses := xs @ [x]\<rparr>)"
  by (rule ext) (simp add: enc_def rlist_def)

lemma scalar_simps [simp]: "scalar None = Inr None" "scalar (Some (RString x)) = Inr (Some x)"
  by (simp_all add: scalar_def)

lemma scalar_map_option [simp]:
  "scalar (map_option (\<lambda>x. RString (f x)) opt) = Inr (map_option f opt)"
  by (cases opt) simp_all

lemma entries_rlist [simp]: "entries (rlist xs) = Inr xs"
  by (simp add: entries_def rlist_def)

lemma pushed_rlist [simp]: "pushed (rlist xs) x = Inr (RList (xs @ [x]))"
  by (simp add: pushed_def rlist_def)

lemma r_get_sess: "r_get r (get_rPrefix q n) = scalar (sess r q n)"
  by (simp add: r_get_def scalar_def sess_def get_rPrefix_def)

lemma r_lrange_sess: "r_lrange r (get_rPrefix q n) = entries (sess r q n)"
  by (simp add: r_lrange_def entries_def sess_def get_rPrefix_def)

lemma r_rpush_sess:
  "r_rpush r (get_rPrefix q n) x =
     (case pushed (sess r q n) x of Inl e \<Rightarrow> Inl e
      | Inr e \<Rightarrow> Inr (r(get_rPrefix q n \<mapsto> e)))"
  by (simp add: r_rpush_def pushed_def sess_def get_rPrefix_def split: option.splits rentry.splits)

lemma sess_r_set [simp]: "sess (r_set r (get_rPrefix q n) x) q = (sess r q)(n \<mapsto> RString x)"
  by (rule ext) (simp add: sess_def r_set_def get_rPrefix_def)

lemma sess_upd [simp]: "sess (r(get_rPrefix q n := e)) q = (sess r q)(n := e)"
  by (rule ext) (simp add: sess_def get_rPrefix_def)

lemma sess_global [simp]: "sess (r(Global g := e)) q = sess r q"
  by (rule ext) (simp add: sess_def)

lemma r_set_global [simp]: "r_set r (get_rPrefix q n) x (Global g) = r (Global g)"
  by (simp add: r_set_def get_rPrefix_def)

lemma upd_global [simp]: "(r(get_rPrefix q n := e)) (Global g) = r (Global g)"
  by (simp add: get_rPrefix_def)

lemma get_rPrefix_neq_Global [simp]:
  "get_rPrefix q n \<noteq> Global g" "Global g \<noteq> get_rPrefix q n"
  by (simp_all add: get_rPrefix_def)

lemmas sess_reads = r_get_sess r_lrange_sess r_rpush_sess

subsection \<open>The getters\<close>

lemma mapM_map: "mapM f (map g xs) = mapM (\<lambda>x. f (g x)) xs"
  by (induction xs) simp_all

lemma mapM_Inr [simp]: "mapM (\<lambda>x. Inr (f x)) xs = Inr (map f xs)"
  by (induction xs) simp_all

lemma get_items_holds: "holds r q v \<Longrightarrow> get_items r q = Inr (map item_of (v_questions v))"
  by (simp add: holds_def get_items_def sess_reads mapM_map)

lemma get_questionIds_holds: "holds r q v \<Longrightarrow> get_questionIds r q = Inr (map q_id (v_questions v))"
  by (simp add: holds_def get_questionIds_def sess_reads mapM_map)

lemma get_administeredItems_holds:
  "holds r q v \<Longrightarrow> get_administeredItems r q = Inr (v_administeredItems v)"
  by (simp add: holds_def get_administeredItems_def sess_reads mapM_map)

lemma get_responses_holds:
  "holds r q v \<Longrightarrow> get_responses r q = Inr (map (\<lambda>x. x = 1) (v_responses v))"
  by (simp add: holds_def get_responses_def sess_reads mapM_map if_distrib[of Inr, symmetric])

lemma get_responses_as_float_holds:
  "holds r q v \<Longrightarrow> get_responses_as_float r q = Inr (map Fin (v_responses v))"
  by (simp add: holds_def get_responses_as_float_def sess_reads mapM_map)

subsection \<open>The next-question operation\<close>

lemma strtobool_py_str_bool [simp]: "strtobool (RStr (py_str_bool b)) = Inr b"
  by (simp add: py_str_bool_def lower_def)

declare strtobool.simps [simp del]

lemmas getters = get_items_def get_questionIds_def get_administeredItems_def get_responses_def
  get_responses_as_float_def get_indices_def get_questionId_by_index_def get_item_by_index_def

lemma get_selector_holds: "holds r q v \<Longrightarrow> get_selector r q = a_get_selector v"
  by (simp add: get_selector_def a_get_selector_def holds_def getters sess_reads mapM_map)

lemma get_estimator_holds: "holds r q v \<Longrightarrow> get_estimator r q = a_get_estimator v"
  by (simp add: get_estimator_def a_get_estimator_def holds_def sess_reads split: option.splits)

lemma a_get_estimator_responses [simp]:
  "a_get_estimator (v\<lparr>v_responses := xs\<rparr>) = a_get_estimator v"
  by (simp add: a_get_estimator_def)

lemma first_question_sim:
  assumes "holds r q v"
  shows "sim r q (first_question r \<lparr>a_quizId = q, isCorrect = x\<rparr> (v_administeredItems v) selector)
           (a_deliver q v (select selector (map item_of (v_questions v)) (v_administeredItems v) (v_estTheta v))
              (v_standardErrorOfEstimation v) (v_estTheta v) (v_quizFinished v))"
  using assms
  by (simp add: first_question_def a_deliver_def sim_def int_of_index_def Let_def
      holds_def getters sess_reads mapM_map
      split: option.splits sum.splits)

lemma next_after_response_sim:
  assumes "holds r4 q v4"
  shows "sim r4 q
           (next_after_response r4 \<lparr>a_quizId = q, isCorrect = xo\<rparr> (v_administeredItems v4)
              selector theta se fin)
           (if fin then
              (v4, Inr \<lparr>n_quizId = q, questionId = None, measurementAccuracy = se,
                        currentCompetency = Fin theta, quizFinished = fin\<rparr>)
            else a_deliver q v4
                   (select selector (map item_of (v_questions v4)) (v_administeredItems v4)
                      (Fin theta))
                   se (Fin theta) fin)"
  using assms
  by (simp add: next_after_response_def a_deliver_def sim_def int_of_index_def Let_def
      holds_def getters sess_reads mapM_map
      split: option.splits sum.splits)

lemma record_response_sim:
  assumes "holds r q v"
  shows "sim r q
           (record_response env r \<lparr>a_quizId = q, isCorrect = xo\<rparr> (map item_of (v_questions v))
              (v_administeredItems v) (Fin (v_minMeasurementAccuracy v))
              (v_maxNumberOfQuestions v) selector x)
           (a_record_response env q v selector x)"
proof -
  let ?v1 = "v\<lparr>v_responses := v_responses v @ [x]\<rparr>"
  let ?r1 = "r(get_rPrefix q ''responses'' \<mapsto>
                RList (map (\<lambda>x. RFloat (Fin x)) (v_responses v) @ [RFloat (Fin x)]))"
  have push: "r_rpush r (get_rPrefix q ''responses'') (RFloat (Fin x)) = Inr ?r1"
    using assms by (simp add: holds_def sess_reads)
  have h1: "holds ?r1 q ?v1"
    using assms by (simp add: holds_def)
  have g1: "?r1 (Global ''quizIds'') = r (Global ''quizIds'')"
    by simp
  show ?thesis
  proof (cases "a_get_estimator v")
    case (Inl e)
    then have "get_estimator ?r1 q = Inl e"
      using get_estimator_holds [OF h1] by simp
    with Inl h1 g1 push show ?thesis
      by (simp add: record_response_def a_record_response_def sim_def Let_def)
  next
    case (Inr estimator)
    then have est: "get_estimator ?r1 q = Inr estimator"
      using get_estimator_holds [OF h1] by simp
    have resp: "get_responses ?r1 q = Inr (map (\<lambda>x. x = 1) (v_responses v @ [x]))"
      using get_responses_holds [OF h1] by simp
    have th: "r_get ?r1 (get_rPrefix q ''estTheta'') = Inr (Some (RFloat (v_estTheta v)))"
      using h1 by (simp add: holds_def r_get_sess)
    define estTheta where "estTheta = estimate env estimator (map item_of (v_questions v))
       (v_administeredItems v) (map (\<lambda>x. x = 1) (v_responses v @ [x])) (v_estTheta v)"
    let ?v2 = "?v1\<lparr>v_estTheta := Fin estTheta\<rparr>"
    let ?r2 = "r_set ?r1 (get_rPrefix q ''estTheta'') (RFloat (Fin estTheta))"
    have h2: "holds ?r2 q ?v2"
      using h1 by (simp add: holds_def)
    have g2: "?r2 (Global ''quizIds'') = r (Global ''quizIds'')"
      by simp
    show ?thesis
    proof (cases "take_items (map item_of (v_questions v)) (v_administeredItems v)")
      case (Inl e)
      with Inr est resp th push h2 g2 show ?thesis
        by (simp add: record_response_def a_record_response_def sim_def Let_def estTheta_def)
    next
      case (Inr administered)
      define se where "se = see estTheta administered"
      define fin where "fin = (MinErrorStopper_stop (Fin (v_minMeasurementAccuracy v)) administered estTheta
                           \<or> MaxItemStopper_stop (v_maxNumberOfQuestions v) administered)"
      let ?v4 = "?v2\<lparr>v_standardErrorOfEstimation := se, v_quizFinished := fin\<rparr>"
      let ?r4 = "r_set (r_set ?r2 (get_rPrefix q ''standardErrorOfEstimation'') (RFloat se))
                   (get_rPrefix q ''quizFinished'') (RStr (py_str_bool fin))"
      have h4: "holds ?r4 q ?v4"
        using h2 by (simp add: holds_def)
      have g4: "?r4 (Global ''quizIds'') = r (Global ''quizIds'')"
        by simp
      have lhs: "record_response env r \<lparr>a_quizId = q, isCorrect = xo\<rparr> (map item_of (v_questions v))
              (v_administeredItems v) (Fin (v_minMeasurementAccuracy v))
              (v_maxNumberOfQuestions v) selector x
            = next_after_response ?r4 \<lparr>a_quizId = q, isCorrect = xo\<rparr> (v_administeredItems ?v4)
                selector estTheta se fin"
        using \<open>a_get_estimator v = Inr estimator\<close> est resp th push Inr
        by (simp add: record_response_def Let_def estTheta_def se_def fin_def)
      have rhs: "a_record_response env q v selector x
            = (if fin then
                (?v4, Inr \<lparr>n_quizId = q, questionId = None, measurementAccuracy = se,
                        currentCompetency = Fin estTheta, quizFinished = fin\<rparr>)
               else a_deliver q ?v4
                   (select selector (map item_of (v_questions ?v4)) (v_administeredItems ?v4)
                      (Fin estTheta))
                   se (Fin estTheta) fin)"
        using \<open>a_get_estimator v = Inr estimator\<close> Inr
        by (simp add: a_record_response_def Let_def estTheta_def se_def fin_def)
      from next_after_response_sim [OF h4, of xo selector estTheta se fin] g4
      show ?thesis
        unfolding lhs rhs by (simp add: sim_def)
    qed
  qed
qed

lemma get_next_question_sim:
  assumes "holds r q v"
  shows "sim r q (get_next_question env r \<lparr>a_quizId = q, isCorrect = x\<rparr>)
           (a_get_next_question env q v x)"
proof -
  have reads:
    "get_items r q = Inr (map item_of (v_questions v))"
    "get_administeredItems r q = Inr (v_administeredItems v)"
    "r_get r (get_rPrefix q ''minMeasurementAccuracy'') = Inr (Some (RFloat (Fin (v_minMeasurementAccuracy v))))"
    "r_get r (get_rPrefix q ''maxNumberOfQuestions'') = Inr (Some (RInt (v_maxNumberOfQuestions v)))"
    "get_selector r q = a_get_selector v"
    using assms
    by (simp_all add: get_items_holds get_administeredItems_holds get_selector_holds)
       (simp_all add: holds_def r_get_sess)
  show ?thesis
  proof (cases "a_get_selector v")
    case (Inl e)
    with reads assms show ?thesis
      by (simp add: get_next_question_def a_get_next_question_def Let_def sim_def)
  next
    case (Inr selector)
    show ?thesis
    proof (cases "v_administeredItems v = []")
      case True
      have "get_next_question env r \<lparr>a_quizId = q, isCorrect = x\<rparr>
              = first_question r \<lparr>a_quizId = q, isCorrect = x\<rparr> (v_administeredItems v) selector"
        using reads Inr True by (simp add: get_next_question_def Let_def)
      moreover have "a_get_next_question env q v x
              = a_deliver q v (select selector (map item_of (v_questions v)) (v_administeredItems v) (v_estTheta v))
                  (v_standardErrorOfEstimation v) (v_estTheta v) (v_quizFinished v)"
        using Inr True by (simp add: a_get_next_question_def)
      ultimately show ?thesis
        using first_question_sim [OF assms, of x selector] by simp
    next
      case False
      show ?thesis
      proof (cases "\<exists>y. x = Some y \<and> 0 \<le> y \<and> y \<le> 1")
        case True
        then obtain y where y: "x = Some y" "0 \<le> y" "y \<le> 1" by blast
        have "get_next_question env r \<lparr>a_quizId = q, isCorrect = x\<rparr>
              = record_response env r \<lparr>a_quizId = q, isCorrect = x\<rparr> (map item_of (v_questions v))
                  (v_administeredItems v) (Fin (v_minMeasurementAccuracy v))
                  (v_maxNumberOfQuestions v) selector y"
          using reads Inr False y by (simp add: get_next_question_def Let_def)
        moreover have "a_get_next_question env q v x = a_record_response env q v selector y"
          using Inr False y by (simp add: a_get_next_question_def)
        ultimately show ?thesis
          using record_response_sim [OF assms, of env x selector y] by simp
      next
        case no: False
        with reads Inr False assms show ?thesis
          by (auto simp: get_next_question_def a_get_next_question_def Let_def sim_def
              split: option.splits)
      qed
    qed
  qed
qed

lemma quizIdExists_loop_ints:
  "quizIdExists_loop (map RInt ids) qId = Inr (qId \<in> set ids)"
  by (induction ids) auto

lemma quizIdExists_registered: "registered r qId \<Longrightarrow> quizIdExists r qId = Inr True"
  by (auto simp: registered_def quizIdExists_def r_lrange_def quizIdExists_loop_ints)

lemma api_get_next_question_sim:
  assumes "holds r q v" and "registered r q"
  shows "sim r q (api_get_next_question env r \<lparr>a_quizId = q, isCorrect = x\<rparr>)
           (a_api_get_next_question env q v x)"
proof -
  have fin: "r_get r (get_rPrefix q ''quizFinished'') = Inr (Some (RStr (py_str_bool (v_quizFinished v))))"
    using assms(1) by (simp add: holds_def r_get_sess)
  show ?thesis
  proof (cases "v_quizFinished v")
    case True
    with fin assms show ?thesis
      by (simp add: api_get_next_question_def a_api_get_next_question_def
          quizIdExists_registered sim_def)
  next
    case False
    with fin assms(2) have "api_get_next_question env r \<lparr>a_quizId = q, isCorrect = x\<rparr>
        = get_next_question env r \<lparr>a_quizId = q, isCorrect = x\<rparr>"
      by (simp add: api_get_next_question_def quizIdExists_registered)
    with False get_next_question_sim [OF assms(1), of env x] show ?thesis
      by (simp add: a_api_get_next_question_def)
  qed
qed

subsection \<open>The result operation\<close>

lemma result_loop_holds:
  "holds r q v \<Longrightarrow> result_loop r q resps adm acc = a_result_loop (v_questions v) resps adm acc"
proof (induction adm arbitrary: acc)
  case Nil
  then show ?case by simp
next
  case (Cons i adm)
  obtain a b c d where acc: "acc = (a, b, c, d)" by (cases acc) auto
  have "get_item_by_index r q i = py_index (map item_of (v_questions v)) i"
       "get_questionId_by_index r q i = py_index (map q_id (v_questions v)) i"
    using Cons.prems
    by (simp_all add: get_item_by_index_def get_questionId_by_index_def get_items_holds
        get_questionIds_holds)
  with Cons show ?case
    by (simp add: acc ebind_def split: sum.splits prod.splits)
qed

lemma questions_loop_holds:
  "holds r q v \<Longrightarrow> questions_loop r q adm acc = a_questions_loop (v_questions v) adm acc"
proof (induction adm arbitrary: acc)
  case Nil
  then show ?case by simp
next
  case (Cons i adm)
  have "get_item_by_index r q i = py_index (map item_of (v_questions v)) i"
       "get_questionId_by_index r q i = py_index (map q_id (v_questions v)) i"
    using Cons.prems
    by (simp_all add: get_item_by_index_def get_questionId_by_index_def get_items_holds
        get_questionIds_holds)
  with Cons show ?case
    by (simp add: ebind_def split: sum.splits prod.splits)
qed

lemma build_result_holds:
  "holds r q v \<Longrightarrow> build_result r q administered = Inr (a_build_result q v administered)"
  by (simp add: build_result_def a_build_result_def Let_def get_responses_as_float_holds)
     (simp add: holds_def r_get_sess)

lemma get_result_sim:
  assumes "holds r q v"
  shows "sim r q (get_result r q) (a_get_result q v)"
proof -
  have sel: "r_get r (get_rPrefix q ''questionSelector'') = Inr (Some (RStr (v_questionSelector v)))"
    using assms by (simp add: holds_def r_get_sess)
  show ?thesis
  proof (cases "v_questionSelector v = ''linearSelector''")
    case True
    let ?r1 = "r_set r (get_rPrefix q ''standardErrorOfEstimation'') (RFloat (Fin 0))"
    let ?v1 = "v\<lparr>v_standardErrorOfEstimation := Fin 0\<rparr>"
    have h1: "holds ?r1 q ?v1"
      using assms by (simp add: holds_def)
    have loop: "result_loop ?r1 q resps adm acc = a_result_loop (v_questions v) resps adm acc"
      for resps adm acc
      using result_loop_holds [OF h1] by simp
    have adm: "get_administeredItems ?r1 q = Inr (v_administeredItems v)"
      using get_administeredItems_holds [OF h1] by simp
    have b: "build_result (r_set ?r1 (get_rPrefix q ''estTheta'') (RFloat t)) q administered
               = Inr (a_build_result q (?v1\<lparr>v_estTheta := t\<rparr>) administered)"
      for t administered
      by (rule build_result_holds) (use h1 in \<open>simp add: holds_def\<close>)
    have h2: "holds (r_set ?r1 (get_rPrefix q ''estTheta'') (RFloat t)) q (?v1\<lparr>v_estTheta := t\<rparr>)"
      for t
      using h1 by (simp add: holds_def)
    show ?thesis
      using True sel h1 h2 b
      by (simp add: get_result_def a_get_result_def Let_def sim_def loop adm
          get_responses_as_float_holds [OF assms]
          split: sum.splits prod.splits)
  next
    case False
    with sel assms show ?thesis
      by (simp add: get_result_def a_get_result_def Let_def sim_def
          get_administeredItems_holds questions_loop_holds build_result_holds
          split: sum.splits)
  qed
qed

lemma api_get_result_sim:
  assumes "holds r q v" and "registered r q"
  shows "sim r q (api_get_result r q) (a_api_get_result q v)"
proof -
  have reads:
    "r_get r (get_rPrefix q ''questionSelector'') = Inr (Some (RStr (v_questionSelector v)))"
    "r_get r (get_rPrefix q ''quizFinished'') = Inr (Some (RStr (py_str_bool (v_quizFinished v))))"
    using assms(1) by (simp_all add: holds_def r_get_sess)
  show ?thesis
  proof (cases "v_questionSelector v = ''linearSelector'' \<and> \<not> v_quizFinished v")
    case True
    with reads assms show ?thesis
      by (simp add: api_get_result_def a_api_get_result_def quizIdExists_registered sim_def)
  next
    case False
    with reads assms(2) have "api_get_result r q = get_result r q"
      by (auto simp: api_get_result_def quizIdExists_registered)
    with False get_result_sim [OF assms(1)] show ?thesis
      by (auto simp: a_api_get_result_def)
  qed
qed

subsection \<open>Creation\<close>

lemma store_questions_sess:
  "sess r q n = rlist (map RJson xs) \<Longrightarrow>
   store_questions r (get_rPrefix q n) qs
     = (r(get_rPrefix q n := rlist (map RJson (xs @ qs))), Inr ())"
proof (induction qs arbitrary: r xs)
  case Nil
  then show ?case
    by (auto simp: sess_def get_rPrefix_def)
next
  case (Cons x qs)
  let ?r' = "r(get_rPrefix q n \<mapsto> RList (map RJson xs @ [RJson x]))"
  have push: "r_rpush r (get_rPrefix q n) (RJson x) = Inr ?r'"
    using Cons.prems by (simp add: r_rpush_sess)
  have "sess ?r' q n = rlist (map RJson (xs @ [x]))"
    by (simp add: rlist_def)
  from Cons.IH [OF this, unfolded fun_upd_upd] show ?case
    by (simp only: store_questions.simps push sbind_simps append_assoc append.simps)
qed

lemma difficulty_item_of [simp]: "fst (snd (item_of p)) = difficulty p"
  by (simp add: item_of_def)

lemma r_rpush_registry:
  "r (Global ''quizIds'') = rlist (map RInt ids) \<Longrightarrow>
   r_rpush r (Global ''quizIds'') (RInt q) = Inr (r(Global ''quizIds'' \<mapsto> RList (map RInt (ids @ [q]))))"
  by (simp add: r_rpush_def rlist_def)

lemma registered_pushed:
  "registered (r(Global ''quizIds'' \<mapsto> RList (map RInt ids @ [RInt q]))) q"
  unfolding registered_def by (rule exI [of _ "ids @ [q]"]) simp

lemma sess_prepared:
  assumes fresh: "sess r0 q = (\<lambda>name. None)"
  shows "sess (prepared env r0 (quizAPI\<lparr>quizId := q\<rparr>)) q
         = enc ((init_view env quizAPI)\<lparr>v_maxNumberOfQuestions := maxNumberOfQuestions quizAPI,
                  v_minMeasurementAccuracy := minMeasurementAccuracy quizAPI,
                  v_minDiff := None, v_maxDiff := None\<rparr>)"
  by (rule ext)
     (simp add: prepared_def created_keys_def init_initializer_def r_mset_def fresh enc_def
        init_view_def)

lemma prepared_global [simp]:
  "prepared env r0 quizAPI (Global g) = r0 (Global g)"
  by (simp add: prepared_def created_keys_def init_initializer_def r_mset_def)

lemma create_quiz_prepared:
  assumes fresh: "sess r0 q = (\<lambda>name. None)"
  shows "create_quiz env r0 quizAPI q =
          (let quizAPI1 = quizAPI\<lparr>quizId := q\<rparr>; r3 = prepared env r0 quizAPI1
           in case init_estimator r3 quizAPI1 of
                   (r4, Inl e) \<Rightarrow> (r4, Inl e)
                 | (r4, Inr u') \<Rightarrow>
                     (case init_selector r4 quizAPI1 of
                        (r5, quizAPI') \<Rightarrow>
                          sbind r5 (r_rpush r5 (Global ''quizIds'') (RInt (quizId quizAPI')))
                            (\<lambda>r6. (r6, Inr quizAPI'))))"
proof -
  have "sess (created_keys env r0 (quizAPI\<lparr>quizId := q\<rparr>)) q ''questions'' = rlist (map RJson [])"
    by (simp add: created_keys_def r_mset_def fresh rlist_def)
  from store_questions_sess [OF this, of "questions quizAPI"]
  show ?thesis
    by (simp add: create_quiz_def Let_def prepared_def created_keys_def)
qed

lemma enc_upd_minDiff [simp]:
  "(enc v)(''minDiff'' \<mapsto> RString (RFloat (Fin x))) = enc (v\<lparr>v_minDiff := Some x\<rparr>)"
  by (rule ext) (simp add: enc_def)

lemma enc_upd_maxDiff [simp]:
  "(enc v)(''maxDiff'' \<mapsto> RString (RFloat (Fin x))) = enc (v\<lparr>v_maxDiff := Some x\<rparr>)"
  by (rule ext) (simp add: enc_def)

lemma enc_upd_max [simp]:
  "(enc v)(''maxNumberOfQuestions'' \<mapsto> RString (RInt n)) = enc (v\<lparr>v_maxNumberOfQuestions := n\<rparr>)"
  by (rule ext) (simp add: enc_def)

lemma enc_upd_minacc [simp]:
  "(enc v)(''minMeasurementAccuracy'' \<mapsto> RString (RFloat (Fin x)))
     = enc (v\<lparr>v_minMeasurementAccuracy := x\<rparr>)"
  by (rule ext) (simp add: enc_def)

lemma init_estimator_holds:
  assumes "holds r q v" and "quizId quizAPI = q"
  shows "init_estimator r quizAPI =
           (if competencyEstimator quizAPI = ''differentialEvolutionEstimator'' then
              (case map difficulty (v_questions v) of
                 [] \<Rightarrow> (r, Inl ValueError)
               | x # xs \<Rightarrow>
                   (r_mset r [(get_rPrefix q ''minDiff'', RFloat (Fin (fold min xs x))),
                              (get_rPrefix q ''maxDiff'', RFloat (Fin (fold max xs x)))],
                    Inr ()))
            else (r, Inr ()))"
  using assms
  by (simp add: init_estimator_def get_items_holds comp_def split: list.splits)

lemma create_quiz_fresh:
  assumes fresh: "sess r0 q = (\<lambda>name. None)"
    and reg: "r0 (Global ''quizIds'') = rlist (map RInt ids)"
    and out: "create_quiz env r0 quizAPI q = (r, res)"
  shows "if competencyEstimator quizAPI = ''differentialEvolutionEstimator'' \<and> questions quizAPI = []
         then res = Inl ValueError \<and> r (Global ''quizIds'') = r0 (Global ''quizIds'')
         else holds r q (init_view env quizAPI) \<and> registered r q \<and> \<not> isl res"
proof -
  let ?q1 = "quizAPI\<lparr>quizId := q\<rparr>"
  let ?r3 = "prepared env r0 ?q1"
  let ?v3 = "(init_view env quizAPI)\<lparr>v_maxNumberOfQuestions := maxNumberOfQuestions quizAPI,
                  v_minMeasurementAccuracy := minMeasurementAccuracy quizAPI,
                  v_minDiff := None, v_maxDiff := None\<rparr>"
  have h3: "holds ?r3 q ?v3"
    unfolding holds_def by (rule sess_prepared [OF fresh])
  have qs: "v_questions ?v3 = questions quizAPI"
    by (simp add: init_view_def)
  note est = init_estimator_holds [OF h3, of ?q1, simplified qs]
  note cq = create_quiz_prepared [OF fresh, of env quizAPI, unfolded Let_def]
  show ?thesis
  proof (cases "competencyEstimator quizAPI = ''differentialEvolutionEstimator'' \<and> questions quizAPI = []")
    case True
    with out est cq have "r = ?r3" and "res = Inl ValueError"
      by simp_all
    with True show ?thesis
      by simp
  next
    case False
    let ?v4 = "?v3\<lparr>v_minDiff := v_minDiff (init_view env quizAPI),
                      v_maxDiff := v_maxDiff (init_view env quizAPI)\<rparr>"
    have "\<exists>r4. init_estimator ?r3 ?q1 = (r4, Inr ()) \<and> holds r4 q ?v4
                \<and> r4 (Global ''quizIds'') = r0 (Global ''quizIds'')"
    proof (cases "competencyEstimator quizAPI = ''differentialEvolutionEstimator''")
      case de: True
      with False obtain x xs where xs: "questions quizAPI = x # xs"
        by (cases "questions quizAPI") auto
      let ?r4 = "r_mset ?r3 [(get_rPrefix q ''minDiff'', RFloat (Fin (fold min (map difficulty xs) (difficulty x)))),
                    (get_rPrefix q ''maxDiff'', RFloat (Fin (fold max (map difficulty xs) (difficulty x))))]"
      have 1: "init_estimator ?r3 ?q1 = (?r4, Inr ())"
        using est de xs by simp
      have mm: "v_minDiff (init_view env quizAPI) = Some (fold min (map difficulty xs) (difficulty x))"
               "v_maxDiff (init_view env quizAPI) = Some (fold max (map difficulty xs) (difficulty x))"
        using de xs by (simp_all add: init_view_def)
      have 2: "holds ?r4 q ?v4"
        using h3 unfolding mm by (simp add: holds_def r_mset_def)
      have 3: "?r4 (Global ''quizIds'') = r0 (Global ''quizIds'')"
        by (simp add: r_mset_def)
      from 1 2 3 show ?thesis by blast
    next
      case nde: False
      then have 1: "init_estimator ?r3 ?q1 = (?r3, Inr ())"
        using est by simp
      have mm: "v_minDiff (init_view env quizAPI) = None" "v_maxDiff (init_view env quizAPI) = None"
        using nde by (simp_all add: init_view_def)
      have 2: "holds ?r3 q ?v4"
        using h3 unfolding mm by simp
      from 1 2 show ?thesis by auto
    qed
    then obtain r4 where r4: "init_estimator ?r3 ?q1 = (r4, Inr ())"
      and h4: "holds r4 q ?v4"
      and g4: "r4 (Global ''quizIds'') = r0 (Global ''quizIds'')"
      by blast
    have v4: "?v4 = (init_view env quizAPI)\<lparr>v_maxNumberOfQuestions := maxNumberOfQuestions quizAPI,
                  v_minMeasurementAccuracy := minMeasurementAccuracy quizAPI\<rparr>"
      by simp
    have "\<exists>r5 q5. init_selector r4 ?q1 = (r5, q5) \<and> holds r5 q (init_view env quizAPI)
            \<and> r5 (Global ''quizIds'') = r0 (Global ''quizIds'') \<and> quizId q5 = q"
    proof (cases "questionSelector quizAPI = ''linearSelector''")
      case True
      let ?r5 = "r_set (r_set r4 (get_rPrefix q ''maxNumberOfQuestions'') (RInt (int (length (questions quizAPI)))))
                   (get_rPrefix q ''minMeasurementAccuracy'') (RFloat (Fin 0))"
      have "init_selector r4 ?q1 = (?r5, ?q1\<lparr>maxNumberOfQuestions := int (length (questions quizAPI)),
               minMeasurementAccuracy := 0, competencyEstimator := ''linearEstimator''\<rparr>)"
        using True by (simp add: init_selector_def Let_def)
      moreover have "holds ?r5 q (init_view env quizAPI)"
        using h4 True unfolding v4 by (simp add: holds_def init_view_def)
      moreover have "?r5 (Global ''quizIds'') = r0 (Global ''quizIds'')"
        using g4 by simp
      ultimately show ?thesis by simp
    next
      case False
      then have "init_selector r4 ?q1 = (r4, ?q1)"
        by (simp add: init_selector_def)
      moreover have "holds r4 q (init_view env quizAPI)"
        using h4 False unfolding v4 by (simp add: holds_def init_view_def)
      ultimately show ?thesis using g4 by simp
    qed
    then obtain r5 q5 where r5: "init_selector r4 ?q1 = (r5, q5)"
      and h5: "holds r5 q (init_view env quizAPI)"
      and g5: "r5 (Global ''quizIds'') = r0 (Global ''quizIds'')"
      and q5: "quizId q5 = q"
      by blast
    have push: "r_rpush r5 (Global ''quizIds'') (RInt q)
                  = Inr (r5(Global ''quizIds'' \<mapsto> RList (map RInt (ids @ [q]))))"
      by (rule r_rpush_registry) (simp add: g5 reg)
    from out cq r4 r5 push q5
    have "r = r5(Global ''quizIds'' \<mapsto> RList (map RInt (ids @ [q])))" and "res = Inr q5"
      by simp_all
    with False h5 show ?thesis
      by (simp add: registered_pushed holds_def)
  qed
qed

section \<open>The catsim model\<close>

lemma fold_pick:
  "fold (\<lambda>j best. if P best j then j else best) rest i \<in> set (i # rest)"
  by (induction rest arbitrary: i) auto

lemma MaxInfoSelector_select_new:
  assumes "MaxInfoSelector_select items administered_items est_theta = Some i"
  shows "i \<notin> set administered_items \<and> 0 \<le> i \<and> i < int (length items)"
proof -
  let ?valid = "filter (\<lambda>i. i \<notin> set administered_items) (map int [0..<length items])"
  from assms obtain c rest where v: "?valid = c # rest"
    by (auto simp: MaxInfoSelector_select_def split: list.splits)
  from assms v have "i = fold (\<lambda>j best.
        if (\<lambda>best j. info_at est_theta (items ! nat best) < info_at est_theta (items ! nat j)) best j
        then j else best) rest c"
    by (simp add: MaxInfoSelector_select_def)
  then have "i \<in> set (c # rest)"
    by (simp only: fold_pick)
  then have "i \<in> set ?valid"
    unfolding v .
  then show ?thesis by auto
qed

lemma mapM_length: "mapM f xs = Inr ys \<Longrightarrow> length ys = length xs"
  by (induction xs arbitrary: ys) (auto simp: ebind_def split: sum.splits)

lemma take_items_length: "take_items items adm = Inr S \<Longrightarrow> length S = length adm"
  unfolding take_items_def by (rule mapM_length)

lemma take_items_valid:
  "\<forall>i\<in>set adm. 0 \<le> i \<and> i < int (length items) \<Longrightarrow>
   take_items items adm = Inr (map (\<lambda>i. items ! nat i) adm)"
  unfolding take_items_def by (induction adm) (auto simp: py_index_def)

lemma see_positive: "\<not> fle (see theta S) (Fin 0)"
  by (auto simp: see_def not_le)

lemma get_indices_loop_upt:
  "i \<le> Suc n \<Longrightarrow> get_indices_loop n (int i) acc = acc @ map int [i..<Suc n]"
proof (induction "Suc n - i" arbitrary: i acc)
  case 0
  then have "i = Suc n" by simp
  then show ?case by (subst get_indices_loop.simps) simp
next
  case (Suc d)
  then have lt: "i \<le> n" by simp
  have d: "d = Suc n - Suc i" using Suc.hyps(2) by simp
  have "get_indices_loop n (int (Suc i)) (acc @ [int i]) = (acc @ [int i]) @ map int [Suc i..<Suc n]"
    using lt by (intro Suc.hyps(1) [OF d]) simp
  moreover have "get_indices_loop n (int i) acc = get_indices_loop n (int (Suc i)) (acc @ [int i])"
    using lt by (subst get_indices_loop.simps) (simp add: add.commute)
  moreover have "[i..<Suc n] = i # [Suc i..<Suc n]"
    using lt by (simp add: upt_conv_Cons)
  ultimately show ?case by simp
qed

lemma get_indices_loop_0: "get_indices_loop n 0 [] = map int [0..<Suc n]"
  using get_indices_loop_upt [of 0 n "[]"] by simp

lemma LinearSelector_select_prefix:
  assumes "k \<le> n"
  shows "LinearSelector_select (map int [0..<Suc n]) (map int [0..<k]) = Some (int k)"
proof -
  have "[0..<k + (Suc n - k)] = [0..<k] @ [k..<k + (Suc n - k)]"
    by (rule upt_add_eq_append) simp
  then have "[0..<Suc n] = [0..<k] @ [k..<Suc n]"
    using assms by simp
  moreover have "[k..<Suc n] = k # [Suc k..<Suc n]"
    using assms by (simp add: upt_conv_Cons)
  ultimately have "filter (\<lambda>x. x \<notin> int ` {0..<k}) (map int [0..<Suc n])
          = int k # filter (\<lambda>x. x \<notin> int ` {0..<k}) (map int [Suc k..<Suc n])"
    by (auto simp: filter_empty_conv)
  then show ?thesis
    by (simp add: LinearSelector_select_def)
qed

section \<open>Invariants of a session\<close>

lemma initial_fresh: "initial r q \<Longrightarrow> sess r q = (\<lambda>name. None)"
  by (rule ext) (simp add: initial_def sess_def get_rPrefix_def)

lemma initial_registry: "initial r q \<Longrightarrow> \<exists>ids. r (Global ''quizIds'') = rlist (map RInt ids)"
proof -
  assume "initial r q"
  then consider "r (Global ''quizIds'') = None"
    | ids where "ids \<noteq> []" "r (Global ''quizIds'') = Some (RList (map RInt ids))"
    by (auto simp: initial_def)
  then show ?thesis
  proof cases
    case 1
    then have "r (Global ''quizIds'') = rlist (map RInt [])" by simp
    then show ?thesis by blast
  next
    case 2
    then have "r (Global ''quizIds'') = rlist (map RInt ids)" by (simp add: rlist_def)
    then show ?thesis by blast
  qed
qed

lemma created_view:
  assumes "initial r0 q" and "api_create_quiz env r0 quizAPI q = (r, Inr quizAPI')"
  shows "holds r q (init_view env quizAPI) \<and> registered r q
         \<and> \<not> (competencyEstimator quizAPI = ''differentialEvolutionEstimator'' \<and> questions quizAPI = [])"
proof -
  from initial_registry [OF assms(1)] obtain ids where
    reg: "r0 (Global ''quizIds'') = rlist (map RInt ids)" by blast
  from assms(2) have out: "create_quiz env r0 quizAPI q = (r, Inr quizAPI')"
    by (simp add: api_create_quiz_def)
  from create_quiz_fresh [OF initial_fresh [OF assms(1)] reg out, of ] show ?thesis
    by (auto split: if_splits)
qed

lemma reachable_view:
  assumes reach: "reachable env quizAPI q r"
    and init: "\<not> (competencyEstimator quizAPI = ''differentialEvolutionEstimator'' \<and> questions quizAPI = [])
               \<Longrightarrow> I (init_view env quizAPI)"
    and step: "\<And>v x. I v \<Longrightarrow> I (fst (a_api_get_next_question env q v x))"
    and res: "\<And>v. I v \<Longrightarrow> I (fst (a_api_get_result q v))"
  shows "\<exists>v. holds r q v \<and> registered r q \<and> I v"
  using reach
proof (induction rule: reachable.induct)
  case (created r0 r quizAPI')
  from created_view [OF created] init show ?case by blast
next
  case (asked r x r' res)
  then obtain v where v: "holds r q v" "registered r q" "I v" by blast
  from api_get_next_question_sim [OF v(1,2), of env x] asked(2)
  have "holds r' q (fst (a_api_get_next_question env q v x))" "registered r' q"
    using v(2) by (simp_all add: sim_def registered_def)
  with step [OF v(3)] show ?case by blast
next
  case (read r r' res')
  then obtain v where v: "holds r q v" "registered r q" "I v" by blast
  from api_get_result_sim [OF v(1,2)] read(2)
  have "holds r' q (fst (a_api_get_result q v))" "registered r' q"
    using v(2) by (simp_all add: sim_def registered_def)
  with res [OF v(3)] show ?case by blast
qed

subsection \<open>What never changes\<close>

lemma static_init: "static env quizAPI (init_view env quizAPI)"
  by (simp add: static_def init_view_def)

lemma a_deliver_static:
  "static env quizAPI v \<Longrightarrow> static env quizAPI (fst (a_deliver q v chosen se theta fin))"
  by (auto simp: a_deliver_def static_def split: option.splits sum.splits)

lemma a_record_response_static:
  "static env quizAPI v \<Longrightarrow> static env quizAPI (fst (a_record_response env q v selector x))"
proof -
  assume s: "static env quizAPI v"
  have *: "static env quizAPI (v\<lparr>v_responses := a, v_estTheta := b, v_standardErrorOfEstimation := c,
                v_quizFinished := d\<rparr>)" for a b c d
    using s by (simp add: static_def)
  have **: "static env quizAPI (v\<lparr>v_responses := a, v_estTheta := b\<rparr>)"
      "static env quizAPI (v\<lparr>v_responses := a\<rparr>)" for a b
    using s by (simp_all add: static_def)
  show ?thesis
    using * ** a_deliver_static [OF *]
    by (auto simp: a_record_response_def Let_def split: sum.splits)
qed

lemma a_next_static:
  "static env quizAPI v \<Longrightarrow> static env quizAPI (fst (a_api_get_next_question env q v x))"
  by (auto simp: a_api_get_next_question_def a_get_next_question_def a_deliver_static
      a_record_response_static split: sum.splits option.splits)

lemma a_result_static:
  "static env quizAPI v \<Longrightarrow> static env quizAPI (fst (a_api_get_result q v))"
  by (auto simp: a_api_get_result_def a_get_result_def Let_def static_def
      split: sum.splits prod.splits)

subsection \<open>The steps of the next-question operation\<close>

lemma a_deliver_first:
  assumes "\<not> v_quizFinished v" "v_administeredItems v = []" "a_get_selector v = Inr sel"
  shows "a_step env v (fst (a_deliver q v
            (select sel (map item_of (v_questions v)) [] (v_estTheta v)) se theta fin))"
proof (cases "select sel (map item_of (v_questions v)) [] (v_estTheta v)")
  case None
  then show ?thesis by (simp add: a_deliver_def a_step.same)
next
  case (Some i)
  show ?thesis
  proof (cases "py_index (map q_id (v_questions v)) i")
    case (Inl e)
    with Some a_step.picked [OF assms Some Inl] show ?thesis
      by (simp add: a_deliver_def)
  next
    case (Inr qid)
    with Some a_step.first [OF assms Some Inr] assms(2) show ?thesis
      by (simp add: a_deliver_def)
  qed
qed

lemma a_record_response_step:
  assumes nf: "\<not> v_quizFinished v" and ne: "v_administeredItems v \<noteq> []"
    and y: "0 \<le> y" "y \<le> 1" and sel: "a_get_selector v = Inr sel"
  shows "a_step env v (fst (a_record_response env q v sel y))"
proof (cases "a_get_estimator v")
  case (Inl e)
  with a_step.est_failed [OF nf ne y Inl] show ?thesis
    by (simp add: a_record_response_def)
next
  case est: (Inr est)
  define t where "t = estimate env est (map item_of (v_questions v))
                 (v_administeredItems v) (map (\<lambda>x. x = 1) (v_responses v @ [y])) (v_estTheta v)"
  show ?thesis
  proof (cases "take_items (map item_of (v_questions v)) (v_administeredItems v)")
    case (Inl e)
    with est a_step.items_failed [OF nf ne y est Inl, of env t] show ?thesis
      by (simp add: a_record_response_def Let_def t_def)
  next
    case S: (Inr S)
    show ?thesis
    proof (cases "MinErrorStopper_stop (Fin (v_minMeasurementAccuracy v)) S t
          \<or> MaxItemStopper_stop (v_maxNumberOfQuestions v) S")
      case True
      with est S a_step.finished [OF nf ne y est S True, of env] show ?thesis
        by (simp add: a_record_response_def Let_def t_def)
    next
      case False
      then have nm: "\<not> MinErrorStopper_stop (Fin (v_minMeasurementAccuracy v)) S t"
        and nx: "\<not> MaxItemStopper_stop (v_maxNumberOfQuestions v) S" by auto
      show ?thesis
      proof (cases "select sel (map item_of (v_questions v)) (v_administeredItems v) (Fin t)")
        case None
        with est S False a_step.exhausted [OF nf ne y est S nm nx sel None, of env] show ?thesis
          by (simp add: a_record_response_def Let_def t_def a_deliver_def)
      next
        case (Some i)
        show ?thesis
        proof (cases "py_index (map q_id (v_questions v)) i")
          case (Inl e)
          with Some est S False a_step.lookup_failed [OF nf ne y est S nm nx sel Some Inl, of env]
          show ?thesis
            by (simp add: a_record_response_def Let_def t_def a_deliver_def)
        next
          case (Inr qid)
          with Some est S False a_step.delivered [OF nf ne y est S nm nx sel Some Inr, of env]
          show ?thesis
            by (simp add: a_record_response_def Let_def t_def a_deliver_def)
        qed
      qed
    qed
  qed
qed

lemma a_next_step: "a_step env v (fst (a_api_get_next_question env q v x))"
proof (cases "v_quizFinished v")
  case True
  then show ?thesis by (simp add: a_api_get_next_question_def a_step.same)
next
  case nf: False
  show ?thesis
  proof (cases "a_get_selector v")
    case (Inl e)
    with nf show ?thesis
      by (simp add: a_api_get_next_question_def a_get_next_question_def a_step.same)
  next
    case sel: (Inr sel)
    show ?thesis
    proof (cases "v_administeredItems v = []")
      case True
      with nf sel a_deliver_first [OF nf True sel, of env q] show ?thesis
        by (simp add: a_api_get_next_question_def a_get_next_question_def)
    next
      case ne: False
      show ?thesis
      proof (cases "\<exists>y. x = Some y \<and> 0 \<le> y \<and> y \<le> 1")
        case True
        then obtain y where y: "x = Some y" "0 \<le> y" "y \<le> 1" by blast
        with nf sel ne a_record_response_step [OF nf ne y(2,3) sel, of env q] show ?thesis
          by (simp add: a_api_get_next_question_def a_get_next_question_def)
      next
        case False
        with nf sel ne show ?thesis
          by (auto simp: a_api_get_next_question_def a_get_next_question_def a_step.same
              split: option.splits)
      qed
    qed
  qed
qed

subsection \<open>The administered items\<close>

lemma a_result_effect:
  "\<exists>se theta. fst (a_api_get_result q v)
      = v\<lparr>v_standardErrorOfEstimation := se, v_estTheta := theta\<rparr>"
proof -
  have same: "v = v\<lparr>v_standardErrorOfEstimation := v_standardErrorOfEstimation v,
                    v_estTheta := v_estTheta v\<rparr>" by simp
  have se: "v\<lparr>v_standardErrorOfEstimation := Fin 0\<rparr>
             = v\<lparr>v_standardErrorOfEstimation := Fin 0, v_estTheta := v_estTheta v\<rparr>" by simp
  show ?thesis
    unfolding a_api_get_result_def a_get_result_def Let_def
    by (auto split: sum.splits prod.splits intro: same se exI)
qed

lemma sel_cases:
  assumes "static env quizAPI v" and "a_get_selector v = Inr sel"
  shows "(questionSelector quizAPI = ''maxInfoSelector'' \<and> sel = MaxInfoSelector)
       \<or> (questionSelector quizAPI = ''linearSelector''
          \<and> sel = LinearSelector (map int [0..<Suc (length (questions quizAPI))]))"
  using assms
  by (auto simp: static_def a_get_selector_def get_indices_loop_0 split: if_splits)

lemma py_index_Inr: "py_index xs i = Inr y \<Longrightarrow> 0 \<le> i \<Longrightarrow> i < int (length xs)"
  by (auto simp: py_index_def Let_def split: if_splits)

lemma prefix_bound:
  assumes "A = map int [0..<length A]" and "\<forall>i\<in>set A. i < int n"
  shows "length A \<le> n"
proof (cases "A = []")
  case True
  then show ?thesis by simp
next
  case False
  then have "0 < length A" by simp
  then have "int (length A - 1) \<in> set (map int [0..<length A])" by auto
  with assms have "int (length A - 1) < int n" by metis
  with \<open>0 < length A\<close> show ?thesis by linarith
qed

lemma select_new:
  assumes inv: "adm_inv env quizAPI v" and sel: "a_get_selector v = Inr sel"
    and pick: "select sel (map item_of (v_questions v)) (v_administeredItems v) theta = Some i"
  shows "i \<notin> set (v_administeredItems v) \<and> 0 \<le> i
         \<and> (questionSelector quizAPI = ''linearSelector'' \<longrightarrow> i = int (length (v_administeredItems v)))"
proof -
  from inv have st: "static env quizAPI v" by (simp add: adm_inv_def)
  from sel_cases [OF st sel] show ?thesis
  proof (elim disjE conjE)
    assume "questionSelector quizAPI = ''maxInfoSelector''" "sel = MaxInfoSelector"
    with pick MaxInfoSelector_select_new show ?thesis by auto
  next
    assume lin: "questionSelector quizAPI = ''linearSelector''"
      and s: "sel = LinearSelector (map int [0..<Suc (length (questions quizAPI))])"
    let ?k = "length (v_administeredItems v)"
    from inv lin have A: "v_administeredItems v = map int [0..<?k]"
      and rng: "\<forall>i\<in>set (v_administeredItems v). i < int (length (questions quizAPI))"
      by (simp_all add: adm_inv_def)
    have "?k \<le> length (questions quizAPI)"
      by (rule prefix_bound [OF A rng])
    from LinearSelector_select_prefix [OF this] pick s A
    have "i = int ?k" by (metis option.inject select.simps(2))
    moreover have "int ?k \<notin> set (map int [0..<?k])" by auto
    ultimately show ?thesis using A by simp
  qed
qed

lemma adm_inv_push:
  assumes inv: "adm_inv env quizAPI v" and sel: "a_get_selector v = Inr sel"
    and pick: "select sel (map item_of (v_questions v)) (v_administeredItems v) theta = Some i"
    and look: "py_index (map q_id (v_questions v)) i = Inr qid"
    and v': "static env quizAPI v'" "v_administeredItems v' = v_administeredItems v @ [i]"
  shows "adm_inv env quizAPI v'"
proof -
  from select_new [OF inv sel pick] have new: "i \<notin> set (v_administeredItems v)" "0 \<le> i"
    and lin: "questionSelector quizAPI = ''linearSelector'' \<Longrightarrow> i = int (length (v_administeredItems v))"
    by auto
  from inv have "v_questions v = questions quizAPI" by (simp add: adm_inv_def static_def)
  with py_index_Inr [OF look new(2)] have "i < int (length (questions quizAPI))" by simp
  with inv new lin v' show ?thesis
    by (auto simp: adm_inv_def)
qed

lemma adm_inv_frame:
  assumes "adm_inv env quizAPI v" and "static env quizAPI v'"
    and "v_administeredItems v' = v_administeredItems v"
  shows "adm_inv env quizAPI v'"
  using assms by (simp add: adm_inv_def)

lemma static_upd [simp]:
  "static env quizAPI (v\<lparr>v_itemIndex := a\<rparr>) = static env quizAPI v"
  "static env quizAPI (v\<lparr>v_administeredItems := b\<rparr>) = static env quizAPI v"
  "static env quizAPI (v\<lparr>v_responses := c\<rparr>) = static env quizAPI v"
  "static env quizAPI (v\<lparr>v_estTheta := d\<rparr>) = static env quizAPI v"
  "static env quizAPI (v\<lparr>v_standardErrorOfEstimation := e\<rparr>) = static env quizAPI v"
  "static env quizAPI (v\<lparr>v_quizFinished := f\<rparr>) = static env quizAPI v"
  by (simp_all add: static_def)

lemma adm_inv_step:
  assumes inv: "adm_inv env quizAPI v" and step: "a_step env v v'"
  shows "adm_inv env quizAPI v'"
proof -
  from inv have st: "static env quizAPI v" by (simp add: adm_inv_def)
  from step show ?thesis
  proof cases
    case same
    with inv show ?thesis by simp
  next
    case (first sel i qid)
    from first(3) have pick: "select sel (map item_of (v_questions v)) (v_administeredItems v) (v_estTheta v) = Some i"
      using first by simp
    show ?thesis
      by (rule adm_inv_push [OF inv first(4) pick first(6)]) (use first st in simp_all)
  next
    case (delivered y est S t sel i qid)
    show ?thesis
      by (rule adm_inv_push [OF inv delivered(10) delivered(11) delivered(12)])
         (use delivered st in simp_all)
  qed (rule adm_inv_frame [OF inv], use st in simp_all)+
qed

lemma adm_inv_init: "creatable quizAPI \<Longrightarrow> adm_inv env quizAPI (init_view env quizAPI)"
  by (simp add: adm_inv_def static_init) (simp add: init_view_def)

lemma adm_inv_result:
  "adm_inv env quizAPI v \<Longrightarrow> adm_inv env quizAPI (fst (a_api_get_result q v))"
proof -
  assume inv: "adm_inv env quizAPI v"
  from a_result_effect [of q v] obtain se theta where
    "fst (a_api_get_result q v) = v\<lparr>v_standardErrorOfEstimation := se, v_estTheta := theta\<rparr>"
    by blast
  with inv show ?thesis
    by (simp add: adm_inv_def)
qed

subsection \<open>Linear sessions\<close>

lemma linear_static:
  assumes "static env quizAPI v" and "questionSelector quizAPI = ''linearSelector''"
  shows "v_maxNumberOfQuestions v = int (length (questions quizAPI))"
    and "v_minMeasurementAccuracy v = 0"
  using assms by (simp_all add: static_def init_view_def)

lemma estimator_DE:
  "a_get_estimator v = Inr est \<Longrightarrow> v_competencyEstimator v = ''differentialEvolutionEstimator''"
  by (simp add: a_get_estimator_def split: if_splits)

lemma estimator_found:
  assumes "static env quizAPI v" and "creatable quizAPI"
    and "competencyEstimator quizAPI = ''differentialEvolutionEstimator''"
  shows "\<exists>est. a_get_estimator v = Inr est"
proof -
  from assms(2,3) obtain x xs where "questions quizAPI = x # xs"
    by (cases "questions quizAPI") (auto simp: creatable_def)
  with assms(1,3) show ?thesis
    by (simp add: a_get_estimator_def static_def init_view_def)
qed

lemma take_items_adm:
  assumes "adm_inv env quizAPI v"
  shows "\<exists>S. take_items (map item_of (v_questions v)) (v_administeredItems v) = Inr S
             \<and> length S = length (v_administeredItems v)"
proof -
  from assms have "\<forall>i\<in>set (v_administeredItems v). 0 \<le> i \<and> i < int (length (map item_of (v_questions v)))"
    by (simp add: adm_inv_def static_def)
  from take_items_valid [OF this] show ?thesis by simp
qed

lemma py_index_valid: "0 \<le> i \<Longrightarrow> i < int (length xs) \<Longrightarrow> py_index xs i = Inr (xs ! nat i)"
  by (simp add: py_index_def)

lemma linear_count:
  assumes inv: "adm_inv env quizAPI v" and lin: "questionSelector quizAPI = ''linearSelector''"
  shows "length (v_administeredItems v) \<le> length (questions quizAPI)"
    and "v_administeredItems v = map int [0..<length (v_administeredItems v)]"
proof -
  from inv lin show A: "v_administeredItems v = map int [0..<length (v_administeredItems v)]"
    by (simp add: adm_inv_def)
  from inv have "\<forall>i\<in>set (v_administeredItems v). i < int (length (questions quizAPI))"
    by (simp add: adm_inv_def)
  from prefix_bound [OF A this] show "length (v_administeredItems v) \<le> length (questions quizAPI)" .
qed

lemma linear_select:
  assumes inv: "adm_inv env quizAPI v" and lin: "questionSelector quizAPI = ''linearSelector''"
    and sel: "a_get_selector v = Inr sel"
  shows "select sel items (v_administeredItems v) theta = Some (int (length (v_administeredItems v)))"
proof -
  from inv have st: "static env quizAPI v" by (simp add: adm_inv_def)
  from sel_cases [OF st sel] lin
  have s: "sel = LinearSelector (map int [0..<Suc (length (questions quizAPI))])"
    by auto
  from LinearSelector_select_prefix [OF linear_count(1) [OF inv lin]] linear_count(2) [OF inv lin]
  show ?thesis unfolding s by simp
qed

lemma lin_inv_step:
  assumes inv: "lin_inv env quizAPI v" and step: "a_step env v v'"
    and lin: "questionSelector quizAPI = ''linearSelector''"
  shows "lin_inv env quizAPI v'"
proof -
  let ?N = "length (questions quizAPI)"
  let ?A = "v_administeredItems v"
  let ?R = "v_responses v"
  from inv have adm: "adm_inv env quizAPI v" by (simp add: lin_inv_def)
  then have st: "static env quizAPI v" and cr: "creatable quizAPI" by (simp_all add: adm_inv_def)
  have adm': "adm_inv env quizAPI v'" by (rule adm_inv_step [OF adm step])
  note count = linear_count [OF adm lin]
  from st have est_name: "v_competencyEstimator v = competencyEstimator quizAPI"
    and qs: "v_questions v = questions quizAPI" by (simp_all add: static_def)
  from step show ?thesis
  proof cases
    case same
    with inv show ?thesis by simp
  next
    case (picked sel i e)
    from linear_select [OF adm lin picked(4), of "map item_of (v_questions v)" "v_estTheta v"] picked
    have "i = 0" by simp
    with inv adm' picked show ?thesis
      by (auto simp: lin_inv_def)
  next
    case (first sel i qid)
    from linear_select [OF adm lin first(4), of "map item_of (v_questions v)" "v_estTheta v"] first
    have i: "i = 0" by simp
    from py_index_Inr [OF first(6)] i qs have "0 < ?N" by simp
    with inv adm' first i show ?thesis
      by (auto simp: lin_inv_def)
  next
    case (est_failed y e)
    have "competencyEstimator quizAPI \<noteq> ''differentialEvolutionEstimator''"
    proof
      assume "competencyEstimator quizAPI = ''differentialEvolutionEstimator''"
      from estimator_found [OF st cr this] est_failed(6) show False by auto
    qed
    with inv adm' est_failed show ?thesis
      by (auto simp: lin_inv_def)
  next
    case (items_failed y est e t)
    with take_items_adm [OF adm] show ?thesis by auto
  next
    case (finished y est S t)
    from take_items_adm [OF adm] finished(7) have len: "length S = length ?A" by auto
    from linear_static [OF st lin] finished(8) see_positive [of t S]
    have "int ?N \<le> int (length S)"
      by (simp add: MinErrorStopper_stop_def MaxItemStopper_stop_def)
    with len count(1) have A: "length ?A = ?N" by simp
    from estimator_DE [OF finished(6)] est_name
    have "competencyEstimator quizAPI = ''differentialEvolutionEstimator''" by simp
    with inv finished(2,3) have "length ?R + 1 = length ?A"
      by (auto simp: lin_inv_def)
    with inv adm' finished A show ?thesis
      by (auto simp: lin_inv_def)
  next
    case (exhausted y est S t sel)
    with linear_select [OF adm lin exhausted(10), of "map item_of (v_questions v)" "Fin t"]
    show ?thesis by simp
  next
    case (lookup_failed y est S t sel i e)
    from take_items_adm [OF adm] lookup_failed(7) have len: "length S = length ?A" by auto
    from linear_select [OF adm lin lookup_failed(10), of "map item_of (v_questions v)" "Fin t"]
      lookup_failed(11)
    have i: "i = int (length ?A)" by simp
    from linear_static(1) [OF st lin] lookup_failed(9) len have "length ?A < ?N"
      by (simp add: MaxItemStopper_stop_def)
    with i qs have "py_index (map q_id (v_questions v)) i = Inr (map q_id (v_questions v) ! nat i)"
      by (intro py_index_valid) simp_all
    with lookup_failed(12) show ?thesis by simp
  next
    case (delivered y est S t sel i qid)
    from linear_select [OF adm lin delivered(10), of "map item_of (v_questions v)" "Fin t"]
      delivered(11)
    have i: "i = int (length ?A)" by simp
    from py_index_Inr [OF delivered(12)] i qs have iN: "i < int ?N" by simp
    from estimator_DE [OF delivered(6)] est_name
    have "competencyEstimator quizAPI = ''differentialEvolutionEstimator''" by simp
    with inv delivered(2,3) have "length ?R + 1 = length ?A"
      by (auto simp: lin_inv_def)
    with inv adm' delivered i iN show ?thesis
      by (auto simp: lin_inv_def)
  qed
qed

lemma lin_inv_init: "creatable quizAPI \<Longrightarrow> lin_inv env quizAPI (init_view env quizAPI)"
  by (simp add: lin_inv_def adm_inv_init) (simp add: init_view_def)

lemma lin_inv_result:
  "lin_inv env quizAPI v \<Longrightarrow> lin_inv env quizAPI (fst (a_api_get_result q v))"
proof -
  assume inv: "lin_inv env quizAPI v"
  from a_result_effect [of q v] obtain se theta where
    eq: "fst (a_api_get_result q v) = v\<lparr>v_standardErrorOfEstimation := se, v_estTheta := theta\<rparr>"
    by blast
  from inv have "adm_inv env quizAPI (fst (a_api_get_result q v))"
    by (simp add: lin_inv_def adm_inv_result)
  with inv show ?thesis
    unfolding eq by (simp add: lin_inv_def)
qed

lemma reachable_linear:
  assumes "reachable env quizAPI q r" and lin: "questionSelector quizAPI = ''linearSelector''"
  shows "\<exists>v. holds r q v \<and> registered r q \<and> lin_inv env quizAPI v"
proof (rule reachable_view [OF assms(1)])
  show "lin_inv env quizAPI (init_view env quizAPI)"
    if "\<not> (competencyEstimator quizAPI = ''differentialEvolutionEstimator'' \<and> questions quizAPI = [])"
    using that by (intro lin_inv_init) (simp add: creatable_def)
  show "lin_inv env quizAPI (fst (a_api_get_next_question env q v x))" if "lin_inv env quizAPI v" for v x
    by (rule lin_inv_step [OF that a_next_step lin])
  show "lin_inv env quizAPI (fst (a_api_get_result q v))" if "lin_inv env quizAPI v" for v
    by (rule lin_inv_result [OF that])
qed

lemma reachable_adm:
  assumes "reachable env quizAPI q r"
  shows "\<exists>v. holds r q v \<and> registered r q \<and> adm_inv env quizAPI v"
proof (rule reachable_view [OF assms(1)])
  show "adm_inv env quizAPI (init_view env quizAPI)"
    if "\<not> (competencyEstimator quizAPI = ''differentialEvolutionEstimator'' \<and> questions quizAPI = [])"
    using that by (intro adm_inv_init) (simp add: creatable_def)
  show "adm_inv env quizAPI (fst (a_api_get_next_question env q v x))" if "adm_inv env quizAPI v" for v x
    by (rule adm_inv_step [OF that a_next_step])
  show "adm_inv env quizAPI (fst (a_api_get_result q v))" if "adm_inv env quizAPI v" for v
    by (rule adm_inv_result [OF that])
qed

subsection \<open>What a successful call has done\<close>

lemma get_indices_holds:
  "holds r q v \<Longrightarrow> get_indices r q = Inr (map int [0..<Suc (length (v_questions v))])"
  by (simp add: get_indices_def get_items_holds get_indices_loop_0)

lemma r_get_itemIndex_holds:
  "holds r q v \<Longrightarrow> r_get r (get_rPrefix q ''itemIndex'') = Inr (map_option RInt (v_itemIndex v))"
  by (simp add: holds_def r_get_sess)

lemma mapM_correct_flags:
  "mapM (\<lambda>j. ebind (py_float (Some j)) (\<lambda>x. if x = Fin 1 then Inr True else Inr False)) xs
     = ebind (mapM (\<lambda>j. py_float (Some j)) xs) (\<lambda>fs. Inr (map (\<lambda>f. f = Fin 1) fs))"
  by (induction xs) (auto simp: ebind_def split: sum.splits)

lemma get_responses_flags:
  "get_responses r qId
     = ebind (get_responses_as_float r qId) (\<lambda>fs. Inr (map (\<lambda>f. f = Fin 1) fs))"
  by (cases "r_lrange r (get_rPrefix qId ''responses'')")
     (simp_all add: get_responses_def get_responses_as_float_def mapM_correct_flags)

lemma a_deliver_success:
  assumes "a_deliver q v chosen se theta fin = (v', Inr nq)"
  shows "\<exists>i. chosen = Some i
           \<and> v' = v\<lparr>v_itemIndex := Some i, v_administeredItems := v_administeredItems v @ [i]\<rparr>
           \<and> questionId nq \<noteq> None \<and> measurementAccuracy nq = se
           \<and> currentCompetency nq = theta \<and> quizFinished nq = fin"
  using assms by (auto simp: a_deliver_def split: option.splits sum.splits)

lemma a_record_success:
  assumes "a_record_response env q v sel y = (v', Inr nq)"
  shows "\<exists>est S t. a_get_estimator v = Inr est
           \<and> take_items (map item_of (v_questions v)) (v_administeredItems v) = Inr S
           \<and> t = estimate env est (map item_of (v_questions v)) (v_administeredItems v)
                   (map (\<lambda>x. x = 1) (v_responses v @ [y])) (v_estTheta v)
           \<and> currentCompetency nq = Fin t \<and> measurementAccuracy nq = see t S
           \<and> quizFinished nq = (MinErrorStopper_stop (Fin (v_minMeasurementAccuracy v)) S t
                                  \<or> MaxItemStopper_stop (v_maxNumberOfQuestions v) S)
           \<and> v_responses v' = v_responses v @ [y]
           \<and> v_quizFinished v' = quizFinished nq
           \<and> (if quizFinished nq
               then v_administeredItems v' = v_administeredItems v \<and> questionId nq = None
               else (\<exists>i. v_administeredItems v' = v_administeredItems v @ [i])
                    \<and> questionId nq \<noteq> None)"
proof -
  from assms obtain est where est: "a_get_estimator v = Inr est"
    by (cases "a_get_estimator v") (auto simp: a_record_response_def Let_def)
  define t where "t = estimate env est (map item_of (v_questions v)) (v_administeredItems v)
                   (map (\<lambda>x. x = 1) (v_responses v @ [y])) (v_estTheta v)"
  from assms est obtain S where S: "take_items (map item_of (v_questions v)) (v_administeredItems v) = Inr S"
    by (cases "take_items (map item_of (v_questions v)) (v_administeredItems v)")
       (auto simp: a_record_response_def Let_def)
  define fin where "fin = (MinErrorStopper_stop (Fin (v_minMeasurementAccuracy v)) S t
                                  \<or> MaxItemStopper_stop (v_maxNumberOfQuestions v) S)"
  let ?v4 = "v\<lparr>v_responses := v_responses v @ [y], v_estTheta := Fin t,
               v_standardErrorOfEstimation := see t S, v_quizFinished := fin\<rparr>"
  have eq: "a_record_response env q v sel y =
          (if fin then
             (?v4, Inr \<lparr>n_quizId = q, questionId = None, measurementAccuracy = see t S,
                       currentCompetency = Fin t, quizFinished = fin\<rparr>)
           else a_deliver q ?v4
                  (select sel (map item_of (v_questions v)) (v_administeredItems v) (Fin t))
                  (see t S) (Fin t) fin)"
    using est S by (simp add: a_record_response_def Let_def t_def fin_def)
  show ?thesis
  proof (cases fin)
    case True
    with assms eq have "v' = ?v4"
      "nq = \<lparr>n_quizId = q, questionId = None, measurementAccuracy = see t S,
                       currentCompetency = Fin t, quizFinished = fin\<rparr>"
      by simp_all
    with est S True show ?thesis
      by (simp add: t_def fin_def)
  next
    case False
    with assms eq have "a_deliver q ?v4
                  (select sel (map item_of (v_questions v)) (v_administeredItems v) (Fin t))
                  (see t S) (Fin t) fin = (v', Inr nq)" by simp
    from a_deliver_success [OF this] est S False show ?thesis
      by (auto simp: t_def fin_def)
  qed
qed

lemma question_rebuilt:
  "\<lparr>q_id = q_id p, discrimination = discrimination p, difficulty = difficulty p,
    pseudoGuessing = pseudoGuessing p, upperAsymptote = upperAsymptote p\<rparr> = p"
  by simp

lemma a_result_loop_sum:
  assumes "\<forall>i\<in>set A. 0 \<le> i \<and> i < int (length qs)" and "k + length A \<le> length R"
  shows "a_result_loop qs (map Fin R) A (adm, s, Fin t, int k)
         = Inr (adm @ map (\<lambda>i. qs ! nat i) A,
                s + achievable_points qs A,
                Fin (t + weighted_points qs A (drop k R)),
                int (k + length A))"
  using assms
proof (induction A arbitrary: adm s t k)
  case Nil
  then show ?case by (simp add: achievable_points_def weighted_points_def)
next
  case (Cons i A)
  from Cons.prems have i: "0 \<le> i" "i < int (length qs)" and k: "k < length R"
    and rest: "\<forall>i\<in>set A. 0 \<le> i \<and> i < int (length qs)" "Suc k + length A \<le> length R"
    by simp_all
  have dr: "drop k R = R ! k # drop (Suc k) R"
    using k by (simp add: Cons_nth_drop_Suc)
  have 1: "py_index (map item_of qs) i = Inr (item_of (qs ! nat i))"
    using i by (simp add: py_index_def)
  have 2: "py_index (map q_id qs) i = Inr (q_id (qs ! nat i))"
    using i by (simp add: py_index_def)
  have 3: "py_index (map Fin R) (int k) = Inr (Fin (R ! k))"
    using k by (simp add: py_index_def)
  have 4: "1 + int k = int (Suc k)" by simp
  show ?case
    using Cons.IH [OF rest, of "adm @ [qs ! nat i]" "s + difficulty (qs ! nat i)"
        "t + difficulty (qs ! nat i) * R ! k"]
    by (simp add: 1 2 3 item_of_def question_rebuilt add.commute [of _ 1] 4
        achievable_points_def weighted_points_def dr algebra_simps del: of_nat_Suc)
qed

lemma create_quiz_result:
  assumes "create_quiz env r0 quizAPI q = (r, Inr quizAPI')"
  shows "quizAPI' = snd (init_selector r0 (quizAPI\<lparr>quizId := q\<rparr>))"
proof -
  let ?q1 = "quizAPI\<lparr>quizId := q\<rparr>"
  have sel: "snd (init_selector ra qa) = snd (init_selector rb qa)" for ra rb qa
    by (simp add: init_selector_def Let_def)
  define r1 where "r1 = r_mset r0
            [(get_rPrefix (quizId ?q1) ''maxNumberOfQuestions'', RInt (maxNumberOfQuestions ?q1)),
             (get_rPrefix (quizId ?q1) ''minMeasurementAccuracy'',
                RFloat (Fin (minMeasurementAccuracy ?q1))),
             (get_rPrefix (quizId ?q1) ''inputProficiencyLevel'',
                RFloat (Fin (inputProficiencyLevel ?q1))),
             (get_rPrefix (quizId ?q1) ''questionSelector'', RStr (questionSelector ?q1)),
             (get_rPrefix (quizId ?q1) ''competencyEstimator'', RStr (competencyEstimator ?q1)),
             (get_rPrefix (quizId ?q1) ''standardErrorOfEstimation'',
                RFloat (default_standardErrorOfEstimation env)),
             (get_rPrefix (quizId ?q1) ''quizFinished'', RStr (py_str_bool False))]"
  obtain r2 s2 where sq: "store_questions r1 (get_rPrefix (quizId ?q1) ''questions'') (questions ?q1) = (r2, s2)"
    by (cases "store_questions r1 (get_rPrefix (quizId ?q1) ''questions'') (questions ?q1)")
  obtain r4 s4 where ie: "init_estimator (init_initializer env r2 ?q1) ?q1 = (r4, s4)"
    by (cases "init_estimator (init_initializer env r2 ?q1) ?q1")
  obtain r5 q5 where isel: "init_selector r4 ?q1 = (r5, q5)"
    by (cases "init_selector r4 ?q1")
  have unfolded: "create_quiz env r0 quizAPI q =
      (case s2 of Inl e \<Rightarrow> (r2, Inl e)
       | Inr u \<Rightarrow> (case s4 of Inl e \<Rightarrow> (r4, Inl e)
                   | Inr u' \<Rightarrow> sbind r5 (r_rpush r5 (Global ''quizIds'') (RInt (quizId q5)))
                            (\<lambda>r6. (r6, Inr q5))))"
    unfolding create_quiz_def Let_def r1_def [symmetric] sq
    by (simp add: ie isel split: sum.splits)
  from assms have "quizAPI' = q5"
    unfolding unfolded by (auto simp: sbind_def split: sum.splits)
  with isel sel [of r4 ?q1 r0] show ?thesis by simp
qed

lemma a_next_linear_result:
  assumes inv: "lin_inv env quizAPI v" and lin: "questionSelector quizAPI = ''linearSelector''"
    and de: "competencyEstimator quizAPI = ''differentialEvolutionEstimator''"
    and nf: "\<not> v_quizFinished v" and ne: "v_administeredItems v \<noteq> []"
    and x: "0 \<le> x" "x \<le> 1"
  shows "\<exists>nq. snd (a_api_get_next_question env q v (Some x)) = Inr nq
           \<and> quizFinished nq = (length (v_administeredItems v) = length (questions quizAPI))
           \<and> (questionId nq = None) = (length (v_administeredItems v) = length (questions quizAPI))"
proof -
  let ?A = "v_administeredItems v"
  let ?N = "length (questions quizAPI)"
  let ?items = "map item_of (v_questions v)"
  from inv have adm: "adm_inv env quizAPI v" by (simp add: lin_inv_def)
  then have st: "static env quizAPI v" and cr: "creatable quizAPI" by (simp_all add: adm_inv_def)
  from st have qs: "v_questions v = questions quizAPI" by (simp add: static_def)
  from st lin obtain sel where sel: "a_get_selector v = Inr sel"
    by (auto simp: a_get_selector_def static_def)
  from estimator_found [OF st cr de] obtain est where est: "a_get_estimator v = Inr est" by blast
  from take_items_adm [OF adm] obtain S where
    S: "take_items ?items ?A = Inr S" and len: "length S = length ?A" by blast
  define t where "t = estimate env est ?items ?A (map (\<lambda>x. x = 1) (v_responses v @ [x])) (v_estTheta v)"
  have minerr: "\<not> MinErrorStopper_stop (Fin (v_minMeasurementAccuracy v)) S t"
    using linear_static(2) [OF st lin] see_positive [of t S]
    by (simp add: MinErrorStopper_stop_def)
  have maxit: "MaxItemStopper_stop (v_maxNumberOfQuestions v) S = (length ?A = ?N)"
    using linear_static(1) [OF st lin] len linear_count(1) [OF adm lin]
    by (auto simp: MaxItemStopper_stop_def)
  show ?thesis
  proof (cases "length ?A = ?N")
    case True
    with nf sel ne x est S minerr maxit show ?thesis
      by (simp add: a_api_get_next_question_def a_get_next_question_def a_record_response_def
          Let_def t_def)
  next
    case False
    with linear_count(1) [OF adm lin] have lt: "length ?A < ?N" by simp
    have pick: "select sel ?items ?A (Fin t) = Some (int (length ?A))"
      by (rule linear_select [OF adm lin sel])
    have look: "py_index (map q_id (v_questions v)) (int (length ?A))
                  = Inr (map q_id (v_questions v) ! nat (int (length ?A)))"
      using lt qs by (intro py_index_valid) simp_all
    from False nf sel ne x est S minerr maxit pick look show ?thesis
      by (simp add: a_api_get_next_question_def a_get_next_question_def a_record_response_def
          Let_def t_def a_deliver_def)
  qed
qed

lemma a_next_success:
  assumes "a_api_get_next_question env q v x = (v', Inr nq)"
  shows "\<not> v_quizFinished v
         \<and> (if v_administeredItems v = []
             then (\<exists>i. v' = v\<lparr>v_itemIndex := Some i, v_administeredItems := v_administeredItems v @ [i]\<rparr>)
             else (\<exists>y sel. x = Some y \<and> a_record_response env q v sel y = (v', Inr nq)))"
  using assms
  by (auto simp: a_api_get_next_question_def a_get_next_question_def
      split: if_splits sum.splits option.splits dest!: a_deliver_success)

subsection \<open>Counting the responses\<close>

lemma cnt_inv_step:
  assumes inv: "cnt_inv env quizAPI v"
    and out: "a_api_get_next_question env q v x = (v', Inr nq)"
  shows "cnt_inv env quizAPI v'"
proof -
  from inv have adm: "adm_inv env quizAPI v" by (simp add: cnt_inv_def)
  have "a_step env v (fst (a_api_get_next_question env q v x))" by (rule a_next_step)
  with out have "a_step env v v'" by simp
  from adm_inv_step [OF adm this] have adm': "adm_inv env quizAPI v'" .
  from adm adm' have mx: "v_maxNumberOfQuestions v' = v_maxNumberOfQuestions v"
    by (simp add: adm_inv_def static_def)
  from a_next_success [OF out] have nf: "\<not> v_quizFinished v" by simp
  show ?thesis
  proof (cases "v_administeredItems v = []")
    case True
    with a_next_success [OF out] obtain i where
      v': "v' = v\<lparr>v_itemIndex := Some i, v_administeredItems := v_administeredItems v @ [i]\<rparr>"
      by auto
    from inv True have "v_responses v = []" by (auto simp: cnt_inv_def)
    with adm' nf True show ?thesis
      unfolding v' by (simp add: cnt_inv_def)
  next
    case False
    with a_next_success [OF out] obtain y sel where
      rec: "a_record_response env q v sel y = (v', Inr nq)" by auto
    from a_record_success [OF rec] obtain S where
      S: "take_items (map item_of (v_questions v)) (v_administeredItems v) = Inr S"
      and R': "v_responses v' = v_responses v @ [y]"
      and fin': "v_quizFinished v' = quizFinished nq"
      and A': "if quizFinished nq then v_administeredItems v' = v_administeredItems v
               else (\<exists>i. v_administeredItems v' = v_administeredItems v @ [i])"
      and stop: "quizFinished nq \<or> \<not> MaxItemStopper_stop (v_maxNumberOfQuestions v) S"
      by (auto split: if_splits)
    from take_items_length [OF S] have len: "length S = length (v_administeredItems v)" .
    from inv nf False have old: "length (v_administeredItems v) = length (v_responses v) + 1"
      by (auto simp: cnt_inv_def)
    show ?thesis
    proof (cases "quizFinished nq")
      case True
      with A' fin' R' old adm' False show ?thesis
        by (simp add: cnt_inv_def)
    next
      case nfin: False
      with A' obtain i where Ai: "v_administeredItems v' = v_administeredItems v @ [i]" by auto
      from nfin stop len have "\<not> v_maxNumberOfQuestions v \<le> int (length (v_administeredItems v))"
        by (simp add: MaxItemStopper_stop_def)
      with Ai fin' R' old adm' nfin mx show ?thesis
        by (simp add: cnt_inv_def)
    qed
  qed
qed

lemma cnt_inv_init: "creatable quizAPI \<Longrightarrow> cnt_inv env quizAPI (init_view env quizAPI)"
  by (simp add: cnt_inv_def adm_inv_init) (simp add: init_view_def)

lemma cnt_inv_result:
  "cnt_inv env quizAPI v \<Longrightarrow> cnt_inv env quizAPI (fst (a_api_get_result q v))"
proof -
  assume inv: "cnt_inv env quizAPI v"
  from a_result_effect [of q v] obtain se theta where
    eq: "fst (a_api_get_result q v) = v\<lparr>v_standardErrorOfEstimation := se, v_estTheta := theta\<rparr>"
    by blast
  from inv have "adm_inv env quizAPI (fst (a_api_get_result q v))"
    by (simp add: cnt_inv_def adm_inv_result)
  with inv show ?thesis
    unfolding eq by (simp add: cnt_inv_def)
qed

lemma served_view:
  assumes "served env quizAPI q r"
  shows "\<exists>v. holds r q v \<and> registered r q \<and> cnt_inv env quizAPI v"
  using assms
proof (induction rule: served.induct)
  case (opened r0 r quizAPI')
  from created_view [OF opened] have "holds r q (init_view env quizAPI)" "registered r q"
    "creatable quizAPI"
    by (simp_all add: creatable_def)
  with cnt_inv_init [of quizAPI env] show ?case by blast
next
  case (answered r x r' nq)
  then obtain v where v: "holds r q v" "registered r q" "cnt_inv env quizAPI v" by blast
  from api_get_next_question_sim [OF v(1,2), of env x] answered(2)
  have h: "holds r' q (fst (a_api_get_next_question env q v x))" and reg: "registered r' q"
    and res: "snd (a_api_get_next_question env q v x) = Inr nq"
    using v(2) by (simp_all add: sim_def registered_def)
  from res have "a_api_get_next_question env q v x = (fst (a_api_get_next_question env q v x), Inr nq)"
    by (simp add: prod_eq_iff)
  from cnt_inv_step [OF v(3) this] h reg show ?case by blast
next
  case (reported r r' res')
  then obtain v where v: "holds r q v" "registered r q" "cnt_inv env quizAPI v" by blast
  from api_get_result_sim [OF v(1,2)] reported(2)
  have "holds r' q (fst (a_api_get_result q v))" "registered r' q"
    using v(2) by (simp_all add: sim_def registered_def)
  with cnt_inv_result [OF v(3)] show ?case by blast
qed

subsection \<open>Creation with an empty bank, and deletion\<close>

lemma create_quiz_empty_bank:
  assumes fresh: "sess r0 q = (\<lambda>name. None)"
    and de: "competencyEstimator quizAPI = ''differentialEvolutionEstimator''"
    and empty: "questions quizAPI = []"
  shows "create_quiz env r0 quizAPI q = (prepared env r0 (quizAPI\<lparr>quizId := q\<rparr>), Inl ValueError)"
proof -
  let ?q1 = "quizAPI\<lparr>quizId := q\<rparr>"
  let ?r3 = "prepared env r0 ?q1"
  let ?v3 = "(init_view env quizAPI)\<lparr>v_maxNumberOfQuestions := maxNumberOfQuestions quizAPI,
                  v_minMeasurementAccuracy := minMeasurementAccuracy quizAPI,
                  v_minDiff := None, v_maxDiff := None\<rparr>"
  have h3: "holds ?r3 q ?v3"
    unfolding holds_def by (rule sess_prepared [OF fresh])
  have qs: "v_questions ?v3 = questions quizAPI"
    by (simp add: init_view_def)
  note est = init_estimator_holds [OF h3, of ?q1, simplified qs]
  note cq = create_quiz_prepared [OF fresh, of env quizAPI, unfolded Let_def]
  from est cq de empty show ?thesis by simp
qed

lemma filter_RInt: "filter (\<lambda>x. x \<noteq> RInt q) (map RInt ids) = map RInt (filter (\<lambda>i. i \<noteq> q) ids)"
  by (induction ids) auto

lemma delete_quiz_registered:
  assumes "registered r q"
  shows "snd (api_delete_quiz r q) = Inr ()"
    and "quizIdExists (fst (api_delete_quiz r q)) q = Inr False"
    and "sess (fst (api_delete_quiz r q)) q ''maxNumberOfQuestions'' = None"
proof -
  from assms obtain ids where
    ids: "r (Global ''quizIds'') = Some (RList (map RInt ids))" and "q \<in> set ids"
    by (auto simp: registered_def)
  have found: "quizIdExists r q = Inr True"
    by (rule quizIdExists_registered [OF assms])
  let ?ys = "map RInt (filter (\<lambda>i. i \<noteq> q) ids)"
  have loop: "quizIdExists_loop ?ys q = Inr False"
    by (simp add: quizIdExists_loop_ints)
  show "snd (api_delete_quiz r q) = Inr ()"
    using found ids
    by (simp add: api_delete_quiz_def delete_quiz_def r_delete_def r_lrem_def Let_def
        filter_RInt)
  show "quizIdExists (fst (api_delete_quiz r q)) q = Inr False"
    using found ids loop
    by (simp add: api_delete_quiz_def delete_quiz_def r_delete_def r_lrem_def Let_def
        filter_RInt quizIdExists_def r_lrange_def)
  show "sess (fst (api_delete_quiz r q)) q ''maxNumberOfQuestions'' = None"
    using found ids
    by (simp add: api_delete_quiz_def delete_quiz_def r_delete_def r_lrem_def Let_def
        filter_RInt sess_def get_rPrefix_def)
qed

section \<open>The example sessions, step by step\<close>

lemma initial_empty: "initial (\<lambda>k. None) q"
  by (simp add: initial_def)

lemma created_total:
  assumes "initial r0 q" and "creatable quizAPI"
  shows "\<exists>quizAPI'. api_create_quiz env r0 quizAPI q
           = (fst (api_create_quiz env r0 quizAPI q), Inr quizAPI')"
proof -
  from initial_registry [OF assms(1)] obtain ids where
    reg: "r0 (Global ''quizIds'') = rlist (map RInt ids)" by blast
  have "create_quiz env r0 quizAPI q = (fst (create_quiz env r0 quizAPI q), snd (create_quiz env r0 quizAPI q))"
    by simp
  from create_quiz_fresh [OF initial_fresh [OF assms(1)] reg this] assms(2)
  have "\<not> isl (snd (create_quiz env r0 quizAPI q))"
    by (auto simp: creatable_def split: if_splits)
  then obtain quizAPI' where "snd (create_quiz env r0 quizAPI q) = Inr quizAPI'"
    by (cases "snd (create_quiz env r0 quizAPI q)") auto
  then show ?thesis
    by (intro exI [of _ quizAPI']) (simp add: api_create_quiz_def prod_eq_iff)
qed

lemma sim_next:
  assumes "holds r q v" and "registered r q"
  shows "holds (fst (api_get_next_question env r \<lparr>a_quizId = q, isCorrect = x\<rparr>)) q
           (fst (a_api_get_next_question env q v x))"
    and "registered (fst (api_get_next_question env r \<lparr>a_quizId = q, isCorrect = x\<rparr>)) q"
    and "snd (api_get_next_question env r \<lparr>a_quizId = q, isCorrect = x\<rparr>)
           = snd (a_api_get_next_question env q v x)"
  using api_get_next_question_sim [OF assms, of env x] assms(2)
  by (simp_all add: sim_def registered_def)

lemma example_de [simp]:
  "differential_evolution example_env bnds items adm rv theta
     = real (length (filter (\<lambda>b. b) rv))"
  by (simp add: example_env_def)

subsection \<open>The linear session\<close>

lemma linear_quiz_creatable: "creatable linear_quiz"
  by (simp add: creatable_def linear_quiz_def)

lemma linear_quiz_fields:
  "questionSelector linear_quiz = ''linearSelector''"
  "competencyEstimator linear_quiz = ''differentialEvolutionEstimator''"
  "questions linear_quiz = [question_450, question_12]"
  by (simp_all add: linear_quiz_def)

lemma linear_r1_reachable: "reachable example_env linear_quiz 7 linear_r1"
proof -
  from created_total [OF initial_empty linear_quiz_creatable, where env = example_env and q = 7]
  obtain quizAPI' where "api_create_quiz example_env (\<lambda>k. None) linear_quiz 7 = (linear_r1, Inr quizAPI')"
    unfolding linear_r1_def by blast
  from reachable.created [OF initial_empty this] show ?thesis .
qed

lemma linear_r2_reachable: "reachable example_env linear_quiz 7 linear_r2"
  unfolding linear_r2_def
  by (rule reachable.asked [OF linear_r1_reachable]) (rule prod.collapse [symmetric])

lemma linear_r3_reachable: "reachable example_env linear_quiz 7 linear_r3"
  unfolding linear_r3_def
  by (rule reachable.asked [OF linear_r2_reachable]) (rule prod.collapse [symmetric])

lemma linear_r4_reachable: "reachable example_env linear_quiz 7 linear_r4"
  unfolding linear_r4_def
  by (rule reachable.asked [OF linear_r3_reachable]) (rule prod.collapse [symmetric])

lemma linear_v1_init: "init_view example_env linear_quiz = linear_v1"
  by (simp add: init_view_def linear_quiz_def example_env_def linear_v1_def question_450_def
      question_12_def)

lemma linear_r1_view: "holds linear_r1 7 linear_v1" "registered linear_r1 7"
proof -
  from created_total [OF initial_empty linear_quiz_creatable, where env = example_env and q = 7]
  obtain quizAPI' where "api_create_quiz example_env (\<lambda>k. None) linear_quiz 7 = (linear_r1, Inr quizAPI')"
    unfolding linear_r1_def by blast
  from created_view [OF initial_empty this]
  show "holds linear_r1 7 linear_v1" "registered linear_r1 7"
    by (simp_all add: linear_v1_init)
qed

lemma linear_step1:
  "a_api_get_next_question example_env 7 linear_v1 None =
     (linear_v1\<lparr>v_itemIndex := Some 0, v_administeredItems := [0]\<rparr>,
      Inr \<lparr>n_quizId = 7, questionId = Some 450, measurementAccuracy = PInf,
           currentCompetency = Fin 0, quizFinished = False\<rparr>)"
  by (simp add: a_api_get_next_question_def a_get_next_question_def a_get_selector_def
      linear_v1_def a_deliver_def get_indices_loop_0 LinearSelector_select_def py_index_def
      question_450_def question_12_def)

lemma linear_r2_view: "holds linear_r2 7 linear_v2" "registered linear_r2 7"
  using sim_next(1,2) [OF linear_r1_view, of example_env None]
  by (simp_all add: linear_r2_def linear_step1 linear_v2_def)

lemma linear_step2:
  "a_api_get_next_question example_env 7 linear_v2 (Some 1) =
     (linear_v3,
      Inr \<lparr>n_quizId = 7, questionId = Some 12,
           measurementAccuracy = see 1 [item_of question_450],
           currentCompetency = Fin 1, quizFinished = False\<rparr>)"
  by (simp add: a_api_get_next_question_def a_get_next_question_def a_get_selector_def
      a_record_response_def a_get_estimator_def Let_def take_items_def
      linear_v1_def linear_v2_def linear_v3_def a_deliver_def get_indices_loop_0
      LinearSelector_select_def py_index_def MinErrorStopper_stop_def see_positive
      MaxItemStopper_stop_def)
     (simp add: question_450_def question_12_def)

lemma linear_r3_view: "holds linear_r3 7 linear_v3" "registered linear_r3 7"
  using sim_next(1,2) [OF linear_r2_view, of example_env "Some 1"]
  by (simp_all add: linear_r3_def linear_step2)

lemma linear_step3:
  "a_api_get_next_question example_env 7 linear_v3 (Some 0) =
     (linear_v4,
      Inr \<lparr>n_quizId = 7, questionId = None,
           measurementAccuracy = see 1 [item_of question_450, item_of question_12],
           currentCompetency = Fin 1, quizFinished = True\<rparr>)"
  by (simp add: a_api_get_next_question_def a_get_next_question_def a_get_selector_def
      a_record_response_def a_get_estimator_def Let_def take_items_def
      linear_v1_def linear_v2_def linear_v3_def linear_v4_def py_index_def
      MinErrorStopper_stop_def see_positive MaxItemStopper_stop_def)

lemma linear_step3_half:
  "snd (a_api_get_next_question example_env 7 linear_v3 (Some (1 / 2))) =
      Inr \<lparr>n_quizId = 7, questionId = None,
           measurementAccuracy = see 1 [item_of question_450, item_of question_12],
           currentCompetency = Fin 1, quizFinished = True\<rparr>"
  by (simp add: a_api_get_next_question_def a_get_next_question_def a_get_selector_def
      a_record_response_def a_get_estimator_def Let_def take_items_def
      linear_v1_def linear_v2_def linear_v3_def linear_v4_def py_index_def
      MinErrorStopper_stop_def see_positive MaxItemStopper_stop_def)

lemma linear_step_invalid:
  "a_api_get_next_question example_env 7 linear_v2 None = (linear_v2, Inl UnboundLocalError)"
  "a_api_get_next_question example_env 7 linear_v2 (Some 2) = (linear_v2, Inl UnboundLocalError)"
  by (simp_all add: a_api_get_next_question_def a_get_next_question_def a_get_selector_def
      linear_v1_def linear_v2_def)

lemma linear_r4_view: "holds linear_r4 7 linear_v4" "registered linear_r4 7"
  using sim_next(1,2) [OF linear_r3_view, of example_env "Some 0"]
  by (simp_all add: linear_r4_def linear_step3)

lemmas linear_views = linear_v1_def linear_v2_def linear_v3_def linear_v4_def

lemma linear_r2_reads:
  "get_administeredItems linear_r2 7 = Inr [0]"
  "get_responses_as_float linear_r2 7 = Inr []"
  "r_get linear_r2 (get_rPrefix 7 ''quizFinished'') = Inr (Some (RStr ''False''))"
  using get_administeredItems_holds [OF linear_r2_view(1)]
    get_responses_as_float_holds [OF linear_r2_view(1)] linear_r2_view(1)
  by (simp_all add: linear_views holds_def r_get_sess py_str_bool_def)

lemma linear_r3_reads:
  "get_administeredItems linear_r3 7 = Inr [0, 1]"
  "get_responses_as_float linear_r3 7 = Inr [Fin 1]"
  "r_get linear_r3 (get_rPrefix 7 ''quizFinished'') = Inr (Some (RStr ''False''))"
  "r_get linear_r3 (get_rPrefix 7 ''itemIndex'') = Inr (Some (RInt 1))"
  "r_get linear_r3 (get_rPrefix 7 ''maxNumberOfQuestions'') = Inr (Some (RInt 2))"
  "r_get linear_r3 (get_rPrefix 7 ''minMeasurementAccuracy'') = Inr (Some (RFloat (Fin 0)))"
  using get_administeredItems_holds [OF linear_r3_view(1)]
    get_responses_as_float_holds [OF linear_r3_view(1)] linear_r3_view(1)
  by (simp_all add: linear_views holds_def r_get_sess py_str_bool_def)

lemma linear_r4_reads:
  "get_administeredItems linear_r4 7 = Inr [0, 1]"
  "get_responses_as_float linear_r4 7 = Inr [Fin 1, Fin 0]"
  "r_get linear_r4 (get_rPrefix 7 ''quizFinished'') = Inr (Some (RStr ''True''))"
  using get_administeredItems_holds [OF linear_r4_view(1)]
    get_responses_as_float_holds [OF linear_r4_view(1)] linear_r4_view(1)
  by (simp_all add: linear_views holds_def r_get_sess py_str_bool_def)

lemma linear_calls:
  "api_get_next_question example_env linear_r2 \<lparr>a_quizId = 7, isCorrect = Some 1\<rparr>
     = (linear_r3, Inr \<lparr>n_quizId = 7, questionId = Some 12,
           measurementAccuracy = see 1 [item_of question_450],
           currentCompetency = Fin 1, quizFinished = False\<rparr>)"
  "api_get_next_question example_env linear_r3 \<lparr>a_quizId = 7, isCorrect = Some 0\<rparr>
     = (linear_r4, Inr \<lparr>n_quizId = 7, questionId = None,
           measurementAccuracy = see 1 [item_of question_450, item_of question_12],
           currentCompetency = Fin 1, quizFinished = True\<rparr>)"
  using sim_next(3) [OF linear_r2_view, of example_env "Some 1"]
    sim_next(3) [OF linear_r3_view, of example_env "Some 0"]
  by (simp_all add: prod_eq_iff linear_r3_def linear_r4_def linear_step2 linear_step3)

lemma linear_r3_served: "served example_env linear_quiz 7 linear_r3"
proof -
  from created_total [OF initial_empty linear_quiz_creatable, where env = example_env and q = 7]
  obtain quizAPI' where "api_create_quiz example_env (\<lambda>k. None) linear_quiz 7 = (linear_r1, Inr quizAPI')"
    unfolding linear_r1_def by blast
  from served.opened [OF initial_empty this] have 1: "served example_env linear_quiz 7 linear_r1" .
  have "api_get_next_question example_env linear_r1 \<lparr>a_quizId = 7, isCorrect = None\<rparr>
     = (linear_r2, Inr \<lparr>n_quizId = 7, questionId = Some 450, measurementAccuracy = PInf,
           currentCompetency = Fin 0, quizFinished = False\<rparr>)"
    using sim_next(3) [OF linear_r1_view, of example_env None]
    by (simp add: prod_eq_iff linear_r2_def linear_step1)
  from served.answered [OF 1 this] have "served example_env linear_quiz 7 linear_r2" .
  from served.answered [OF this linear_calls(1)] show ?thesis .
qed

subsection \<open>The adaptive session\<close>

lemmas adaptive_views = adaptive_v1_def adaptive_v2_def adaptive_v3_def

lemma adaptive_quiz_fields:
  "questionSelector adaptive_quiz = ''maxInfoSelector''"
  "competencyEstimator adaptive_quiz = ''differentialEvolutionEstimator''"
  "questions adaptive_quiz = [question_31, question_32]"
  by (simp_all add: adaptive_quiz_def)

lemma see_example: "see 0 [item_of question_31] = Fin 2"
proof -
  have "irt_inf 0 (item_of question_31) = 1 / 4"
    by (simp add: irt_inf_def icc_def item_of_def question_31_def Let_def power2_eq_square)
  then have info: "test_info 0 [item_of question_31] = 1 / 4"
    by (simp add: test_info_def)
  have root: "sqrt (1 / 4) = 1 / 2"
    by (simp add: real_sqrt_divide)
  show ?thesis
    unfolding see_def info root by simp
qed

lemma adaptive_v1_init: "init_view example_env adaptive_quiz = adaptive_v1"
  by (simp add: init_view_def adaptive_quiz_def example_env_def adaptive_v1_def question_31_def
      question_32_def)

lemma adaptive_quiz_creatable: "creatable adaptive_quiz"
  by (simp add: creatable_def adaptive_quiz_def)

lemma adaptive_created:
  "\<exists>quizAPI'. api_create_quiz example_env (\<lambda>k. None) adaptive_quiz 9 = (adaptive_r1, Inr quizAPI')"
  using created_total [OF initial_empty adaptive_quiz_creatable, where env = example_env and q = 9]
  unfolding adaptive_r1_def by blast

lemma adaptive_r1_view: "holds adaptive_r1 9 adaptive_v1" "registered adaptive_r1 9"
proof -
  from adaptive_created obtain quizAPI' where
    "api_create_quiz example_env (\<lambda>k. None) adaptive_quiz 9 = (adaptive_r1, Inr quizAPI')"
    by blast
  from created_view [OF initial_empty this]
  show "holds adaptive_r1 9 adaptive_v1" "registered adaptive_r1 9"
    by (simp_all add: adaptive_v1_init)
qed

lemma adaptive_r1_reachable: "reachable example_env adaptive_quiz 9 adaptive_r1"
proof -
  from adaptive_created obtain quizAPI' where
    "api_create_quiz example_env (\<lambda>k. None) adaptive_quiz 9 = (adaptive_r1, Inr quizAPI')"
    by blast
  from reachable.created [OF initial_empty this] show ?thesis .
qed

lemma adaptive_r2_reachable: "reachable example_env adaptive_quiz 9 adaptive_r2"
  unfolding adaptive_r2_def
  by (rule reachable.asked [OF adaptive_r1_reachable]) (rule prod.collapse [symmetric])

lemma adaptive_pick:
  "MaxInfoSelector_select [item_of question_31, item_of question_32] [] t = Some 0"
  "MaxInfoSelector_select [item_of question_31, item_of question_32] [0] t = Some 1"
  by (simp_all add: MaxInfoSelector_select_def upt_conv_Cons question_31_def question_32_def
      item_of_def)

lemma adaptive_step1:
  "a_api_get_next_question example_env 9 adaptive_v1 None =
     (adaptive_v2,
      Inr \<lparr>n_quizId = 9, questionId = Some 31, measurementAccuracy = PInf,
           currentCompetency = Fin 0, quizFinished = False\<rparr>)"
  by (simp add: a_api_get_next_question_def a_get_next_question_def a_get_selector_def
      adaptive_views a_deliver_def adaptive_pick py_index_def)
     (simp add: question_31_def)

lemma adaptive_r2_view: "holds adaptive_r2 9 adaptive_v2" "registered adaptive_r2 9"
  using sim_next(1,2) [OF adaptive_r1_view, of example_env None]
  by (simp_all add: adaptive_r2_def adaptive_step1)

lemma adaptive_step2:
  "a_api_get_next_question example_env 9 adaptive_v2 (Some 0) =
     (adaptive_v3,
      Inr \<lparr>n_quizId = 9, questionId = None, measurementAccuracy = Fin 2,
           currentCompetency = Fin 0, quizFinished = True\<rparr>)"
  by (simp add: a_api_get_next_question_def a_get_next_question_def a_get_selector_def
      a_record_response_def a_get_estimator_def Let_def take_items_def
      adaptive_views py_index_def MinErrorStopper_stop_def see_example
      MaxItemStopper_stop_def)

lemma adaptive_r3_view: "holds adaptive_r3 9 adaptive_v3" "registered adaptive_r3 9"
  using sim_next(1,2) [OF adaptive_r2_view, of example_env "Some 0"]
  by (simp_all add: adaptive_r3_def adaptive_step2)

lemma adaptive_r2_reads:
  "get_administeredItems adaptive_r2 9 = Inr [0]"
  "get_responses_as_float adaptive_r2 9 = Inr []"
  "r_get adaptive_r2 (get_rPrefix 9 ''maxNumberOfQuestions'') = Inr (Some (RInt 2))"
  "r_get adaptive_r2 (get_rPrefix 9 ''quizFinished'') = Inr (Some (RStr ''False''))"
  using get_administeredItems_holds [OF adaptive_r2_view(1)]
    get_responses_as_float_holds [OF adaptive_r2_view(1)] adaptive_r2_view(1)
  by (simp_all add: adaptive_views holds_def r_get_sess py_str_bool_def)

lemma adaptive_r3_reads:
  "get_responses_as_float adaptive_r3 9 = Inr [Fin 0]"
  "r_get adaptive_r3 (get_rPrefix 9 ''quizFinished'') = Inr (Some (RStr ''True''))"
  using get_responses_as_float_holds [OF adaptive_r3_view(1)] adaptive_r3_view(1)
  by (simp_all add: adaptive_views holds_def r_get_sess py_str_bool_def)

subsection \<open>The request without questions\<close>

lemma empty_created:
  "api_create_quiz example_env (\<lambda>k. None) empty_quiz 5
     = (prepared example_env (\<lambda>k. None) (empty_quiz\<lparr>quizId := 5\<rparr>), Inl ValueError)"
  unfolding api_create_quiz_def
  by (rule create_quiz_empty_bank [OF initial_fresh [OF initial_empty]])
     (simp_all add: empty_quiz_def)

section \<open>The result of a linear session\<close>

text \<open>
  Claim C1. In every linear session that is finished, the result call returns a
  result whose \<^verbatim>\<open>currentCompetency\<close> is the sum over the administered items of
  difficulty times response, divided by the sum of these difficulties, and whose
  \<^verbatim>\<open>measurementAccuracy\<close> is 0. There are as many responses as administered items. The
  division is the one of numpy: it is the quotient of the two sums whenever the
  difficulties do not sum to 0.
\<close>

theorem linear_result_is_weighted_score:
  assumes "reachable env quizAPI qId r" and "questionSelector quizAPI = ''linearSelector''"
    and "r_get r (get_rPrefix qId ''quizFinished'') = Inr (Some (RStr ''True''))"
  shows "\<exists>A R result.
           get_administeredItems r qId = Inr A
           \<and> get_responses_as_float r qId = Inr (map Fin R)
           \<and> length R = length A
           \<and> snd (api_get_result r qId) = Inr result
           \<and> r_currentCompetency result =
               np_divide (Fin (weighted_points (questions quizAPI) A R))
                         (Fin (achievable_points (questions quizAPI) A))
           \<and> (achievable_points (questions quizAPI) A \<noteq> 0 \<longrightarrow>
                r_currentCompetency result =
                  Fin (weighted_points (questions quizAPI) A R
                         / achievable_points (questions quizAPI) A))
           \<and> r_measurementAccuracy result = Fin 0"
proof -
  from reachable_linear [OF assms(1,2)] obtain v where
    h: "holds r qId v" and reg: "registered r qId" and inv: "lin_inv env quizAPI v" by blast
  let ?A = "v_administeredItems v"
  let ?R = "v_responses v"
  let ?qs = "questions quizAPI"
  from inv have adm: "adm_inv env quizAPI v" by (simp add: lin_inv_def)
  then have qs: "v_questions v = ?qs" and sel: "v_questionSelector v = ''linearSelector''"
    and rng: "\<forall>i\<in>set ?A. 0 \<le> i \<and> i < int (length ?qs)"
    using assms(2) by (simp_all add: adm_inv_def static_def)
  from h assms(3) have "py_str_bool (v_quizFinished v) = ''True''"
    by (simp add: holds_def r_get_sess)
  then have fin: "v_quizFinished v"
    by (simp add: py_str_bool_def split: if_splits)
  with inv have len: "length ?R = length ?A" and ne: "?A \<noteq> []"
    by (simp_all add: lin_inv_def)
  from a_result_loop_sum [OF rng, of 0 ?R "[]" 0 0] len
  have loop: "a_result_loop ?qs (map Fin ?R) ?A ([], 0, Fin 0, 0)
        = Inr (map (\<lambda>i. ?qs ! nat i) ?A, achievable_points ?qs ?A,
               Fin (weighted_points ?qs ?A ?R), int (length ?A))"
    by simp
  let ?ratio = "np_divide (Fin (weighted_points ?qs ?A ?R)) (Fin (achievable_points ?qs ?A))"
  have res: "snd (a_api_get_result qId v)
      = Inr (a_build_result qId (v\<lparr>v_standardErrorOfEstimation := Fin 0, v_estTheta := ?ratio\<rparr>)
               (map (\<lambda>i. ?qs ! nat i) ?A))"
    using sel fin ne loop
    by (simp add: a_api_get_result_def a_get_result_def Let_def qs points_ratio_def)
  from api_get_result_sim [OF h reg] have "snd (api_get_result r qId) = snd (a_api_get_result qId v)"
    by (simp add: sim_def)
  with res have out: "snd (api_get_result r qId)
      = Inr (a_build_result qId (v\<lparr>v_standardErrorOfEstimation := Fin 0, v_estTheta := ?ratio\<rparr>)
               (map (\<lambda>i. ?qs ! nat i) ?A))"
    by simp
  let ?result = "a_build_result qId (v\<lparr>v_standardErrorOfEstimation := Fin 0, v_estTheta := ?ratio\<rparr>)
               (map (\<lambda>i. ?qs ! nat i) ?A)"
  have cc: "r_currentCompetency ?result = ?ratio" "r_measurementAccuracy ?result = Fin 0"
    by (simp_all add: a_build_result_def del: np_divide.simps)
  have "achievable_points ?qs ?A \<noteq> 0 \<longrightarrow>
      r_currentCompetency ?result = Fin (weighted_points ?qs ?A ?R / achievable_points ?qs ?A)"
  proof
    assume nz: "achievable_points ?qs ?A \<noteq> 0"
    note cc(1)
    also from nz have "?ratio = Fin (weighted_points ?qs ?A ?R / achievable_points ?qs ?A)"
      by simp
    finally show "r_currentCompetency ?result
        = Fin (weighted_points ?qs ?A ?R / achievable_points ?qs ?A)" .
  qed
  with cc out len get_administeredItems_holds [OF h] get_responses_as_float_holds [OF h]
  show ?thesis by blast
qed

text \<open>
  The finished linear example: difficulties 2 and 1, responses 1 and 0, score 2/3.
\<close>

theorem linear_result_is_weighted_score_witness:
  "reachable example_env linear_quiz 7 linear_r4
   \<and> questionSelector linear_quiz = ''linearSelector''
   \<and> r_get linear_r4 (get_rPrefix 7 ''quizFinished'') = Inr (Some (RStr ''True''))
   \<and> get_administeredItems linear_r4 7 = Inr [0, 1]
   \<and> get_responses_as_float linear_r4 7 = Inr [Fin 1, Fin 0]
   \<and> (\<exists>result. snd (api_get_result linear_r4 7) = Inr result
          \<and> r_currentCompetency result = Fin (2 / 3)
          \<and> r_measurementAccuracy result = Fin 0)"
proof -
  from linear_result_is_weighted_score [OF linear_r4_reachable linear_quiz_fields(1)
      linear_r4_reads(3)]
  obtain A R result where "get_administeredItems linear_r4 7 = Inr A"
    and "get_responses_as_float linear_r4 7 = Inr (map Fin R)"
    and res: "snd (api_get_result linear_r4 7) = Inr result"
    and cc: "r_currentCompetency result =
               np_divide (Fin (weighted_points (questions linear_quiz) A R))
                         (Fin (achievable_points (questions linear_quiz) A))"
    and se: "r_measurementAccuracy result = Fin 0"
    by blast
  with linear_r4_reads have A: "A = [0, 1]" and "map Fin R = [Fin 1, Fin 0]"
    by simp_all
  then have R: "R = [1, 0]" by auto
  have "r_currentCompetency result = Fin (2 / 3)"
    unfolding cc A R
    by (simp add: weighted_points_def achievable_points_def linear_quiz_fields
        question_450_def question_12_def)
  with res se linear_r4_reachable linear_r4_reads show ?thesis
    by (simp add: linear_quiz_fields)
qed

section \<open>When a session finishes\<close>

text \<open>
  Claim C2. \<^verbatim>\<open>get_next_question\<close> sets the flag to the disjunction of the two
  stoppers. In a session with \<^verbatim>\<open>maxNumberOfQuestions = n\<close>, \<open>n\<close> at least 1, whose
  calls have all returned an answer, a call that records a response returns and stores
  \<^verbatim>\<open>quizFinished = True\<close> exactly when the new standard error is at most
  \<^verbatim>\<open>minMeasurementAccuracy\<close> or the response is the \<open>n\<close>-th one, and there are never
  more than \<open>n\<close> responses. The flag is therefore set at the \<open>n\<close>-th response at the
  latest, and at an earlier one when the error threshold is met there.
\<close>

theorem finished_at_nth_response_or_min_error:
  assumes "served env quizAPI qId r"
    and "r_get r (get_rPrefix qId ''maxNumberOfQuestions'') = Inr (Some (RInt n))" and "1 \<le> n"
    and "r_get r (get_rPrefix qId ''minMeasurementAccuracy'') = Inr (Some (RFloat m))"
    and "get_administeredItems r qId = Inr A" and "A \<noteq> []"
    and "get_responses_as_float r qId = Inr fs"
    and "api_get_next_question env r \<lparr>a_quizId = qId, isCorrect = x\<rparr> = (r', Inr nq)"
  shows "\<exists>y. x = Some y
           \<and> get_responses_as_float r' qId = Inr (fs @ [Fin y])
           \<and> int (length fs) + 1 \<le> n
           \<and> quizFinished nq = (fle (measurementAccuracy nq) m \<or> int (length fs) + 1 = n)
           \<and> r_get r' (get_rPrefix qId ''quizFinished'')
               = Inr (Some (RStr (py_str_bool (quizFinished nq))))"
proof -
  from served_view [OF assms(1)] obtain v where
    h: "holds r qId v" and reg: "registered r qId" and inv: "cnt_inv env quizAPI v" by blast
  from h assms(2,4) have n: "v_maxNumberOfQuestions v = n" and m: "m = Fin (v_minMeasurementAccuracy v)"
    by (simp_all add: holds_def r_get_sess)
  from get_administeredItems_holds [OF h] assms(5) have A: "v_administeredItems v = A" by simp
  from get_responses_as_float_holds [OF h] assms(7) have fs: "fs = map Fin (v_responses v)" by simp
  let ?v' = "fst (a_api_get_next_question env qId v x)"
  from api_get_next_question_sim [OF h reg, of env x] assms(8)
  have h': "holds r' qId ?v'" and res: "snd (a_api_get_next_question env qId v x) = Inr nq"
    by (simp_all add: sim_def)
  then have out: "a_api_get_next_question env qId v x = (?v', Inr nq)"
    by (simp add: prod_eq_iff)
  from a_next_success [OF out] A assms(6) obtain y sel where
    y: "x = Some y" and rec: "a_record_response env qId v sel y = (?v', Inr nq)"
    and nf: "\<not> v_quizFinished v" by auto
  from a_record_success [OF rec] obtain S t where
    S: "take_items (map item_of (v_questions v)) (v_administeredItems v) = Inr S"
    and se: "measurementAccuracy nq = see t S"
    and fin: "quizFinished nq = (MinErrorStopper_stop (Fin (v_minMeasurementAccuracy v)) S t
                                  \<or> MaxItemStopper_stop (v_maxNumberOfQuestions v) S)"
    and R': "v_responses ?v' = v_responses v @ [y]"
    and fin': "v_quizFinished ?v' = quizFinished nq"
    by auto
  from take_items_length [OF S] A have len: "length S = length A" by simp
  from inv nf A assms(6) n assms(3) have cnt: "length A = length (v_responses v) + 1"
    "int (length A) \<le> n"
    by (auto simp: cnt_inv_def)
  have 1: "get_responses_as_float r' qId = Inr (fs @ [Fin y])"
    using get_responses_as_float_holds [OF h'] R' fs by simp
  have 2: "int (length fs) + 1 \<le> n"
    using cnt fs by simp
  have 3: "quizFinished nq = (fle (measurementAccuracy nq) m \<or> int (length fs) + 1 = n)"
    using fin se m n len cnt fs
    by (auto simp: MinErrorStopper_stop_def MaxItemStopper_stop_def)
  have 4: "r_get r' (get_rPrefix qId ''quizFinished'')
               = Inr (Some (RStr (py_str_bool (quizFinished nq))))"
    using h' fin' by (simp add: holds_def r_get_sess)
  from y 1 2 3 4 show ?thesis by blast
qed

text \<open>
  The flag set before the \<open>n\<close>-th response: the adaptive example has
  \<^verbatim>\<open>maxNumberOfQuestions = 2\<close> and \<^verbatim>\<open>minMeasurementAccuracy = 3\<close>; its first response
  gives the standard error 2 and finishes the session.
\<close>

theorem finished_before_nth_response:
  "r_get adaptive_r2 (get_rPrefix 9 ''maxNumberOfQuestions'') = Inr (Some (RInt 2))
   \<and> get_responses_as_float adaptive_r2 9 = Inr []
   \<and> r_get adaptive_r2 (get_rPrefix 9 ''quizFinished'') = Inr (Some (RStr ''False''))
   \<and> api_get_next_question example_env adaptive_r2 \<lparr>a_quizId = 9, isCorrect = Some 0\<rparr>
       = (adaptive_r3,
          Inr \<lparr>n_quizId = 9, questionId = None, measurementAccuracy = Fin 2,
               currentCompetency = Fin 0, quizFinished = True\<rparr>)
   \<and> get_responses_as_float adaptive_r3 9 = Inr [Fin 0]
   \<and> r_get adaptive_r3 (get_rPrefix 9 ''quizFinished'') = Inr (Some (RStr ''True''))"
  using sim_next(3) [OF adaptive_r2_view, of example_env "Some 0"] adaptive_r2_reads
    adaptive_r3_reads
  by (simp add: prod_eq_iff adaptive_r3_def adaptive_step2)

text \<open>
  The flag set by the \<open>n\<close>-th response: the second response of the linear example,
  whose standard error is above the threshold 0.
\<close>

theorem finished_at_nth_response_or_min_error_witness:
  "served example_env linear_quiz 7 linear_r3
   \<and> r_get linear_r3 (get_rPrefix 7 ''maxNumberOfQuestions'') = Inr (Some (RInt 2))
   \<and> r_get linear_r3 (get_rPrefix 7 ''minMeasurementAccuracy'') = Inr (Some (RFloat (Fin 0)))
   \<and> get_administeredItems linear_r3 7 = Inr [0, 1]
   \<and> get_responses_as_float linear_r3 7 = Inr [Fin 1]
   \<and> (\<exists>nq. api_get_next_question example_env linear_r3 \<lparr>a_quizId = 7, isCorrect = Some 0\<rparr>
              = (linear_r4, Inr nq)
          \<and> quizFinished nq
          \<and> \<not> fle (measurementAccuracy nq) (Fin 0))
   \<and> get_responses_as_float linear_r4 7 = Inr [Fin 1, Fin 0]
   \<and> r_get linear_r4 (get_rPrefix 7 ''quizFinished'') = Inr (Some (RStr ''True''))"
proof -
  from finished_at_nth_response_or_min_error [OF linear_r3_served linear_r3_reads(5) _
      linear_r3_reads(6) linear_r3_reads(1) _ linear_r3_reads(2) linear_calls(2)]
  have "get_responses_as_float linear_r4 7 = Inr [Fin 1, Fin 0]"
    and "r_get linear_r4 (get_rPrefix 7 ''quizFinished'') = Inr (Some (RStr ''True''))"
    by (auto simp: py_str_bool_def)
  with linear_r3_served linear_r3_reads linear_calls(2) show ?thesis
    by (simp add: see_positive)
qed

section \<open>No item twice\<close>

text \<open>
  Claim C3. In every session created with the selector \<^verbatim>\<open>maxInfoSelector\<close>, at every
  point of its life, the administered items hold no index twice, and whatever the
  bank and the estimate, the index the maxInfo selector returns for these administered
  items is not one of them.
\<close>

theorem maxinfo_never_repeats:
  assumes "reachable env quizAPI qId r" and "questionSelector quizAPI = ''maxInfoSelector''"
  shows "\<exists>A. get_administeredItems r qId = Inr A \<and> distinct A
             \<and> (\<forall>items est_theta i.
                  MaxInfoSelector_select items A est_theta = Some i \<longrightarrow> i \<notin> set A)"
proof -
  from reachable_adm [OF assms(1)] obtain v where
    h: "holds r qId v" and inv: "adm_inv env quizAPI v" by blast
  have "get_administeredItems r qId = Inr (v_administeredItems v)"
    by (rule get_administeredItems_holds [OF h])
  moreover from inv have "distinct (v_administeredItems v)" by (simp add: adm_inv_def)
  moreover have "\<forall>items est_theta i.
      MaxInfoSelector_select items (v_administeredItems v) est_theta = Some i
        \<longrightarrow> i \<notin> set (v_administeredItems v)"
    using MaxInfoSelector_select_new by blast
  ultimately show ?thesis by blast
qed

text \<open>
  The adaptive example after its first question: item 0 is administered, the selector
  returns item 1.
\<close>

theorem maxinfo_never_repeats_witness:
  "reachable example_env adaptive_quiz 9 adaptive_r2
   \<and> questionSelector adaptive_quiz = ''maxInfoSelector''
   \<and> get_administeredItems adaptive_r2 9 = Inr [0]
   \<and> MaxInfoSelector_select (map item_of (questions adaptive_quiz)) [0] (Fin 0) = Some 1
   \<and> (1 :: int) \<notin> set [0]"
proof -
  from maxinfo_never_repeats [OF adaptive_r2_reachable adaptive_quiz_fields(1)]
  obtain A where "get_administeredItems adaptive_r2 9 = Inr A" and "distinct A"
    and new: "\<forall>items est_theta i.
                MaxInfoSelector_select items A est_theta = Some i \<longrightarrow> i \<notin> set A"
    by blast
  with adaptive_r2_reads(1) have A: "A = [0]" by simp
  have pick: "MaxInfoSelector_select (map item_of (questions adaptive_quiz)) [0] (Fin 0) = Some 1"
    by (simp add: adaptive_quiz_fields adaptive_pick)
  with new have "(1 :: int) \<notin> set [0]" unfolding A by blast
  with pick adaptive_r2_reachable adaptive_r2_reads(1) show ?thesis
    by (simp add: adaptive_quiz_fields)
qed

section \<open>The forced configuration of a linear session\<close>

text \<open>
  Claim C4. Creating a session with the selector \<^verbatim>\<open>linearSelector\<close> returns and stores
  \<^verbatim>\<open>maxNumberOfQuestions = len(questions)\<close> and \<^verbatim>\<open>minMeasurementAccuracy = 0.0\<close>. From
  then on the items are administered in the order of the bank, a finished session has
  one response for every question, and (with the differential-evolution estimator) the
  answer to a valid response says \<^verbatim>\<open>quizFinished\<close> exactly when the item answered is the
  last of the bank.
\<close>

theorem linear_quiz_ends_after_last_item:
  assumes "initial r0 qId" and "questionSelector quizAPI = ''linearSelector''"
    and "api_create_quiz env r0 quizAPI qId = (r1, Inr quizAPI')"
  shows "maxNumberOfQuestions quizAPI' = int (length (questions quizAPI))
       \<and> minMeasurementAccuracy quizAPI' = 0
       \<and> r_get r1 (get_rPrefix qId ''maxNumberOfQuestions'')
           = Inr (Some (RInt (int (length (questions quizAPI)))))
       \<and> r_get r1 (get_rPrefix qId ''minMeasurementAccuracy'') = Inr (Some (RFloat (Fin 0)))
       \<and> (\<forall>r. reachable env quizAPI qId r \<longrightarrow>
            (\<exists>A fs fin.
               get_administeredItems r qId = Inr A
               \<and> A = map int [0..<length A]
               \<and> get_responses_as_float r qId = Inr fs
               \<and> r_get r (get_rPrefix qId ''quizFinished'') = Inr (Some (RStr (py_str_bool fin)))
               \<and> (fin \<longrightarrow> length fs = length (questions quizAPI))
               \<and> (competencyEstimator quizAPI = ''differentialEvolutionEstimator''
                    \<longrightarrow> \<not> fin \<longrightarrow> A \<noteq> [] \<longrightarrow>
                    (\<forall>x. 0 \<le> x \<and> x \<le> 1 \<longrightarrow>
                       (\<exists>nq. snd (api_get_next_question env r \<lparr>a_quizId = qId, isCorrect = Some x\<rparr>)
                               = Inr nq
                             \<and> quizFinished nq = (length A = length (questions quizAPI)))))))"
proof -
  let ?N = "length (questions quizAPI)"
  from assms(3) have cq: "create_quiz env r0 quizAPI qId = (r1, Inr quizAPI')"
    by (simp add: api_create_quiz_def)
  from create_quiz_result [OF cq] assms(2)
  have 1: "maxNumberOfQuestions quizAPI' = int ?N" "minMeasurementAccuracy quizAPI' = 0"
    by (simp_all add: init_selector_def Let_def)
  from created_view [OF assms(1,3)] have h1: "holds r1 qId (init_view env quizAPI)" by simp
  then have 2: "r_get r1 (get_rPrefix qId ''maxNumberOfQuestions'') = Inr (Some (RInt (int ?N)))"
    "r_get r1 (get_rPrefix qId ''minMeasurementAccuracy'') = Inr (Some (RFloat (Fin 0)))"
    using assms(2) by (simp_all add: holds_def r_get_sess init_view_def)
  have 3: "\<exists>A fs fin.
               get_administeredItems r qId = Inr A
               \<and> A = map int [0..<length A]
               \<and> get_responses_as_float r qId = Inr fs
               \<and> r_get r (get_rPrefix qId ''quizFinished'') = Inr (Some (RStr (py_str_bool fin)))
               \<and> (fin \<longrightarrow> length fs = ?N)
               \<and> (competencyEstimator quizAPI = ''differentialEvolutionEstimator''
                    \<longrightarrow> \<not> fin \<longrightarrow> A \<noteq> [] \<longrightarrow>
                    (\<forall>x. 0 \<le> x \<and> x \<le> 1 \<longrightarrow>
                       (\<exists>nq. snd (api_get_next_question env r \<lparr>a_quizId = qId, isCorrect = Some x\<rparr>)
                               = Inr nq
                             \<and> quizFinished nq = (length A = ?N))))"
    if reach: "reachable env quizAPI qId r" for r
  proof -
    from reachable_linear [OF reach assms(2)] obtain v where
      h: "holds r qId v" and reg: "registered r qId" and inv: "lin_inv env quizAPI v" by blast
    from inv have adm: "adm_inv env quizAPI v" by (simp add: lin_inv_def)
    have a: "get_administeredItems r qId = Inr (v_administeredItems v)"
      by (rule get_administeredItems_holds [OF h])
    have b: "v_administeredItems v = map int [0..<length (v_administeredItems v)]"
      by (rule linear_count(2) [OF adm assms(2)])
    have c: "get_responses_as_float r qId = Inr (map Fin (v_responses v))"
      by (rule get_responses_as_float_holds [OF h])
    have d: "r_get r (get_rPrefix qId ''quizFinished'')
               = Inr (Some (RStr (py_str_bool (v_quizFinished v))))"
      using h by (simp add: holds_def r_get_sess)
    have e: "v_quizFinished v \<longrightarrow> length (map Fin (v_responses v)) = ?N"
      using inv by (simp add: lin_inv_def)
    have f: "competencyEstimator quizAPI = ''differentialEvolutionEstimator''
                    \<longrightarrow> \<not> v_quizFinished v \<longrightarrow> v_administeredItems v \<noteq> [] \<longrightarrow>
                    (\<forall>x. 0 \<le> x \<and> x \<le> 1 \<longrightarrow>
                       (\<exists>nq. snd (api_get_next_question env r \<lparr>a_quizId = qId, isCorrect = Some x\<rparr>)
                               = Inr nq
                             \<and> quizFinished nq = (length (v_administeredItems v) = ?N)))"
    proof (intro impI allI)
      fix x :: real
      assume de: "competencyEstimator quizAPI = ''differentialEvolutionEstimator''"
        and nf: "\<not> v_quizFinished v" and ne: "v_administeredItems v \<noteq> []"
        and x: "0 \<le> x \<and> x \<le> 1"
      from a_next_linear_result [OF inv assms(2) de nf ne, of x qId] x
      obtain nq where "snd (a_api_get_next_question env qId v (Some x)) = Inr nq"
        "quizFinished nq = (length (v_administeredItems v) = ?N)" by blast
      moreover from api_get_next_question_sim [OF h reg, of env "Some x"]
      have "snd (api_get_next_question env r \<lparr>a_quizId = qId, isCorrect = Some x\<rparr>)
              = snd (a_api_get_next_question env qId v (Some x))"
        by (simp add: sim_def)
      ultimately show "\<exists>nq. snd (api_get_next_question env r \<lparr>a_quizId = qId, isCorrect = Some x\<rparr>)
                               = Inr nq
                             \<and> quizFinished nq = (length (v_administeredItems v) = ?N)"
        by simp
    qed
    from a b c d e f show ?thesis by blast
  qed
  from 1 2 3 show ?thesis by blast
qed

text \<open>
  The linear example: two questions, the first response does not finish the session,
  the second does.
\<close>

theorem linear_quiz_ends_after_last_item_witness:
  "initial (\<lambda>k. None) 7
   \<and> questionSelector linear_quiz = ''linearSelector''
   \<and> length (questions linear_quiz) = 2
   \<and> (\<exists>quizAPI'. api_create_quiz example_env (\<lambda>k. None) linear_quiz 7 = (linear_r1, Inr quizAPI')
         \<and> maxNumberOfQuestions quizAPI' = 2 \<and> minMeasurementAccuracy quizAPI' = 0)
   \<and> r_get linear_r1 (get_rPrefix 7 ''maxNumberOfQuestions'') = Inr (Some (RInt 2))
   \<and> r_get linear_r1 (get_rPrefix 7 ''minMeasurementAccuracy'') = Inr (Some (RFloat (Fin 0)))
   \<and> reachable example_env linear_quiz 7 linear_r2
   \<and> get_administeredItems linear_r2 7 = Inr [0]
   \<and> (\<exists>nq. snd (api_get_next_question example_env linear_r2 \<lparr>a_quizId = 7, isCorrect = Some 1\<rparr>)
               = Inr nq \<and> \<not> quizFinished nq)
   \<and> reachable example_env linear_quiz 7 linear_r3
   \<and> get_administeredItems linear_r3 7 = Inr [0, 1]
   \<and> (\<exists>nq. snd (api_get_next_question example_env linear_r3 \<lparr>a_quizId = 7, isCorrect = Some 0\<rparr>)
               = Inr nq \<and> quizFinished nq)"
proof -
  from created_total [OF initial_empty linear_quiz_creatable, where env = example_env and q = 7]
  obtain quizAPI' where
    cr: "api_create_quiz example_env (\<lambda>k. None) linear_quiz 7 = (linear_r1, Inr quizAPI')"
    unfolding linear_r1_def by blast
  note inst = linear_quiz_ends_after_last_item [OF initial_empty linear_quiz_fields(1) cr]
  from inst have cfg: "maxNumberOfQuestions quizAPI' = 2" "minMeasurementAccuracy quizAPI' = 0"
    "r_get linear_r1 (get_rPrefix 7 ''maxNumberOfQuestions'') = Inr (Some (RInt 2))"
    "r_get linear_r1 (get_rPrefix 7 ''minMeasurementAccuracy'') = Inr (Some (RFloat (Fin 0)))"
    by (simp_all add: linear_quiz_fields)
  have step: "\<exists>nq. snd (api_get_next_question example_env r \<lparr>a_quizId = 7, isCorrect = Some x\<rparr>)
               = Inr nq \<and> quizFinished nq = (length A = 2)"
    if "reachable example_env linear_quiz 7 r" and "get_administeredItems r 7 = Inr A"
      and "A \<noteq> []" and "r_get r (get_rPrefix 7 ''quizFinished'') = Inr (Some (RStr ''False''))"
      and "0 \<le> x" and "x \<le> 1" for r A x
  proof -
    from inst that(1) obtain A' fs fin where
      "get_administeredItems r 7 = Inr A'"
      and fin: "r_get r (get_rPrefix 7 ''quizFinished'') = Inr (Some (RStr (py_str_bool fin)))"
      and rest: "competencyEstimator linear_quiz = ''differentialEvolutionEstimator''
                    \<longrightarrow> \<not> fin \<longrightarrow> A' \<noteq> [] \<longrightarrow>
                    (\<forall>x. 0 \<le> x \<and> x \<le> 1 \<longrightarrow>
                       (\<exists>nq. snd (api_get_next_question example_env r \<lparr>a_quizId = 7, isCorrect = Some x\<rparr>)
                               = Inr nq
                             \<and> quizFinished nq = (length A' = length (questions linear_quiz))))"
      by blast
    with that(2) have A': "A' = A" by simp
    from fin that(4) have nf: "\<not> fin" by (auto simp: py_str_bool_def split: if_splits)
    from rest nf that(3,5,6) show ?thesis
      unfolding A' by (auto simp: linear_quiz_fields)
  qed
  from step [OF linear_r2_reachable linear_r2_reads(1) _ linear_r2_reads(3), of 1]
  have s2: "\<exists>nq. snd (api_get_next_question example_env linear_r2 \<lparr>a_quizId = 7, isCorrect = Some 1\<rparr>)
               = Inr nq \<and> \<not> quizFinished nq"
    by simp
  from step [OF linear_r3_reachable linear_r3_reads(1) _ linear_r3_reads(3), of 0]
  have s3: "\<exists>nq. snd (api_get_next_question example_env linear_r3 \<lparr>a_quizId = 7, isCorrect = Some 0\<rparr>)
               = Inr nq \<and> quizFinished nq"
    by simp
  from cr cfg s2 s3 initial_empty linear_r2_reachable linear_r3_reachable
    linear_r2_reads(1) linear_r3_reads(1)
  show ?thesis by (simp add: linear_quiz_fields)
qed

section \<open>Creation with an empty bank\<close>

text \<open>
  Claim C5. Creation with no question fails only if the estimator is the
  differential-evolution one, with the \<^verbatim>\<open>ValueError\<close> of the minimum of an empty
  array in \<^verbatim>\<open>init_estimator\<close>. By then the seven configuration keys and the initial
  estimate are stored; they stay behind, and the id is not put in the registry. With
  any other estimator name the creation succeeds and registers the session.
\<close>

theorem empty_bank_creation_fails_late:
  assumes "initial r0 qId" and "questions quizAPI = []"
    and "api_create_quiz env r0 quizAPI qId = (r, res)"
  shows "if competencyEstimator quizAPI = ''differentialEvolutionEstimator''
         then res = Inl ValueError
            \<and> r (Global ''quizIds'') = r0 (Global ''quizIds'')
            \<and> r_get r (get_rPrefix qId ''maxNumberOfQuestions'')
                = Inr (Some (RInt (maxNumberOfQuestions quizAPI)))
            \<and> r_get r (get_rPrefix qId ''minMeasurementAccuracy'')
                = Inr (Some (RFloat (Fin (minMeasurementAccuracy quizAPI))))
            \<and> r_get r (get_rPrefix qId ''inputProficiencyLevel'')
                = Inr (Some (RFloat (Fin (inputProficiencyLevel quizAPI))))
            \<and> r_get r (get_rPrefix qId ''questionSelector'')
                = Inr (Some (RStr (questionSelector quizAPI)))
            \<and> r_get r (get_rPrefix qId ''competencyEstimator'')
                = Inr (Some (RStr (competencyEstimator quizAPI)))
            \<and> r_get r (get_rPrefix qId ''standardErrorOfEstimation'')
                = Inr (Some (RFloat (default_standardErrorOfEstimation env)))
            \<and> r_get r (get_rPrefix qId ''quizFinished'') = Inr (Some (RStr ''False''))
            \<and> (\<exists>t. r_get r (get_rPrefix qId ''estTheta'') = Inr (Some (RFloat t)))
         else (\<exists>quizAPI'. res = Inr quizAPI') \<and> quizIdExists r qId = Inr True"
proof (cases "competencyEstimator quizAPI = ''differentialEvolutionEstimator''")
  case True
  let ?v3 = "(init_view env quizAPI)\<lparr>v_maxNumberOfQuestions := maxNumberOfQuestions quizAPI,
                  v_minMeasurementAccuracy := minMeasurementAccuracy quizAPI,
                  v_minDiff := None, v_maxDiff := None\<rparr>"
  from create_quiz_empty_bank [OF initial_fresh [OF assms(1)] True assms(2), of env] assms(3)
  have r: "r = prepared env r0 (quizAPI\<lparr>quizId := qId\<rparr>)" and res: "res = Inl ValueError"
    by (simp_all add: api_create_quiz_def)
  have h: "holds r qId ?v3"
    unfolding holds_def r by (rule sess_prepared [OF initial_fresh [OF assms(1)]])
  have g: "r (Global ''quizIds'') = r0 (Global ''quizIds'')"
    unfolding r by simp
  have 1: "r_get r (get_rPrefix qId ''maxNumberOfQuestions'')
                = Inr (Some (RInt (maxNumberOfQuestions quizAPI)))"
    using h by (simp add: holds_def r_get_sess)
  have 2: "r_get r (get_rPrefix qId ''minMeasurementAccuracy'')
                = Inr (Some (RFloat (Fin (minMeasurementAccuracy quizAPI))))"
    using h by (simp add: holds_def r_get_sess)
  have 3: "r_get r (get_rPrefix qId ''inputProficiencyLevel'')
                = Inr (Some (RFloat (Fin (inputProficiencyLevel quizAPI))))"
    using h by (simp add: holds_def r_get_sess init_view_def)
  have 4: "r_get r (get_rPrefix qId ''questionSelector'')
                = Inr (Some (RStr (questionSelector quizAPI)))"
    using h by (simp add: holds_def r_get_sess init_view_def)
  have 5: "r_get r (get_rPrefix qId ''competencyEstimator'')
                = Inr (Some (RStr (competencyEstimator quizAPI)))"
    using h by (simp add: holds_def r_get_sess init_view_def)
  have 6: "r_get r (get_rPrefix qId ''standardErrorOfEstimation'')
                = Inr (Some (RFloat (default_standardErrorOfEstimation env)))"
    using h by (simp add: holds_def r_get_sess init_view_def)
  have 7: "r_get r (get_rPrefix qId ''quizFinished'') = Inr (Some (RStr ''False''))"
    using h by (simp add: holds_def r_get_sess init_view_def py_str_bool_def)
  have 8: "\<exists>t. r_get r (get_rPrefix qId ''estTheta'') = Inr (Some (RFloat t))"
    using h by (simp add: holds_def r_get_sess init_view_def)
  from True res g 1 2 3 4 5 6 7 8 show ?thesis by simp
next
  case False
  from initial_registry [OF assms(1)] obtain ids where
    reg: "r0 (Global ''quizIds'') = rlist (map RInt ids)" by blast
  from assms(3) have "create_quiz env r0 quizAPI qId = (r, res)"
    by (simp add: api_create_quiz_def)
  from create_quiz_fresh [OF initial_fresh [OF assms(1)] reg this] False
  have "registered r qId" and "\<not> isl res" by simp_all
  then have "quizIdExists r qId = Inr True" and "\<exists>quizAPI'. res = Inr quizAPI'"
    by (simp_all add: quizIdExists_registered) (cases res, auto)
  with False show ?thesis by simp
qed

text \<open>
  Keys of the session are in the store after the failed creation.
\<close>

theorem empty_bank_failure_leaves_keys:
  "questions empty_quiz = []
   \<and> snd (api_create_quiz example_env (\<lambda>k. None) empty_quiz 5) = Inl ValueError
   \<and> fst (api_create_quiz example_env (\<lambda>k. None) empty_quiz 5)
         (get_rPrefix 5 ''maxNumberOfQuestions'') = Some (RString (RInt 2))
   \<and> fst (api_create_quiz example_env (\<lambda>k. None) empty_quiz 5)
         (get_rPrefix 5 ''quizFinished'') = Some (RString (RStr ''False''))"
  unfolding empty_created
  by (simp add: prepared_def created_keys_def init_initializer_def r_mset_def r_set_def
      empty_quiz_def get_rPrefix_def py_str_bool_def)

text \<open>
  The request without questions on the empty store.
\<close>

theorem empty_bank_creation_fails_late_witness:
  "initial (\<lambda>k. None) 5 \<and> questions empty_quiz = []
   \<and> competencyEstimator empty_quiz = ''differentialEvolutionEstimator''
   \<and> api_create_quiz example_env (\<lambda>k. None) empty_quiz 5 = (empty_r, Inl ValueError)
   \<and> empty_r (Global ''quizIds'') = None
   \<and> r_get empty_r (get_rPrefix 5 ''maxNumberOfQuestions'') = Inr (Some (RInt 2))
   \<and> r_get empty_r (get_rPrefix 5 ''quizFinished'') = Inr (Some (RStr ''False''))"
proof -
  have q: "questions empty_quiz = []"
    "competencyEstimator empty_quiz = ''differentialEvolutionEstimator''"
    "maxNumberOfQuestions empty_quiz = 2"
    by (simp_all add: empty_quiz_def)
  have call: "api_create_quiz example_env (\<lambda>k. None) empty_quiz 5
                = (empty_r, snd (api_create_quiz example_env (\<lambda>k. None) empty_quiz 5))"
    by (simp add: empty_r_def)
  from empty_bank_creation_fails_late [OF initial_empty q(1) call]
  have "snd (api_create_quiz example_env (\<lambda>k. None) empty_quiz 5) = Inl ValueError"
    and "empty_r (Global ''quizIds'') = None"
    and "r_get empty_r (get_rPrefix 5 ''maxNumberOfQuestions'') = Inr (Some (RInt 2))"
    and "r_get empty_r (get_rPrefix 5 ''quizFinished'') = Inr (Some (RStr ''False''))"
    by (simp_all add: q)
  with call q initial_empty show ?thesis by simp
qed

section \<open>Deletion\<close>

text \<open>
  Claim C6. \<^verbatim>\<open>delete_quiz\<close> deletes eleven keys; the keys \<^verbatim>\<open>administeredItems\<close>,
  \<^verbatim>\<open>responses\<close> and \<^verbatim>\<open>itemIndex\<close> of the session are not among them. Whatever the
  store and the id, these three keys are after the delete call what they were before
  it.
\<close>

theorem delete_quiz_keeps_answer_keys:
  "fst (api_delete_quiz r qId) (get_rPrefix qId ''administeredItems'')
     = r (get_rPrefix qId ''administeredItems'')
   \<and> fst (api_delete_quiz r qId) (get_rPrefix qId ''responses'')
     = r (get_rPrefix qId ''responses'')
   \<and> fst (api_delete_quiz r qId) (get_rPrefix qId ''itemIndex'')
     = r (get_rPrefix qId ''itemIndex'')"
  by (auto simp: api_delete_quiz_def delete_quiz_def sbind_def r_delete_def r_lrem_def
      get_rPrefix_def Let_def split: sum.splits option.splits rentry.splits)

text \<open>
  The linear example deleted after its first response: the id has left the registry
  and the configuration is gone, the administered items, the response and the pending
  item index can still be read.
\<close>

theorem deleted_session_still_readable:
  "api_delete_quiz linear_r3 7 = (linear_deleted, Inr ())
   \<and> quizIdExists linear_deleted 7 = Inr False
   \<and> r_get linear_deleted (get_rPrefix 7 ''maxNumberOfQuestions'') = Inr None
   \<and> get_administeredItems linear_deleted 7 = Inr [0, 1]
   \<and> get_responses_as_float linear_deleted 7 = Inr [Fin 1]
   \<and> r_get linear_deleted (get_rPrefix 7 ''itemIndex'') = Inr (Some (RInt 1))"
proof -
  note del = delete_quiz_registered [OF linear_r3_view(2), folded linear_deleted_def]
  note kept = delete_quiz_keeps_answer_keys [of linear_r3 7, folded linear_deleted_def]
  have 1: "api_delete_quiz linear_r3 7 = (linear_deleted, Inr ())"
    using del(1) by (simp add: prod_eq_iff linear_deleted_def)
  have 3: "r_get linear_deleted (get_rPrefix 7 ''maxNumberOfQuestions'') = Inr None"
    using del(3) by (simp add: r_get_sess scalar_def)
  have 4: "get_administeredItems linear_deleted 7 = get_administeredItems linear_r3 7"
    using kept by (simp add: get_administeredItems_def r_lrange_def)
  have 5: "get_responses_as_float linear_deleted 7 = get_responses_as_float linear_r3 7"
    using kept by (simp add: get_responses_as_float_def r_lrange_def)
  have 6: "r_get linear_deleted (get_rPrefix 7 ''itemIndex'')
             = r_get linear_r3 (get_rPrefix 7 ''itemIndex'')"
    using kept by (simp add: r_get_def)
  from 1 del(2) 3 4 5 6 linear_r3_reads show ?thesis by simp
qed

section \<open>A finished session takes no more answers\<close>

text \<open>
  Claim C7. A next-question call for a registered session whose stored flag
  \<^verbatim>\<open>quizFinished\<close> reads as true raises the HTTP error 406, and the store is the one
  it was.
\<close>

theorem finished_quiz_rejects_next_question:
  assumes "quizIdExists r (a_quizId answer) = Inr True"
    and "r_get r (get_rPrefix (a_quizId answer) ''quizFinished'') = Inr (Some d)"
    and "strtobool d = Inr True"
  shows "api_get_next_question env r answer = (r, Inl (HTTPException 406))"
  using assms by (simp add: api_get_next_question_def)

text \<open>
  The finished linear example.
\<close>

theorem finished_quiz_rejects_next_question_witness:
  "quizIdExists linear_r4 7 = Inr True
   \<and> r_get linear_r4 (get_rPrefix 7 ''quizFinished'') = Inr (Some (RStr ''True''))
   \<and> strtobool (RStr ''True'') = Inr True
   \<and> api_get_next_question example_env linear_r4 \<lparr>a_quizId = 7, isCorrect = Some 1\<rparr>
       = (linear_r4, Inl (HTTPException 406))"
proof -
  have 1: "quizIdExists linear_r4 (a_quizId \<lparr>a_quizId = 7, isCorrect = Some 1\<rparr>) = Inr True"
    using quizIdExists_registered [OF linear_r4_view(2)] by simp
  have 2: "r_get linear_r4 (get_rPrefix (a_quizId \<lparr>a_quizId = 7, isCorrect = Some 1\<rparr>) ''quizFinished'')
             = Inr (Some (RStr ''True''))"
    using linear_r4_reads(3) by simp
  have 3: "strtobool (RStr ''True'') = Inr True"
    using strtobool_py_str_bool [of True] by (simp add: py_str_bool_def)
  from finished_quiz_rejects_next_question [OF 1 2 3, of example_env] 1 2 3
  show ?thesis by simp
qed

section \<open>A response outside the unit interval\<close>

text \<open>
  Claim C8. When at least one item is administered and the response is missing, below
  0 or above 1, \<^verbatim>\<open>get_next_question\<close> and the call of the API return no answer but an
  error, and the store is the one it was: no response is appended, the estimate, the
  standard error and the flag are what they were, no item is selected.
\<close>

theorem invalid_response_changes_nothing:
  assumes "get_administeredItems r (a_quizId answer) = Inr A" and "A \<noteq> []"
    and "isCorrect answer = None \<or> (\<exists>x. isCorrect answer = Some x \<and> (x < 0 \<or> 1 < x))"
  shows "(\<exists>e. get_next_question env r answer = (r, Inl e))
         \<and> (\<exists>e. api_get_next_question env r answer = (r, Inl e))"
proof -
  have 1: "\<exists>e. get_next_question env r answer = (r, Inl e)"
    using assms
    by (auto simp: get_next_question_def Let_def sbind_def split: sum.splits option.splits)
  then have "\<exists>e. api_get_next_question env r answer = (r, Inl e)"
    by (auto simp: api_get_next_question_def sbind_def split: sum.splits)
  with 1 show ?thesis by blast
qed

text \<open>
  The linear example after its first question, with no response and with the response
  2: the error is the \<^verbatim>\<open>UnboundLocalError\<close> of returning \<^verbatim>\<open>nextQuestion\<close>, which no
  branch has assigned.
\<close>

theorem invalid_response_changes_nothing_witness:
  "get_administeredItems linear_r2 7 = Inr [0]
   \<and> api_get_next_question example_env linear_r2 \<lparr>a_quizId = 7, isCorrect = None\<rparr>
       = (linear_r2, Inl UnboundLocalError)
   \<and> api_get_next_question example_env linear_r2 \<lparr>a_quizId = 7, isCorrect = Some 2\<rparr>
       = (linear_r2, Inl UnboundLocalError)"
proof -
  have adm: "get_administeredItems linear_r2 (a_quizId \<lparr>a_quizId = 7, isCorrect = x\<rparr>) = Inr [0]" for x
    using linear_r2_reads(1) by simp
  from invalid_response_changes_nothing [OF adm, of None example_env]
  obtain e where e: "api_get_next_question example_env linear_r2 \<lparr>a_quizId = 7, isCorrect = None\<rparr>
       = (linear_r2, Inl e)" by auto
  from invalid_response_changes_nothing [OF adm, of "Some 2" example_env]
  obtain e' where e': "api_get_next_question example_env linear_r2 \<lparr>a_quizId = 7, isCorrect = Some 2\<rparr>
       = (linear_r2, Inl e')" by auto
  from sim_next(3) [OF linear_r2_view, of example_env None] e
  have "e = UnboundLocalError" by (simp add: linear_step_invalid)
  moreover from sim_next(3) [OF linear_r2_view, of example_env "Some 2"] e'
  have "e' = UnboundLocalError" by (simp add: linear_step_invalid)
  ultimately show ?thesis using e e' linear_r2_reads(1) by simp
qed

section \<open>Which responses count as correct\<close>

text \<open>
  Claim C9. \<^verbatim>\<open>get_responses\<close> marks a stored response as correct exactly if it is
  1.0. In a call that records the response \<open>x\<close>, the estimate returned is the one
  the estimator computes from the stored responses followed by \<open>x\<close>, each marked in
  this way: a response below 1 counts as incorrect.
\<close>

theorem only_exact_one_counts_as_correct:
  assumes "reachable env quizAPI qId r"
    and "get_administeredItems r qId = Inr A" and "A \<noteq> []"
    and "get_responses_as_float r qId = Inr fs"
    and "api_get_next_question env r \<lparr>a_quizId = qId, isCorrect = Some x\<rparr> = (r', Inr nq)"
  shows "get_responses r qId = Inr (map (\<lambda>f. f = Fin 1) fs)
         \<and> (\<exists>bounds theta0.
               get_estimator r qId = Inr (DifferentialEvolutionEstimator bounds)
               \<and> r_get r (get_rPrefix qId ''estTheta'') = Inr (Some (RFloat theta0))
               \<and> currentCompetency nq =
                   Fin (differential_evolution env bounds (map item_of (questions quizAPI)) A
                          (map (\<lambda>f. f = Fin 1) (fs @ [Fin x])) theta0))"
proof -
  from reachable_adm [OF assms(1)] obtain v where
    h: "holds r qId v" and reg: "registered r qId" and inv: "adm_inv env quizAPI v" by blast
  from inv have qs: "v_questions v = questions quizAPI" by (simp add: adm_inv_def static_def)
  from get_administeredItems_holds [OF h] assms(2) have A: "v_administeredItems v = A" by simp
  from get_responses_as_float_holds [OF h] assms(4) have fs: "fs = map Fin (v_responses v)" by simp
  have 1: "get_responses r qId = Inr (map (\<lambda>f. f = Fin 1) fs)"
    by (simp add: get_responses_flags assms(4))
  from api_get_next_question_sim [OF h reg, of env "Some x"] assms(5)
  have res: "snd (a_api_get_next_question env qId v (Some x)) = Inr nq"
    by (simp add: sim_def)
  then obtain sel where "a_record_response env qId v sel x
      = (fst (a_record_response env qId v sel x), Inr nq)"
    using A assms(3)
    by (auto simp: a_api_get_next_question_def a_get_next_question_def
        split: if_splits sum.splits) (metis prod.collapse)+
  from a_record_success [OF this] obtain est where
    est: "a_get_estimator v = Inr est"
    and cc: "currentCompetency nq = Fin (estimate env est (map item_of (v_questions v)) (v_administeredItems v)
                   (map (\<lambda>x. x = 1) (v_responses v @ [x])) (v_estTheta v))"
    by auto
  obtain bounds where b: "est = DifferentialEvolutionEstimator bounds" by (cases est) auto
  have 2: "get_estimator r qId = Inr (DifferentialEvolutionEstimator bounds)"
    using get_estimator_holds [OF h] est b by simp
  have 3: "r_get r (get_rPrefix qId ''estTheta'') = Inr (Some (RFloat (v_estTheta v)))"
    using h by (simp add: holds_def r_get_sess)
  have 4: "map (\<lambda>f. f = Fin 1) (fs @ [Fin x]) = map (\<lambda>x. x = 1) (v_responses v @ [x])"
    by (simp add: fs comp_def)
  from cc b have "currentCompetency nq =
      Fin (differential_evolution env bounds (map item_of (questions quizAPI)) A
             (map (\<lambda>f. f = Fin 1) (fs @ [Fin x])) (v_estTheta v))"
    unfolding 4 by (simp add: qs A)
  with 1 2 3 show ?thesis by blast
qed

text \<open>
  The linear example after the response 1, answered with 1/2: the vector is
  \<open>[True, False]\<close> and the counting estimator returns 1.
\<close>

theorem only_exact_one_counts_as_correct_witness:
  "reachable example_env linear_quiz 7 linear_r3
   \<and> get_administeredItems linear_r3 7 = Inr [0, 1]
   \<and> get_responses_as_float linear_r3 7 = Inr [Fin 1]
   \<and> get_responses linear_r3 7 = Inr [True]
   \<and> (\<exists>r' nq. api_get_next_question example_env linear_r3 \<lparr>a_quizId = 7, isCorrect = Some (1 / 2)\<rparr>
                  = (r', Inr nq)
          \<and> currentCompetency nq = Fin 1)"
proof -
  let ?call = "api_get_next_question example_env linear_r3 \<lparr>a_quizId = 7, isCorrect = Some (1 / 2)\<rparr>"
  let ?nq = "\<lparr>n_quizId = 7, questionId = None,
           measurementAccuracy = see 1 [item_of question_450, item_of question_12],
           currentCompetency = Fin 1, quizFinished = True\<rparr>"
  from sim_next(3) [OF linear_r3_view, of example_env "Some (1 / 2)"]
  have call: "?call = (fst ?call, Inr ?nq)"
    by (simp add: prod_eq_iff linear_step3_half)
  from only_exact_one_counts_as_correct [OF linear_r3_reachable linear_r3_reads(1) _
      linear_r3_reads(2) call]
  have flags: "get_responses linear_r3 7 = Inr [True]"
    and "\<exists>bounds theta0. currentCompetency ?nq =
           Fin (differential_evolution example_env bounds (map item_of (questions linear_quiz))
                  [0, 1] (map (\<lambda>f. f = Fin 1) ([Fin 1] @ [Fin (1 / 2)])) theta0)"
    by auto
  with call linear_r3_reachable linear_r3_reads show ?thesis
    by (intro conjI exI [of _ "fst ?call"] exI [of _ ?nq]) simp_all
qed

section \<open>The index list of the linear selector\<close>

text \<open>
  Claim C10. In every linear session \<^verbatim>\<open>get_indices\<close> returns \<^verbatim>\<open>len(questions) + 1\<close>
  indices, the last of them \<^verbatim>\<open>len(questions)\<close>, which is no index of the bank. Every
  administered item is a valid index of the bank all the same, and so is the pending
  item index of a session that has a question.
\<close>

theorem linear_indices_in_range:
  assumes "reachable env quizAPI qId r" and "questionSelector quizAPI = ''linearSelector''"
  shows "\<exists>indices A.
           get_indices r qId = Inr indices
           \<and> length indices = length (questions quizAPI) + 1
           \<and> last indices = int (length (questions quizAPI))
           \<and> get_administeredItems r qId = Inr A
           \<and> (\<forall>i\<in>set A. 0 \<le> i \<and> i < int (length (questions quizAPI)))
           \<and> (questions quizAPI \<noteq> [] \<longrightarrow>
                (\<forall>w. r_get r (get_rPrefix qId ''itemIndex'') = Inr (Some w) \<longrightarrow>
                   (\<exists>i. w = RInt i \<and> 0 \<le> i \<and> i < int (length (questions quizAPI)))))"
proof -
  from reachable_linear [OF assms] obtain v where
    h: "holds r qId v" and inv: "lin_inv env quizAPI v" by blast
  from inv have adm: "adm_inv env quizAPI v" by (simp add: lin_inv_def)
  then have qs: "v_questions v = questions quizAPI" by (simp add: adm_inv_def static_def)
  let ?idx = "map int [0..<Suc (length (questions quizAPI))]"
  have 1: "get_indices r qId = Inr ?idx"
    using get_indices_holds [OF h] qs by simp
  have 2: "length ?idx = length (questions quizAPI) + 1" by simp
  have 3: "last ?idx = int (length (questions quizAPI))"
    by (simp add: last_map del: upt_Suc)
  have 4: "get_administeredItems r qId = Inr (v_administeredItems v)"
    by (rule get_administeredItems_holds [OF h])
  have 5: "\<forall>i\<in>set (v_administeredItems v). 0 \<le> i \<and> i < int (length (questions quizAPI))"
    using adm by (simp add: adm_inv_def)
  have 6: "questions quizAPI \<noteq> [] \<longrightarrow>
                (\<forall>w. r_get r (get_rPrefix qId ''itemIndex'') = Inr (Some w) \<longrightarrow>
                   (\<exists>i. w = RInt i \<and> 0 \<le> i \<and> i < int (length (questions quizAPI))))"
    using inv r_get_itemIndex_holds [OF h]
    by (auto simp: lin_inv_def split: option.splits)
  from 1 2 3 4 5 6 show ?thesis by blast
qed

text \<open>
  The linear example after its first response.
\<close>

theorem linear_indices_in_range_witness:
  "reachable example_env linear_quiz 7 linear_r3
   \<and> questionSelector linear_quiz = ''linearSelector''
   \<and> get_indices linear_r3 7 = Inr [0, 1, 2]
   \<and> length (questions linear_quiz) = 2
   \<and> get_administeredItems linear_r3 7 = Inr [0, 1]
   \<and> r_get linear_r3 (get_rPrefix 7 ''itemIndex'') = Inr (Some (RInt 1))"
proof -
  from linear_indices_in_range [OF linear_r3_reachable linear_quiz_fields(1)]
  obtain indices where "get_indices linear_r3 7 = Inr indices"
    and "length indices = length (questions linear_quiz) + 1"
    and "last indices = int (length (questions linear_quiz))"
    by blast
  moreover have "get_indices linear_r3 7 = Inr [0, 1, 2]"
    using get_indices_holds [OF linear_r3_view(1)]
    by (simp add: linear_views upt_conv_Cons)
  ultimately show ?thesis
    using linear_r3_reachable linear_r3_reads by (simp add: linear_quiz_fields)
qed

end
